theory Spec2Isabelle
  imports Complex_Main "HOL-Library.Word"
begin

section \<open>TankShooter: simulation core\<close>

text \<open>
  The game's numbers are JavaScript numbers. They are modelled as \<^typ>\<open>real\<close>;
  quantities that the code keeps integral (levels after \<open>Math.floor\<close>, stat points,
  ids, grid cells) are \<^typ>\<open>int\<close> or \<^typ>\<open>nat\<close>. Rounding of IEEE doubles and
  infinities are outside the model. \<open>undefined\<close> and \<open>NaN\<close> appear only in the subsection
  on undefined operands, which follows them through the arithmetic of a hit.
\<close>

subsection \<open>Vectors\<close>

record vec2 =
  vec_x :: real
  vec_y :: real

text \<open>\<open>Math.hypot\<close> on two arguments.\<close>

definition hypot :: "real \<Rightarrow> real \<Rightarrow> real" where
  "hypot a b = sqrt (a * a + b * b)"

subsection \<open>Player tank (tank.ts)\<close>

definition TANK_RADIUS :: real where "TANK_RADIUS = 24"
definition BULLET_RADIUS :: real where "BULLET_RADIUS = 11"
definition TANK_SPEED :: real where "TANK_SPEED = 280"
definition TANK_ACCEL :: real where "TANK_ACCEL = 600"
definition TANK_FRICTION :: real where "TANK_FRICTION = 2"

definition applyTankDamage :: "real \<Rightarrow> real \<Rightarrow> real \<Rightarrow> real" where
  "applyTankDamage currentHp damage maxHp = max 0 (min maxHp (currentHp - max 0 damage))"

definition applyTankHeal :: "real \<Rightarrow> real \<Rightarrow> real \<Rightarrow> real" where
  "applyTankHeal currentHp heal maxHp = max 0 (min maxHp (currentHp + max 0 heal))"

text \<open>
  \<open>integrateTank\<close> mutates \<open>vel\<close> and \<open>pos\<close> in place; the model returns the new
  velocity and the new position. \<open>tankVelocity\<close> is the first half of the function: the
  velocity after acceleration, friction and the speed cap, before the position is clamped.
\<close>

definition tankVelocity :: "real \<Rightarrow> real \<Rightarrow> real \<Rightarrow> vec2 \<Rightarrow> vec2" where
  "tankVelocity dt inputX inputY vel =
     (let ilen = (if hypot inputX inputY = 0 then 1 else hypot inputX inputY);
          ix = (if inputX \<noteq> 0 \<or> inputY \<noteq> 0 then inputX / ilen else inputX);
          iy = (if inputX \<noteq> 0 \<or> inputY \<noteq> 0 then inputY / ilen else inputY);
          vx1 = vec_x vel + ix * TANK_ACCEL * dt;
          vy1 = vec_y vel + iy * TANK_ACCEL * dt;
          damp = max 0 (1 - TANK_FRICTION * dt);
          vx2 = vx1 * damp;
          vy2 = vy1 * damp;
          sp = hypot vx2 vy2
      in if sp > TANK_SPEED
         then \<lparr>vec_x = vx2 * (TANK_SPEED / sp), vec_y = vy2 * (TANK_SPEED / sp)\<rparr>
         else \<lparr>vec_x = vx2, vec_y = vy2\<rparr>)"

definition integrateTank ::
  "real \<Rightarrow> real \<Rightarrow> real \<Rightarrow> vec2 \<Rightarrow> vec2 \<Rightarrow> real \<Rightarrow> real \<Rightarrow> real \<Rightarrow> vec2 \<times> vec2" where
  "integrateTank dt inputX inputY vel pos mapW mapH margin =
     (let v = tankVelocity dt inputX inputY vel;
          nextX = vec_x pos + vec_x v * dt;
          nextY = vec_y pos + vec_y v * dt;
          clampedX = max (- margin) (min (mapW + margin) nextX);
          clampedY = max (- margin) (min (mapH + margin) nextY)
      in (\<lparr>vec_x = (if clampedX \<noteq> nextX then 0 else vec_x v),
           vec_y = (if clampedY \<noteq> nextY then 0 else vec_y v)\<rparr>,
          \<lparr>vec_x = clampedX, vec_y = clampedY\<rparr>))"

subsection \<open>Progression model (stats)\<close>

definition computeBulletHitDamage :: "real \<Rightarrow> real \<Rightarrow> real \<Rightarrow> real" where
  "computeBulletHitDamage bulletDamage bulletHp targetBaseDamage =
     (if bulletHp < targetBaseDamage
      then bulletDamage * (bulletHp / max (1 / 1000000) targetBaseDamage)
      else bulletDamage)"

datatype StatKey =
  MaxHealth | HealthRegen | BodyDamage | BulletSpeed | BulletPenetration | BulletDamage
  | Reload | MovementSpeed

record StatPoints =
  maxHealth :: int
  healthRegen :: int
  bodyDamage :: int
  bulletSpeed :: int
  bulletPenetration :: int
  bulletDamage :: int
  reload :: int
  movementSpeed :: int

definition STAT_ORDER :: "StatKey list" where
  "STAT_ORDER = [HealthRegen, MaxHealth, BodyDamage, BulletSpeed, BulletPenetration,
                 BulletDamage, Reload, MovementSpeed]"

text \<open>Reading and writing a slot by key (\<open>points[key]\<close>, \<open>{...points, [key]: v}\<close>).\<close>

fun getStat :: "StatKey \<Rightarrow> StatPoints \<Rightarrow> int" where
  "getStat MaxHealth p = maxHealth p"
| "getStat HealthRegen p = healthRegen p"
| "getStat BodyDamage p = bodyDamage p"
| "getStat BulletSpeed p = bulletSpeed p"
| "getStat BulletPenetration p = bulletPenetration p"
| "getStat BulletDamage p = bulletDamage p"
| "getStat Reload p = reload p"
| "getStat MovementSpeed p = movementSpeed p"

fun setStat :: "StatKey \<Rightarrow> int \<Rightarrow> StatPoints \<Rightarrow> StatPoints" where
  "setStat MaxHealth v p = p\<lparr>maxHealth := v\<rparr>"
| "setStat HealthRegen v p = p\<lparr>healthRegen := v\<rparr>"
| "setStat BodyDamage v p = p\<lparr>bodyDamage := v\<rparr>"
| "setStat BulletSpeed v p = p\<lparr>bulletSpeed := v\<rparr>"
| "setStat BulletPenetration v p = p\<lparr>bulletPenetration := v\<rparr>"
| "setStat BulletDamage v p = p\<lparr>bulletDamage := v\<rparr>"
| "setStat Reload v p = p\<lparr>reload := v\<rparr>"
| "setStat MovementSpeed v p = p\<lparr>movementSpeed := v\<rparr>"

text \<open>\<open>Object.values(points)\<close>, in the key order of the object literal.\<close>

definition statValues :: "StatPoints \<Rightarrow> int list" where
  "statValues p = [maxHealth p, healthRegen p, bodyDamage p, bulletSpeed p,
                   bulletPenetration p, bulletDamage p, reload p, movementSpeed p]"

definition sumStatPoints :: "StatPoints \<Rightarrow> int" where
  "sumStatPoints points = foldl (\<lambda>total v. total + v) 0 (statValues points)"

definition MAX_STAT_POINTS :: int where "MAX_STAT_POINTS = 7"
definition MAX_SKILL_POINTS :: int where "MAX_SKILL_POINTS = 33"
definition MAX_LEVEL :: int where "MAX_LEVEL = 45"

definition totalSkillPointsForLevel :: "real \<Rightarrow> int" where
  "totalSkillPointsForLevel level =
     (let clampedLevel = max 1 (min MAX_LEVEL \<lfloor>level\<rfloor>);
          perLevel = max 0 (min 27 (clampedLevel - 1));
          level30 = (if clampedLevel \<ge> 30 then 1 else 0);
          threeLevelSteps = max 0 ((clampedLevel - 33) div 3 + 1);
          extra = min 5 threeLevelSteps
      in min MAX_SKILL_POINTS (perLevel + level30 + extra))"

text \<open>
  The stepped function in the words of the specification: the points gained on reaching
  level \<open>l\<close>, summed over the levels reached so far and capped at the overall maximum.
\<close>

definition skillPointGain :: "nat \<Rightarrow> int" where
  "skillPointGain l =
     (if 2 \<le> l \<and> l \<le> 28 then 1 else 0)
     + (if l = 30 then 1 else 0)
     + (if 33 \<le> l \<and> (l - 33) mod 3 = 0 then 1 else 0)"

definition steppedSkillPoints :: "nat \<Rightarrow> int" where
  "steppedSkillPoints l = min 33 (sum_list (map skillPointGain [2..<Suc l]))"

definition availableSkillPoints :: "real \<Rightarrow> StatPoints \<Rightarrow> int" where
  "availableSkillPoints level points = max 0 (totalSkillPointsForLevel level - sumStatPoints points)"

definition BASE_HP :: real where "BASE_HP = 50"
definition HP_PER_LEVEL :: real where "HP_PER_LEVEL = 2"
definition HP_PER_POINT :: real where "HP_PER_POINT = 20"
definition SIZE_PER_LEVEL :: real where "SIZE_PER_LEVEL = 1 / 100"
definition FOV_SCALE :: real where "FOV_SCALE = 3 / 1000"
definition REGEN_BASE_FACTOR :: real where "REGEN_BASE_FACTOR = 3 / 100"
definition REGEN_PER_POINT :: real where "REGEN_PER_POINT = 12 / 100"
definition REGEN_HYPER_DELAY :: real where "REGEN_HYPER_DELAY = 30"
definition REGEN_HYPER_MULTIPLIER :: real where "REGEN_HYPER_MULTIPLIER = 4"
definition BODY_DAMAGE_BASE :: real where "BODY_DAMAGE_BASE = 5"
definition BODY_DAMAGE_MULT_SHAPE :: real where "BODY_DAMAGE_MULT_SHAPE = 4"
definition BODY_DAMAGE_MULT_TANK :: real where "BODY_DAMAGE_MULT_TANK = 6"
definition BODY_DAMAGE_MULT_PROJECTILE :: real where "BODY_DAMAGE_MULT_PROJECTILE = 1"
definition BASE_BULLET_SPEED :: real where "BASE_BULLET_SPEED = 300"
definition BULLET_SPEED_PER_POINT :: real where "BULLET_SPEED_PER_POINT = 1 / 10"
definition BASE_BULLET_HP :: real where "BASE_BULLET_HP = 2"
definition BULLET_PENETRATION_PER_POINT :: real where "BULLET_PENETRATION_PER_POINT = 75 / 100"
definition BASE_BULLET_DAMAGE :: real where "BASE_BULLET_DAMAGE = 7"
definition BULLET_DAMAGE_PER_POINT :: real where "BULLET_DAMAGE_PER_POINT = 42857 / 100000"
definition BASE_RELOAD_TICKS :: real where "BASE_RELOAD_TICKS = 15"
definition RELOAD_POINT_FACTOR :: real where "RELOAD_POINT_FACTOR = 914 / 1000"
definition TICK_DURATION :: real where "TICK_DURATION = 4 / 100"
definition BASE_TANK_SPEED :: real where "BASE_TANK_SPEED = 280"
definition SPEED_PER_POINT :: real where "SPEED_PER_POINT = 6 / 100"
definition LEVEL_SPEED_SLOWDOWN :: real where "LEVEL_SPEED_SLOWDOWN = 4 / 1000"
definition MIN_LEVEL_SPEED_MULTIPLIER :: real where "MIN_LEVEL_SPEED_MULTIPLIER = 6 / 10"
definition HIGH_SPEED_DAMAGE_PENALTY :: real where "HIGH_SPEED_DAMAGE_PENALTY = 8 / 100"
definition IMPACT_SPEED_BONUS :: real where "IMPACT_SPEED_BONUS = 25 / 100"
definition XP_PER_HP :: real where "XP_PER_HP = 1"
definition SCORE_PER_HP :: real where "SCORE_PER_HP = 5"

datatype EntityKind = Square | Triangle

fun SHAPE_BASE_DAMAGE :: "EntityKind \<Rightarrow> real" where
  "SHAPE_BASE_DAMAGE Square = 2"
| "SHAPE_BASE_DAMAGE Triangle = 4"

fun SCORE_MULTIPLIER :: "EntityKind \<Rightarrow> real" where
  "SCORE_MULTIPLIER Square = 1"
| "SCORE_MULTIPLIER Triangle = 3 / 2"

definition baseMaxHpForLevel :: "real \<Rightarrow> real" where
  "baseMaxHpForLevel level = BASE_HP + HP_PER_LEVEL * max 0 (level - 1)"

record DerivedStats =
  sizeMultiplier :: real
  fovMultiplier :: real
  d_maxHp :: real
  regenPerSecond :: real
  bodyDamageShape :: real
  bodyDamageTank :: real
  bodyDamageProjectile :: real
  d_bulletSpeed :: real
  bulletSpeedMultiplier :: real
  d_bulletDamage :: real
  bulletHpMax :: real
  reloadTicks :: real
  reloadSeconds :: real
  moveSpeed :: real

definition computeDerivedStats :: "real \<Rightarrow> StatPoints \<Rightarrow> DerivedStats" where
  "computeDerivedStats level points =
     (let sizeMultiplier' = 1 + SIZE_PER_LEVEL * max 0 (level - 1);
          fovMultiplier' = 1 + FOV_SCALE * max 0 (level - 1);
          maxHp' = baseMaxHpForLevel level + real_of_int (maxHealth points) * HP_PER_POINT;
          regenPerSecond' =
            (maxHp' / 30) * (REGEN_BASE_FACTOR + REGEN_PER_POINT * real_of_int (healthRegen points));
          bodyBase = real_of_int (bodyDamage points) + BODY_DAMAGE_BASE;
          bulletSpeedMultiplier' = 1 + BULLET_SPEED_PER_POINT * real_of_int (bulletSpeed points);
          bulletSpeed' = BASE_BULLET_SPEED * bulletSpeedMultiplier';
          bulletDamageBase =
            BASE_BULLET_DAMAGE * (1 + BULLET_DAMAGE_PER_POINT * real_of_int (bulletDamage points));
          speedPenalty = 1 / (1 + max 0 (bulletSpeedMultiplier' - 1) * HIGH_SPEED_DAMAGE_PENALTY);
          bulletDamage' = bulletDamageBase * speedPenalty;
          bulletHpMax' =
            BASE_BULLET_HP * (1 + BULLET_PENETRATION_PER_POINT * real_of_int (bulletPenetration points));
          reloadTicks' =
            real_of_int \<lceil>BASE_RELOAD_TICKS * (RELOAD_POINT_FACTOR powr real_of_int (reload points))\<rceil>;
          reloadSeconds' = reloadTicks' * TICK_DURATION;
          levelSlowdown = max MIN_LEVEL_SPEED_MULTIPLIER (1 - LEVEL_SPEED_SLOWDOWN * max 0 (level - 1));
          moveSpeed' =
            BASE_TANK_SPEED * levelSlowdown * (1 + SPEED_PER_POINT * real_of_int (movementSpeed points))
      in \<lparr>sizeMultiplier = sizeMultiplier',
          fovMultiplier = fovMultiplier',
          d_maxHp = maxHp',
          regenPerSecond = regenPerSecond',
          bodyDamageShape = bodyBase * BODY_DAMAGE_MULT_SHAPE,
          bodyDamageTank = bodyBase * BODY_DAMAGE_MULT_TANK,
          bodyDamageProjectile = bodyBase * BODY_DAMAGE_MULT_PROJECTILE,
          d_bulletSpeed = bulletSpeed',
          bulletSpeedMultiplier = bulletSpeedMultiplier',
          d_bulletDamage = bulletDamage',
          bulletHpMax = bulletHpMax',
          reloadTicks = reloadTicks',
          reloadSeconds = reloadSeconds',
          moveSpeed = moveSpeed'\<rparr>)"

definition impactMultiplierFromSpeed :: "real \<Rightarrow> real" where
  "impactMultiplierFromSpeed speed =
     (let ratio = max 0 (min 1 (speed / BASE_TANK_SPEED)) in 1 + ratio * IMPACT_SPEED_BONUS)"

text \<open>\<open>Math.round\<close> rounds half up.\<close>

definition js_round :: "real \<Rightarrow> int" where
  "js_round r = \<lfloor>r + 1 / 2\<rfloor>"

definition xpForKill :: "EntityKind \<Rightarrow> real \<Rightarrow> int" where
  "xpForKill kind maxHp = js_round (max 1 maxHp * SCORE_MULTIPLIER kind * XP_PER_HP)"

definition scoreForKill :: "EntityKind \<Rightarrow> real \<Rightarrow> int" where
  "scoreForKill kind maxHp = js_round (max 1 maxHp * SCORE_MULTIPLIER kind * SCORE_PER_HP)"

subsection \<open>Stat allocation (the number-key handler of the component)\<close>

text \<open>
  A JavaScript string is a sequence of UTF-16 code units; \<open>codeUnits\<close> gives the code
  units of a string of ASCII characters.
\<close>

type_synonym jsstring = "nat list"

definition codeUnits :: "string \<Rightarrow> jsstring" where
  "codeUnits s = map of_char s"

text \<open>
  \<open>Number.parseInt(s, 10)\<close>: leading white space is skipped, then an optional sign, then
  the longest prefix of decimal digits; \<open>None\<close> stands for \<open>NaN\<close>. White space is every
  \<open>StrWhiteSpaceChar\<close>: tab, line feed, vertical tab, form feed, carriage return, space,
  no-break space, the other space separators of Unicode, the line and paragraph
  separators, and the byte order mark.
\<close>

definition isWhiteSpace :: "nat \<Rightarrow> bool" where
  "isWhiteSpace c =
     (c \<in> set [0x09, 0x0A, 0x0B, 0x0C, 0x0D, 0x20, 0xA0, 0x1680, 0x2028, 0x2029, 0x202F, 0x205F,
                0x3000, 0xFEFF]
      \<or> (0x2000 \<le> c \<and> c \<le> 0x200A))"

definition isDigit :: "nat \<Rightarrow> bool" where
  "isDigit c = (0x30 \<le> c \<and> c \<le> 0x39)"

definition digitValue :: "nat \<Rightarrow> int" where
  "digitValue c = int c - 48"

definition parseInt10 :: "jsstring \<Rightarrow> int option" where
  "parseInt10 s =
     (let s1 = dropWhile isWhiteSpace s;
          sgn = (case s1 of c # r \<Rightarrow> (if c = 0x2D then - 1 else 1) | [] \<Rightarrow> 1);
          s2 = (case s1 of c # r \<Rightarrow> (if c = 0x2D \<or> c = 0x2B then r else s1) | [] \<Rightarrow> s1);
          ds = takeWhile isDigit s2
      in if ds = [] then None
         else Some (sgn * foldl (\<lambda>acc c. 10 * acc + digitValue c) 0 ds))"

record keyEvent =
  ev_repeat :: bool
  ev_key :: jsstring

record player =
  playerStats :: StatPoints
  playerLevel :: real

definition INITIAL_STATS :: StatPoints where
  "INITIAL_STATS = \<lparr>maxHealth = 0, healthRegen = 0, bodyDamage = 0, bulletSpeed = 0,
                     bulletPenetration = 0, bulletDamage = 0, reload = 0, movementSpeed = 0\<rparr>"

definition onKeyDown :: "keyEvent \<Rightarrow> player \<Rightarrow> player" where
  "onKeyDown e st =
     (if ev_repeat e then st
      else case parseInt10 (ev_key e) of
        None \<Rightarrow> st
      | Some idx \<Rightarrow>
          if idx < 1 \<or> idx > int (length STAT_ORDER) then st
          else let key = STAT_ORDER ! nat (idx - 1);
                   current = getStat key (playerStats st)
               in if current \<ge> MAX_STAT_POINTS then st
                  else let maxedCount =
                             length (filter (\<lambda>v. v \<ge> MAX_STAT_POINTS) (statValues (playerStats st)))
                       in if current = MAX_STAT_POINTS - 1 \<and> maxedCount \<ge> 4 then st
                          else let available = availableSkillPoints (playerLevel st) (playerStats st)
                               in if available \<le> 0 then st
                                  else st\<lparr>playerStats := setStat key (current + 1) (playerStats st)\<rparr>)"

subsection \<open>Entities (entities.ts)\<close>

record entity =
  e_id :: nat
  e_pos :: vec2
  e_vel :: vec2
  e_kick :: vec2
  e_angle :: real
  e_angVel :: real
  e_size :: real
  e_kind :: EntityKind
  e_fill :: string
  e_stroke :: string
  e_hp :: real
  e_maxHp :: real
  e_hitT :: "real option"

definition SQUARE_FILL :: string where "SQUARE_FILL = ''#ffe869''"
definition SQUARE_STROKE :: string where "SQUARE_STROKE = ''#bfae4e''"
definition SQUARE_SIZE :: real where "SQUARE_SIZE = 38"
definition SQUARE_MAX_COUNT :: nat where "SQUARE_MAX_COUNT = 18"
definition SQUARE_MAX_HP :: real where "SQUARE_MAX_HP = 10"
definition TRIANGLE_FILL :: string where "TRIANGLE_FILL = ''#fc7677''"
definition TRIANGLE_STROKE :: string where "TRIANGLE_STROKE = ''#bd5859''"
definition TRIANGLE_SIZE :: real where "TRIANGLE_SIZE = 43"
definition TRIANGLE_MAX_COUNT :: nat where "TRIANGLE_MAX_COUNT = 5"
definition TRIANGLE_MAX_HP :: real where "TRIANGLE_MAX_HP = 30"
definition ENTITY_SPEED_MIN :: real where "ENTITY_SPEED_MIN = 5"
definition ENTITY_SPEED_MAX :: real where "ENTITY_SPEED_MAX = 8"
definition ENTITY_ANG_MIN :: real where "ENTITY_ANG_MIN = - (6 / 10)"
definition ENTITY_ANG_MAX :: real where "ENTITY_ANG_MAX = 6 / 10"
definition ENTITY_COLLISION_INSET :: real where "ENTITY_COLLISION_INSET = 3"
definition ENTITY_BOUNCE :: real where "ENTITY_BOUNCE = 30"
definition HIT_FLASH_DURATION :: real where "HIT_FLASH_DURATION = 6 / 100"
definition PLAYER_CONTACT_DPS :: real where "PLAYER_CONTACT_DPS = 12"

definition computeEntityCollisionRadius :: "real \<Rightarrow> real" where
  "computeEntityCollisionRadius sz = max 0 ((sz * sqrt 2) / 2 - ENTITY_COLLISION_INSET)"

text \<open>The local closure \<open>rot\<close> of the two vertex functions.\<close>

definition rot :: "vec2 \<Rightarrow> real \<Rightarrow> vec2 \<Rightarrow> vec2" where
  "rot pos angle p =
     \<lparr>vec_x = vec_x p * cos angle - vec_y p * sin angle + vec_x pos,
      vec_y = vec_x p * sin angle + vec_y p * cos angle + vec_y pos\<rparr>"

definition triangleWorldVerts :: "vec2 \<Rightarrow> real \<Rightarrow> real \<Rightarrow> vec2 \<times> vec2 \<times> vec2" where
  "triangleWorldVerts pos angle sz =
     (let s = max 1 sz;
          halfSide = s / 2;
          height = (s * sqrt 3) / 2;
          top = \<lparr>vec_x = 0, vec_y = - (2 / 3) * height\<rparr>;
          br = \<lparr>vec_x = halfSide, vec_y = (1 / 3) * height\<rparr>;
          bl = \<lparr>vec_x = - halfSide, vec_y = (1 / 3) * height\<rparr>
      in (rot pos angle top, rot pos angle br, rot pos angle bl))"

definition squareWorldVerts :: "vec2 \<Rightarrow> real \<Rightarrow> real \<Rightarrow> vec2 \<times> vec2 \<times> vec2 \<times> vec2" where
  "squareWorldVerts pos angle sz =
     (let s = max 1 sz;
          hs = s / 2
      in (rot pos angle \<lparr>vec_x = - hs, vec_y = - hs\<rparr>,
          rot pos angle \<lparr>vec_x = hs, vec_y = - hs\<rparr>,
          rot pos angle \<lparr>vec_x = hs, vec_y = hs\<rparr>,
          rot pos angle \<lparr>vec_x = - hs, vec_y = hs\<rparr>))"

definition pointInTriangle :: "vec2 \<Rightarrow> vec2 \<Rightarrow> vec2 \<Rightarrow> vec2 \<Rightarrow> bool" where
  "pointInTriangle p a b c =
     (let v0x = vec_x c - vec_x a; v0y = vec_y c - vec_y a;
          v1x = vec_x b - vec_x a; v1y = vec_y b - vec_y a;
          v2x = vec_x p - vec_x a; v2y = vec_y p - vec_y a;
          dot00 = v0x * v0x + v0y * v0y;
          dot01 = v0x * v1x + v0y * v1y;
          dot02 = v0x * v2x + v0y * v2y;
          dot11 = v1x * v1x + v1y * v1y;
          dot12 = v1x * v2x + v1y * v2y;
          invDen = 1 / max (1 / 100000000) (dot00 * dot11 - dot01 * dot01);
          u = (dot11 * dot02 - dot01 * dot12) * invDen;
          v = (dot00 * dot12 - dot01 * dot02) * invDen
      in u \<ge> 0 \<and> v \<ge> 0 \<and> u + v \<le> 1)"

definition closestPointOnSegment :: "vec2 \<Rightarrow> vec2 \<Rightarrow> vec2 \<Rightarrow> vec2" where
  "closestPointOnSegment p a b =
     (let abx = vec_x b - vec_x a; aby = vec_y b - vec_y a;
          apx = vec_x p - vec_x a; apy = vec_y p - vec_y a;
          ab2 = abx * abx + aby * aby;
          t = (if ab2 > 0 then max 0 (min 1 ((apx * abx + apy * aby) / ab2)) else 0)
      in \<lparr>vec_x = vec_x a + abx * t, vec_y = vec_y a + aby * t\<rparr>)"

definition dist2 :: "vec2 \<Rightarrow> vec2 \<Rightarrow> real" where
  "dist2 q p = (vec_x q - vec_x p)\<^sup>2 + (vec_y q - vec_y p)\<^sup>2"

definition closestPointOnTriangle :: "vec2 \<Rightarrow> vec2 \<Rightarrow> vec2 \<Rightarrow> vec2 \<Rightarrow> vec2" where
  "closestPointOnTriangle p a b c =
     (if pointInTriangle p a b c then \<lparr>vec_x = vec_x p, vec_y = vec_y p\<rparr>
      else let p1 = closestPointOnSegment p a b;
               p2 = closestPointOnSegment p b c;
               p3 = closestPointOnSegment p c a;
               d1 = dist2 p1 p;
               d2 = dist2 p2 p;
               d3 = dist2 p3 p
           in if d1 \<le> d2 \<and> d1 \<le> d3 then p1
              else if d2 \<le> d1 \<and> d2 \<le> d3 then p2
              else p3)"

definition circleIntersectsTriangle :: "vec2 \<Rightarrow> real \<Rightarrow> vec2 \<Rightarrow> vec2 \<Rightarrow> vec2 \<Rightarrow> bool" where
  "circleIntersectsTriangle center radius a b c =
     (let q = closestPointOnTriangle center a b c;
          dx = vec_x center - vec_x q; dy = vec_y center - vec_y q
      in dx * dx + dy * dy \<le> radius * radius)"

subsubsection \<open>Random spawning\<close>

text \<open>
  \<open>Math.random()\<close> is modelled by a stream \<open>rnd\<close> of numbers and the index \<open>n\<close> of the
  next one to be drawn. The function mutates the entity array and the id counter; the
  model returns the result flag, the entities, the id counter and the index of the next
  random number. The first argument of \<open>spawnAttempts\<close> counts the iterations of the
  \<open>for\<close> loop that are left.
\<close>

definition newEntity :: "nat \<Rightarrow> vec2 \<Rightarrow> real \<Rightarrow> real \<Rightarrow> real \<Rightarrow> real \<Rightarrow> EntityKind \<Rightarrow> entity" where
  "newEntity ident p speed dir angVel angle kind =
     \<lparr>e_id = ident,
      e_pos = p,
      e_vel = \<lparr>vec_x = cos dir * speed, vec_y = sin dir * speed\<rparr>,
      e_kick = \<lparr>vec_x = 0, vec_y = 0\<rparr>,
      e_angle = angle,
      e_angVel = angVel,
      e_size = (if kind = Square then SQUARE_SIZE else TRIANGLE_SIZE),
      e_kind = kind,
      e_fill = (if kind = Square then SQUARE_FILL else TRIANGLE_FILL),
      e_stroke = (if kind = Square then SQUARE_STROKE else TRIANGLE_STROKE),
      e_hp = (if kind = Square then SQUARE_MAX_HP else TRIANGLE_MAX_HP),
      e_maxHp = (if kind = Square then SQUARE_MAX_HP else TRIANGLE_MAX_HP),
      e_hitT = None\<rparr>"

fun spawnAttempts ::
  "nat \<Rightarrow> (nat \<Rightarrow> real) \<Rightarrow> nat \<Rightarrow> entity list \<Rightarrow> nat \<Rightarrow> vec2 \<Rightarrow> real \<Rightarrow> real \<Rightarrow> real \<Rightarrow> EntityKind
     \<Rightarrow> bool \<times> entity list \<times> nat \<times> nat" where
  "spawnAttempts 0 rnd n entities nextId playerPos mapW mapH safeRadius kind =
     (False, entities, nextId, n)"
| "spawnAttempts (Suc k) rnd n entities nextId playerPos mapW mapH safeRadius kind =
     (let x = rnd n * mapW;
          y = rnd (n + 1) * mapH;
          dx = x - vec_x playerPos;
          dy = y - vec_y playerPos
      in if dx * dx + dy * dy < safeRadius * safeRadius
         then spawnAttempts k rnd (n + 2) entities nextId playerPos mapW mapH safeRadius kind
         else let countSquare = length (filter (\<lambda>e. e_kind e = Square) entities);
                  countTri = length (filter (\<lambda>e. e_kind e = Triangle) entities)
              in if kind = Square \<and> countSquare \<ge> SQUARE_MAX_COUNT then (False, entities, nextId, n + 2)
                 else if kind = Triangle \<and> countTri \<ge> TRIANGLE_MAX_COUNT
                 then (False, entities, nextId, n + 2)
                 else let speed = ENTITY_SPEED_MIN + rnd (n + 2) * (ENTITY_SPEED_MAX - ENTITY_SPEED_MIN);
                          dir = rnd (n + 3) * pi * 2;
                          angVel = ENTITY_ANG_MIN + rnd (n + 4) * (ENTITY_ANG_MAX - ENTITY_ANG_MIN);
                          angle = rnd (n + 5) * pi * 2
                      in (True,
                          entities @ [newEntity nextId \<lparr>vec_x = x, vec_y = y\<rparr> speed dir angVel angle kind],
                          Suc nextId, n + 6))"

definition spawnEntityRandomAvoidingPlayers ::
  "(nat \<Rightarrow> real) \<Rightarrow> nat \<Rightarrow> entity list \<Rightarrow> nat \<Rightarrow> vec2 \<Rightarrow> real \<Rightarrow> real \<Rightarrow> real \<Rightarrow> EntityKind
     \<Rightarrow> bool \<times> entity list \<times> nat \<times> nat" where
  "spawnEntityRandomAvoidingPlayers rnd n entities nextId playerPos mapW mapH safeRadius kind =
     spawnAttempts 20 rnd n entities nextId playerPos mapW mapH safeRadius kind"

subsubsection \<open>Shape-on-shape collisions (SAT)\<close>

definition normalize_v :: "vec2 \<Rightarrow> vec2" where
  "normalize_v v =
     (let len = (if hypot (vec_x v) (vec_y v) = 0 then 1 / 1000000 else hypot (vec_x v) (vec_y v))
      in \<lparr>vec_x = vec_x v / len, vec_y = vec_y v / len\<rparr>)"

definition dot :: "vec2 \<Rightarrow> vec2 \<Rightarrow> real" where
  "dot a b = vec_x a * vec_x b + vec_y a * vec_y b"

definition edgeNormal :: "vec2 \<Rightarrow> vec2 \<Rightarrow> vec2" where
  "edgeNormal a b =
     (let ex = vec_x b - vec_x a; ey = vec_y b - vec_y a
      in normalize_v \<lparr>vec_x = - ey, vec_y = ex\<rparr>)"

text \<open>
  Reading \<open>verts[0]\<close> of an empty array gives \<open>undefined\<close>, and \<open>dot\<close> then throws a
  \<open>TypeError\<close>.
\<close>

datatype js_error = TypeError

definition projectStep :: "vec2 \<Rightarrow> real \<times> real \<Rightarrow> vec2 \<Rightarrow> real \<times> real" where
  "projectStep axis mm w =
     (let p = dot axis w
      in if p < fst mm then (p, snd mm) else if p > snd mm then (fst mm, p) else mm)"

fun projectPolygon :: "vec2 \<Rightarrow> vec2 list \<Rightarrow> js_error + (real \<times> real)" where
  "projectPolygon axis [] = Inl TypeError"
| "projectPolygon axis (v # vs) = Inr (foldl (projectStep axis) (dot axis v, dot axis v) vs)"

text \<open>
  The closure \<open>testAxesFrom\<close> of \<open>satMTV\<close>. Its variables \<open>minOverlap\<close>, \<open>mtvAxis\<close> and
  \<open>found\<close> are one value: \<open>None\<close> is the initial (\<open>Infinity\<close>, zero vector, \<open>false\<close>), and
  \<open>Some (minOverlap, mtvAxis)\<close> the state after an update, where \<open>found\<close> is \<open>true\<close>. The
  result \<open>Separated\<close> is the closure returning \<open>false\<close>.
\<close>

datatype axesResult = Separated | Overlapping "(real \<times> vec2) option"

definition polygonEdges :: "vec2 list \<Rightarrow> (vec2 \<times> vec2) list" where
  "polygonEdges verts = map (\<lambda>i. (verts ! i, verts ! ((i + 1) mod length verts))) [0..<length verts]"

fun testAxesFrom ::
  "vec2 list \<Rightarrow> vec2 list \<Rightarrow> vec2 \<Rightarrow> (vec2 \<times> vec2) list \<Rightarrow> (real \<times> vec2) option
     \<Rightarrow> js_error + axesResult" where
  "testAxesFrom vertsA vertsB dir [] st = Inr (Overlapping st)"
| "testAxesFrom vertsA vertsB dir (e # es) st =
     (let axis = edgeNormal (fst e) (snd e)
      in case projectPolygon axis vertsA of
           Inl err \<Rightarrow> Inl err
         | Inr pa \<Rightarrow>
             (case projectPolygon axis vertsB of
                Inl err \<Rightarrow> Inl err
              | Inr pb \<Rightarrow>
                  (let overlap = min (snd pa) (snd pb) - max (fst pa) (fst pb)
                   in if overlap \<le> 0 then Inr Separated
                      else if (case st of None \<Rightarrow> True | Some m \<Rightarrow> overlap < fst m)
                      then let sgn = (if dot axis dir < 0 then - 1 else 1)
                           in testAxesFrom vertsA vertsB dir es
                                (Some (overlap, \<lparr>vec_x = vec_x axis * sgn, vec_y = vec_y axis * sgn\<rparr>))
                      else testAxesFrom vertsA vertsB dir es st)))"

definition satMTV ::
  "vec2 list \<Rightarrow> vec2 list \<Rightarrow> real \<Rightarrow> real \<Rightarrow> real \<Rightarrow> real \<Rightarrow> js_error + vec2 option" where
  "satMTV vertsA vertsB centerAX centerAY centerBX centerBY =
     (let dir = \<lparr>vec_x = centerBX - centerAX, vec_y = centerBY - centerAY\<rparr>
      in case testAxesFrom vertsA vertsB dir (polygonEdges vertsA) None of
           Inl err \<Rightarrow> Inl err
         | Inr Separated \<Rightarrow> Inr None
         | Inr (Overlapping st1) \<Rightarrow>
             (case testAxesFrom vertsA vertsB dir (polygonEdges vertsB) st1 of
                Inl err \<Rightarrow> Inl err
              | Inr Separated \<Rightarrow> Inr None
              | Inr (Overlapping None) \<Rightarrow> Inr None
              | Inr (Overlapping (Some m)) \<Rightarrow>
                  Inr (Some \<lparr>vec_x = vec_x (snd m) * fst m, vec_y = vec_y (snd m) * fst m\<rparr>)))"

text \<open>The collision polygon of an entity, inset by \<open>INSET = 6\<close>.\<close>

definition entityVerts :: "entity \<Rightarrow> vec2 list" where
  "entityVerts a =
     (let sz = max 1 (e_size a - 6)
      in if e_kind a = Triangle
         then (case triangleWorldVerts (e_pos a) (e_angle a) sz of (v0, v1, v2) \<Rightarrow> [v0, v1, v2])
         else (case squareWorldVerts (e_pos a) (e_angle a) sz of (r0, r1, r2, r3) \<Rightarrow> [r0, r1, r2, r3]))"

text \<open>
  The body of the inner loop for one overlapping pair: both entities are moved by half the
  MTV and kicked along its normal (\<open>BOUNCE = 120\<close>).
\<close>

definition separatePair :: "vec2 \<Rightarrow> entity \<Rightarrow> entity \<Rightarrow> entity \<times> entity" where
  "separatePair mtv a b =
     (let n = normalize_v mtv
      in (a\<lparr>e_pos := \<lparr>vec_x = vec_x (e_pos a) - vec_x mtv * (1 / 2),
                      vec_y = vec_y (e_pos a) - vec_y mtv * (1 / 2)\<rparr>,
            e_kick := \<lparr>vec_x = vec_x (e_kick a) - vec_x n * 120,
                       vec_y = vec_y (e_kick a) - vec_y n * 120\<rparr>\<rparr>,
          b\<lparr>e_pos := \<lparr>vec_x = vec_x (e_pos b) + vec_x mtv * (1 / 2),
                      vec_y = vec_y (e_pos b) + vec_y mtv * (1 / 2)\<rparr>,
            e_kick := \<lparr>vec_x = vec_x (e_kick b) + vec_x n * 120,
                       vec_y = vec_y (e_kick b) + vec_y n * 120\<rparr>\<rparr>))"

text \<open>
  The inner loop over \<open>j\<close>: \<open>vertsA\<close> was computed before the loop, the positions are read
  from the entities as they are now.
\<close>

fun resolveInner :: "nat \<Rightarrow> vec2 list \<Rightarrow> nat list \<Rightarrow> entity list \<Rightarrow> js_error + entity list" where
  "resolveInner i vertsA [] es = Inr es"
| "resolveInner i vertsA (j # js) es =
     (let a = es ! i; b = es ! j; vertsB = entityVerts b
      in case satMTV vertsA vertsB (vec_x (e_pos a)) (vec_y (e_pos a)) (vec_x (e_pos b)) (vec_y (e_pos b)) of
           Inl err \<Rightarrow> Inl err
         | Inr None \<Rightarrow> resolveInner i vertsA js es
         | Inr (Some mtv) \<Rightarrow>
             resolveInner i vertsA js (es[i := fst (separatePair mtv a b), j := snd (separatePair mtv a b)]))"

fun resolveOuter :: "nat list \<Rightarrow> entity list \<Rightarrow> js_error + entity list" where
  "resolveOuter [] es = Inr es"
| "resolveOuter (i # is) es =
     (case resolveInner i (entityVerts (es ! i)) [i + 1..<length es] es of
        Inl err \<Rightarrow> Inl err
      | Inr es' \<Rightarrow> resolveOuter is es')"

definition resolveEntityEntityCollisions :: "entity list \<Rightarrow> js_error + entity list" where
  "resolveEntityEntityCollisions entities =
     (if length entities \<le> 1 then Inr entities else resolveOuter [0..<length entities] entities)"

subsection \<open>Contact damage and regeneration (the frame function of the component)\<close>

text \<open>
  The references of the component that the contact callback and the regeneration step
  read and write. \<open>onPlayerCollide\<close> is the callback as the component declares it, with
  the two parameters \<open>entity\<close> and \<open>overlapDt\<close>, applied to an entity and a number. What
  it computes when \<open>updateEntities\<close> calls it is in the subsection on undefined operands.
\<close>

record frameState =
  tankHp :: real
  tankHitT :: real
  tookDamage :: bool
  killedByBody :: "nat set"
  deathEffects :: "entity list"
  pendingXp :: int
  pendingScore :: int
  timeSinceDamage :: real

definition onPlayerCollide ::
  "DerivedStats \<Rightarrow> vec2 \<Rightarrow> entity \<Rightarrow> real \<Rightarrow> frameState \<Rightarrow> frameState \<times> entity" where
  "onPlayerCollide derived tankVel ent overlapDt fs =
     (let fs1 = fs\<lparr>tankHp := max 0 (tankHp fs - PLAYER_CONTACT_DPS * overlapDt),
                    tankHitT := HIT_FLASH_DURATION,
                    tookDamage := True\<rparr>;
          speed = hypot (vec_x tankVel) (vec_y tankVel);
          impact = impactMultiplierFromSpeed speed;
          bodyDmg = bodyDamageShape derived * impact * overlapDt;
          ent1 = ent\<lparr>e_hp := max 0 (e_hp ent - bodyDmg), e_hitT := Some HIT_FLASH_DURATION\<rparr>
      in if e_hp ent1 \<le> 0
         then (fs1\<lparr>killedByBody := insert (e_id ent1) (killedByBody fs1),
                   deathEffects := deathEffects fs1 @ [ent1],
                   pendingXp := pendingXp fs1 + xpForKill (e_kind ent1) (e_maxHp ent1),
                   pendingScore := pendingScore fs1 + scoreForKill (e_kind ent1) (e_maxHp ent1)\<rparr>,
               ent1)
         else (fs1, ent1))"

definition regenStep :: "DerivedStats \<Rightarrow> real \<Rightarrow> frameState \<Rightarrow> frameState" where
  "regenStep derived dt fs =
     (let fs1 =
            (if tookDamage fs then fs\<lparr>timeSinceDamage := 0\<rparr>
             else let fs2 = fs\<lparr>timeSinceDamage := timeSinceDamage fs + dt\<rparr>
                  in if timeSinceDamage fs2 > 0
                     then let isHyper = timeSinceDamage fs2 \<ge> REGEN_HYPER_DELAY;
                              regen = regenPerSecond derived * (if isHyper then REGEN_HYPER_MULTIPLIER else 1)
                          in fs2\<lparr>tankHp := min (d_maxHp derived) (tankHp fs2 + regen * dt)\<rparr>
                     else fs2)
      in fs1\<lparr>tankHp := min (d_maxHp derived) (tankHp fs1)\<rparr>)"

subsection \<open>Bullet system (bulletSystem.ts)\<close>

text \<open>
  A bullet as \<open>updateBullets\<close> reads it: with the penetration budget \<open>hp\<close> and the
  \<open>damage\<close> value next to the fields of the \<open>Bullet\<close> interface. The interface of
  tank.ts does not declare these two fields; the record describes a bullet on which both
  are numbers. The bullets that \<open>spawnBullet\<close> creates are treated in the subsection on
  undefined operands.
\<close>

record bullet =
  b_id :: nat
  b_pos :: vec2
  b_vel :: vec2
  b_radius :: real
  b_life :: real
  b_hp :: real
  b_damage :: real

record CameraInfo =
  cam_x :: real
  cam_y :: real
  cam_width :: real
  cam_height :: real
  devicePixelRatio :: real

definition moveBullet :: "real \<Rightarrow> bullet \<Rightarrow> bullet" where
  "moveBullet dt b =
     b\<lparr>b_pos := \<lparr>vec_x = vec_x (b_pos b) + vec_x (b_vel b) * dt,
                  vec_y = vec_y (b_pos b) + vec_y (b_vel b) * dt\<rparr>,
       b_life := b_life b - dt\<rparr>"

definition maxBulletRadius :: "bullet list \<Rightarrow> real" where
  "maxBulletRadius bullets = foldl (\<lambda>m b. if b_radius b > m then b_radius b else m) BULLET_RADIUS bullets"

definition cellSizeFor :: "bullet list \<Rightarrow> real" where
  "cellSizeFor bullets = max (max SQUARE_SIZE TRIANGLE_SIZE) (maxBulletRadius bullets * 2)"

text \<open>
  The key of a cell, \<open>((cx << 16) ^ (cy & 0xffff)) | 0\<close>: the bitwise operators work on
  the 32-bit integers that the cell numbers are converted to.
\<close>

definition key :: "int \<Rightarrow> int \<Rightarrow> 32 word" where
  "key cx cy = xor (push_bit 16 (word_of_int cx)) (and (word_of_int cy) 0xffff)"

definition cellOf :: "real \<Rightarrow> vec2 \<Rightarrow> int \<times> int" where
  "cellOf cellSize p = (\<lfloor>vec_x p / cellSize\<rfloor>, \<lfloor>vec_y p / cellSize\<rfloor>)"

text \<open>
  The map \<open>bins\<close>: under each key the entities of that key, in the order of the entity
  array. Entities are named by their index in the array; a key without a bucket has the
  empty list.
\<close>

definition buildBins :: "real \<Rightarrow> entity list \<Rightarrow> 32 word \<Rightarrow> nat list" where
  "buildBins cellSize entities k =
     filter (\<lambda>i. (case cellOf cellSize (e_pos (entities ! i)) of (cx, cy) \<Rightarrow> key cx cy) = k)
       [0..<length entities]"

text \<open>The entities a bullet looks at, in the order of the three nested loops.\<close>

definition scanOrder :: "real \<Rightarrow> (32 word \<Rightarrow> nat list) \<Rightarrow> bullet \<Rightarrow> nat list" where
  "scanOrder cellSize bins b =
     (case cellOf cellSize (b_pos b) of
        (cx, cy) \<Rightarrow>
          concat (map (\<lambda>dx. concat (map (\<lambda>dy. bins (key (cx + dx) (cy + dy))) [- 1, 0, 1])) [- 1, 0, 1]))"

text \<open>The narrow-phase test of a bullet against an entity.\<close>

definition bulletHitsEntity :: "bullet \<Rightarrow> entity \<Rightarrow> bool" where
  "bulletHitsEntity b ent =
     (if e_kind ent = Triangle
      then (let insetSize = max 1 (e_size ent - 2 * ENTITY_COLLISION_INSET)
            in case triangleWorldVerts (e_pos ent) (e_angle ent) insetSize of
                 (v0, v1, v2) \<Rightarrow>
                   circleIntersectsTriangle \<lparr>vec_x = vec_x (b_pos b), vec_y = vec_y (b_pos b)\<rparr>
                     (b_radius b) v0 v1 v2)
      else (let dxp = vec_x (b_pos b) - vec_x (e_pos ent);
                dyp = vec_y (b_pos b) - vec_y (e_pos ent);
                radius = b_radius b + computeEntityCollisionRadius (e_size ent)
            in dxp * dxp + dyp * dyp \<le> radius * radius))"

text \<open>What a hit does to the entity and to the bullet.\<close>

definition hitEntity :: "bullet \<Rightarrow> entity \<Rightarrow> entity" where
  "hitEntity b ent =
     (if e_kind ent = Triangle
      then (let baseDamage = SHAPE_BASE_DAMAGE Triangle;
                actualDamage = computeBulletHitDamage (b_damage b) (b_hp b) baseDamage;
                dxh = vec_x (e_pos ent) - vec_x (b_pos b);
                dyh = vec_y (e_pos ent) - vec_y (b_pos b);
                len = (if hypot dxh dyh = 0 then 1 else hypot dxh dyh)
            in ent\<lparr>e_hp := max 0 (e_hp ent - actualDamage),
                   e_hitT := Some HIT_FLASH_DURATION,
                   e_kick := \<lparr>vec_x = vec_x (e_kick ent) + (dxh / len) * ENTITY_BOUNCE,
                              vec_y = vec_y (e_kick ent) + (dyh / len) * ENTITY_BOUNCE\<rparr>\<rparr>)
      else (let dxp = vec_x (b_pos b) - vec_x (e_pos ent);
                dyp = vec_y (b_pos b) - vec_y (e_pos ent);
                baseDamage = SHAPE_BASE_DAMAGE Square;
                actualDamage = computeBulletHitDamage (b_damage b) (b_hp b) baseDamage;
                len = (if hypot dxp dyp = 0 then 1 else hypot dxp dyp)
            in ent\<lparr>e_hp := max 0 (e_hp ent - actualDamage),
                   e_hitT := Some HIT_FLASH_DURATION,
                   e_kick := \<lparr>vec_x = vec_x (e_kick ent) - (dxp / len) * ENTITY_BOUNCE,
                              vec_y = vec_y (e_kick ent) - (dyp / len) * ENTITY_BOUNCE\<rparr>\<rparr>))"

definition hitBullet :: "bullet \<Rightarrow> entity \<Rightarrow> bullet" where
  "hitBullet b ent =
     (let baseDamage = (if e_kind ent = Triangle then SHAPE_BASE_DAMAGE Triangle else SHAPE_BASE_DAMAGE Square);
          b1 = b\<lparr>b_hp := b_hp b - baseDamage\<rparr>
      in if b_hp b1 \<le> 0 then b1\<lparr>b_life := 0\<rparr> else b1)"

text \<open>
  The state of the hit pass: the entities (mutated in place by the code), the set
  \<open>removed\<close> of ids, the two counters, and the entities handed to \<open>queueDeathEffect\<close> and
  \<open>onEntityKilled\<close>, in order.
\<close>

record hitState =
  hs_entities :: "entity list"
  hs_removed :: "nat set"
  hs_removedSquares :: nat
  hs_removedTriangles :: nat
  hs_killed :: "entity list"

definition firstHit :: "entity list \<Rightarrow> nat set \<Rightarrow> bullet \<Rightarrow> nat list \<Rightarrow> nat option" where
  "firstHit entities removed b order =
     find (\<lambda>i. e_id (entities ! i) \<notin> removed \<and> bulletHitsEntity b (entities ! i)) order"

text \<open>One iteration of \<open>bulletLoop\<close>.\<close>

definition bulletStep :: "real \<Rightarrow> (32 word \<Rightarrow> nat list) \<Rightarrow> bullet \<Rightarrow> hitState \<Rightarrow> bullet \<times> hitState" where
  "bulletStep cellSize bins b st =
     (if b_life b \<le> 0 then (b, st)
      else case firstHit (hs_entities st) (hs_removed st) b (scanOrder cellSize bins b) of
        None \<Rightarrow> (b, st)
      | Some i \<Rightarrow>
          (let ent = hs_entities st ! i;
               ent1 = hitEntity b ent;
               b1 = hitBullet b ent;
               st1 = st\<lparr>hs_entities := (hs_entities st)[i := ent1]\<rparr>
           in if e_hp ent1 \<le> 0
              then (b1, st1\<lparr>hs_killed := hs_killed st1 @ [ent1],
                            hs_removed := insert (e_id ent1) (hs_removed st1),
                            hs_removedSquares :=
                              (if e_kind ent1 = Triangle then hs_removedSquares st1
                               else hs_removedSquares st1 + 1),
                            hs_removedTriangles :=
                              (if e_kind ent1 = Triangle then hs_removedTriangles st1 + 1
                               else hs_removedTriangles st1)\<rparr>)
              else (b1, st1)))"

fun bulletLoop ::
  "real \<Rightarrow> (32 word \<Rightarrow> nat list) \<Rightarrow> bullet list \<Rightarrow> hitState \<Rightarrow> bullet list \<times> hitState" where
  "bulletLoop cellSize bins [] st = ([], st)"
| "bulletLoop cellSize bins (b # bs) st =
     (case bulletStep cellSize bins b st of
        (b1, st1) \<Rightarrow> (case bulletLoop cellSize bins bs st1 of (bs1, st2) \<Rightarrow> (b1 # bs1, st2)))"

text \<open>
  The hit pass of \<open>updateBullets\<close> on the bullets after their motion step: bins, then the
  loop over the bullets.
\<close>

definition hitPass :: "bullet list \<Rightarrow> entity list \<Rightarrow> bullet list \<times> hitState" where
  "hitPass bullets entities =
     (let cellSize = cellSizeFor bullets;
          bins = buildBins cellSize entities
      in bulletLoop cellSize bins bullets
           \<lparr>hs_entities = entities, hs_removed = {}, hs_removedSquares = 0,
            hs_removedTriangles = 0, hs_killed = []\<rparr>)"

text \<open>
  The two respawn loops. A spawn callback mutates the entity array and whatever its
  closure holds; the model gives it a state \<open>'s\<close> and lets it return the flag, the
  entities and the state. The third argument counts the removed entities of the kind
  that are still to be replaced.
\<close>

type_synonym 's spawner = "'s \<Rightarrow> entity list \<Rightarrow> bool \<times> entity list \<times> 's"

fun respawnLoop ::
  "'s spawner \<Rightarrow> nat \<Rightarrow> nat \<Rightarrow> nat \<Rightarrow> int \<Rightarrow> entity list \<Rightarrow> 's \<Rightarrow> nat \<times> int \<times> entity list \<times> 's" where
  "respawnLoop spawn maxSpawnsPerFrame 0 spawned spawnsThisFrame entities s =
     (spawned, spawnsThisFrame, entities, s)"
| "respawnLoop spawn maxSpawnsPerFrame (Suc removedLeft) spawned spawnsThisFrame entities s =
     (if spawned < maxSpawnsPerFrame
      then (case spawn s entities of
              (ok, entities1, s1) \<Rightarrow>
                if ok
                then respawnLoop spawn maxSpawnsPerFrame removedLeft (spawned + 1) (spawnsThisFrame + 1)
                       entities1 s1
                else (spawned, spawnsThisFrame, entities1, s1))
      else (spawned, spawnsThisFrame, entities, s))"

record 's BulletUpdateResult =
  r_bullets :: "bullet list"
  r_entities :: "entity list"
  r_spawnsThisFrame :: int
  r_killed :: "entity list"
  r_spawnState :: 's

definition visibleBullet :: "CameraInfo \<Rightarrow> bullet \<Rightarrow> bool" where
  "visibleBullet camera b =
     (let sx = vec_x (b_pos b) - cam_x camera;
          sy = vec_y (b_pos b) - cam_y camera
      in sx > - 40 \<and> sx < cam_width camera + 40 \<and> sy > - 40 \<and> sy < cam_height camera + 40)"

definition cullBullets :: "CameraInfo \<Rightarrow> bullet list \<Rightarrow> bullet list" where
  "cullBullets camera bullets = filter (\<lambda>b. \<not> b_life b \<le> 0 \<and> visibleBullet camera b) bullets"

definition updateBullets ::
  "bullet list \<Rightarrow> entity list \<Rightarrow> real \<Rightarrow> CameraInfo \<Rightarrow> int \<Rightarrow> nat \<Rightarrow> 's spawner \<Rightarrow> 's spawner \<Rightarrow> 's
     \<Rightarrow> 's BulletUpdateResult" where
  "updateBullets bullets entities dt camera spawnsThisFrame maxSpawnsPerFrame spawnSquare spawnTriangle s =
     (let moved = map (moveBullet dt) bullets
      in if entities \<noteq> [] \<and> moved \<noteq> []
         then (case hitPass moved entities of
                 (bullets1, st) \<Rightarrow>
                   if hs_removed st \<noteq> {}
                   then (let entities1 = filter (\<lambda>e. e_id e \<notin> hs_removed st) (hs_entities st)
                         in case respawnLoop spawnSquare maxSpawnsPerFrame (hs_removedSquares st) 0
                                   spawnsThisFrame entities1 s of
                              (spawned1, stf1, entities2, s1) \<Rightarrow>
                                (case respawnLoop spawnTriangle maxSpawnsPerFrame (hs_removedTriangles st)
                                        spawned1 stf1 entities2 s1 of
                                   (spawned2, stf2, entities3, s2) \<Rightarrow>
                                     \<lparr>r_bullets = cullBullets camera bullets1, r_entities = entities3,
                                      r_spawnsThisFrame = stf2, r_killed = hs_killed st,
                                      r_spawnState = s2\<rparr>))
                   else \<lparr>r_bullets = cullBullets camera bullets1, r_entities = hs_entities st,
                         r_spawnsThisFrame = spawnsThisFrame, r_killed = hs_killed st,
                         r_spawnState = s\<rparr>)
         else \<lparr>r_bullets = cullBullets camera moved, r_entities = entities,
               r_spawnsThisFrame = spawnsThisFrame, r_killed = [], r_spawnState = s\<rparr>)"

subsection \<open>Undefined operands (tank.ts, bulletSystem.ts, entities.ts)\<close>

text \<open>
  The only code that creates a bullet is \<open>spawnBullet\<close> of tank.ts. It pushes the object
  literal \<open>{id, pos, vel, radius, life}\<close>, which has no \<open>hp\<close> and no \<open>damage\<close> property,
  and no code assigns either before the hit pass: in \<open>updateBullets\<close> the expressions
  \<open>bullet.damage\<close> and \<open>bullet.hp\<close> read \<open>undefined\<close>. In the same way \<open>updateEntities\<close>
  of entities.ts calls its callback as \<open>onPlayerCollide(PLAYER_CONTACT_DPS * dt)\<close>, with
  one argument, so that the second parameter \<open>overlapDt\<close> of the callback of the component
  is \<open>undefined\<close>. To follow these operands through the arithmetic, a value is
  \<open>undefined\<close>, a number, or \<open>NaN\<close>.
\<close>

datatype jsval = Undefined | Num real | NaN

text \<open>\<open>ToNumber\<close>, which every arithmetic operator and comparison applies to its operands.\<close>

definition toNumber :: "jsval \<Rightarrow> jsval" where
  "toNumber v = (case v of Undefined \<Rightarrow> NaN | Num x \<Rightarrow> Num x | NaN \<Rightarrow> NaN)"

text \<open>\<open>a < b\<close> and \<open>a <= b\<close>: false when an operand is \<open>NaN\<close>.\<close>

definition js_lt :: "jsval \<Rightarrow> jsval \<Rightarrow> bool" where
  "js_lt a b = (case toNumber a of Num x \<Rightarrow> (case toNumber b of Num y \<Rightarrow> x < y | _ \<Rightarrow> False) | _ \<Rightarrow> False)"


text \<open>\<open>a - b\<close>, \<open>a * b\<close> and \<open>Math.max(a, b)\<close>: \<open>NaN\<close> when an operand is \<open>NaN\<close>.\<close>

definition js_sub :: "jsval \<Rightarrow> jsval \<Rightarrow> jsval" where
  "js_sub a b = (case toNumber a of Num x \<Rightarrow> (case toNumber b of Num y \<Rightarrow> Num (x - y) | _ \<Rightarrow> NaN) | _ \<Rightarrow> NaN)"

definition js_mul :: "jsval \<Rightarrow> jsval \<Rightarrow> jsval" where
  "js_mul a b = (case toNumber a of Num x \<Rightarrow> (case toNumber b of Num y \<Rightarrow> Num (x * y) | _ \<Rightarrow> NaN) | _ \<Rightarrow> NaN)"

definition js_max :: "jsval \<Rightarrow> jsval \<Rightarrow> jsval" where
  "js_max a b = (case toNumber a of Num x \<Rightarrow> (case toNumber b of Num y \<Rightarrow> Num (max x y) | _ \<Rightarrow> NaN) | _ \<Rightarrow> NaN)"

text \<open>
  \<open>a / d\<close> for a number \<open>d\<close> other than zero. The only divisor on this path is
  \<open>Math.max(1e-6, targetBaseDamage)\<close> with a numeric \<open>targetBaseDamage\<close>, which is at
  least \<open>1e-6\<close>.
\<close>

definition js_div :: "jsval \<Rightarrow> real \<Rightarrow> jsval" where
  "js_div a d = (case toNumber a of Num x \<Rightarrow> Num (x / d) | _ \<Rightarrow> NaN)"

text \<open>
  \<open>computeBulletHitDamage\<close> on operands that may be \<open>undefined\<close>; the third argument is
  one of the two numbers of \<open>SHAPE_BASE_DAMAGE\<close> at both call sites. The function returns
  its first argument as it is when the comparison is false.
\<close>

definition computeBulletHitDamage_js :: "jsval \<Rightarrow> jsval \<Rightarrow> real \<Rightarrow> jsval" where
  "computeBulletHitDamage_js bulletDmg bulletHp targetBaseDamage =
     (if js_lt bulletHp (Num targetBaseDamage)
      then js_mul bulletDmg (js_div bulletHp (max (1 / 1000000) targetBaseDamage))
      else bulletDmg)"

text \<open>
  The health of the entity after a hit, from \<open>bullet.damage\<close>, \<open>bullet.hp\<close>, the kind of
  the entity and its health before (bulletSystem.ts, lines 97 to 99 and 121 to 123).
\<close>

definition bulletHitHp :: "jsval \<Rightarrow> jsval \<Rightarrow> EntityKind \<Rightarrow> jsval \<Rightarrow> jsval" where
  "bulletHitHp bulletDmg bulletHp kind hp =
     (let baseDamage = SHAPE_BASE_DAMAGE kind;
          actualDamage = computeBulletHitDamage_js bulletDmg bulletHp baseDamage
      in js_max (Num 0) (js_sub hp actualDamage))"

text \<open>
  The health of the tank after the first statement of the contact callback, from the
  health before and the parameter \<open>overlapDt\<close>.
\<close>

definition contactTankHp :: "jsval \<Rightarrow> jsval \<Rightarrow> jsval" where
  "contactTankHp hp overlapDt = js_max (Num 0) (js_sub hp (js_mul (Num PLAYER_CONTACT_DPS) overlapDt))"


subsection \<open>Predicates of the claims\<close>

text \<open>The health invariant of an entity.\<close>

definition entityHpOk :: "entity \<Rightarrow> bool" where
  "entityHpOk ent = (0 \<le> e_hp ent \<and> e_hp ent \<le> e_maxHp ent)"

text \<open>A spawn callback that never fails and never spawns, for closed examples.\<close>

definition noSpawn :: "unit spawner" where
  "noSpawn s entities = (False, entities, s)"

text \<open>
  The overlap of the projections of two polygons on an axis, as \<open>satMTV\<close> computes it for
  each axis it tests.
\<close>

definition overlapOn :: "vec2 \<Rightarrow> vec2 list \<Rightarrow> vec2 list \<Rightarrow> js_error + real" where
  "overlapOn axis vertsA vertsB =
     (case projectPolygon axis vertsA of
        Inl err \<Rightarrow> Inl err
      | Inr pa \<Rightarrow>
          (case projectPolygon axis vertsB of
             Inl err \<Rightarrow> Inl err
           | Inr pb \<Rightarrow> Inr (min (snd pa) (snd pb) - max (fst pa) (fst pb))))"

subsection \<open>Example inputs\<close>

text \<open>
  A square and a triangle as the spawn function creates them, a bullet with damage 7 and
  a given penetration budget that sits on the entities, and a camera.
\<close>

definition exSquare :: entity where
  "exSquare = newEntity 1 \<lparr>vec_x = 100, vec_y = 100\<rparr> 5 0 0 0 Square"

definition exTriangle :: entity where
  "exTriangle = newEntity 2 \<lparr>vec_x = 100, vec_y = 100\<rparr> 5 0 0 0 Triangle"

definition exBullet :: "real \<Rightarrow> bullet" where
  "exBullet budget =
     \<lparr>b_id = 1, b_pos = \<lparr>vec_x = 100, vec_y = 100\<rparr>, b_vel = \<lparr>vec_x = 0, vec_y = 0\<rparr>,
      b_radius = 11, b_life = 2, b_hp = budget, b_damage = 7\<rparr>"

definition exCamera :: CameraInfo where
  "exCamera = \<lparr>cam_x = 0, cam_y = 0, cam_width = 800, cam_height = 600, devicePixelRatio = 1\<rparr>"

definition exFrame :: frameState where
  "exFrame = \<lparr>tankHp = 50, tankHitT = 0, tookDamage = False, killedByBody = {}, deathEffects = [],
              pendingXp = 0, pendingScore = 0, timeSinceDamage = 0\<rparr>"

text \<open>
  Three squares as the spawn function creates them: one at the origin, one two pixels
  below it and turned by \<open>arctan (3/4)\<close>, and one twenty pixels to the right.
\<close>

definition sqA :: entity where
  "sqA = newEntity 1 \<lparr>vec_x = 0, vec_y = 0\<rparr> 5 0 0 0 Square"

definition sqB :: entity where
  "sqB = newEntity 2 \<lparr>vec_x = 0, vec_y = 2\<rparr> 5 0 0 (arctan (3 / 4)) Square"

definition sqC :: entity where
  "sqC = newEntity 3 \<lparr>vec_x = 20, vec_y = 0\<rparr> 5 0 0 0 Square"

text \<open>
  A bullet of a given radius at (128, 100), one pixel from the right edge of its cell when
  the cell size is 43, and a square as the spawn function creates it at a given abscissa
  on the same line.
\<close>

definition exEdgeBullet :: "real \<Rightarrow> bullet" where
  "exEdgeBullet r =
     \<lparr>b_id = 1, b_pos = \<lparr>vec_x = 128, vec_y = 100\<rparr>, b_vel = \<lparr>vec_x = 0, vec_y = 0\<rparr>,
      b_radius = r, b_life = 2, b_hp = 2, b_damage = 7\<rparr>"

definition exSquareAt :: "real \<Rightarrow> entity" where
  "exSquareAt x = newEntity 1 \<lparr>vec_x = x, vec_y = 100\<rparr> 5 0 0 0 Square"

section \<open>Verification\<close>

subsection \<open>Skill points per level\<close>

lemma skillPointGain_step:
  "(if Suc l \<ge> 2 then min 27 (int (Suc l) - 1) else 0) + (if Suc l \<ge> 30 then 1 else 0)
      + (if Suc l \<ge> 33 then (int (Suc l) - 33) div 3 + 1 else 0)
   = (if l \<ge> 2 then min 27 (int l - 1) else 0) + (if l \<ge> 30 then 1 else 0)
      + (if l \<ge> 33 then (int l - 33) div 3 + 1 else (0::int))
      + (if 2 \<le> Suc l then skillPointGain (Suc l) else 0)"
  unfolding skillPointGain_def
  by (simp add: mod_eq_0_iff_dvd; presburger)

lemma skillPointGain_sum:
  "sum_list (map skillPointGain [2..<Suc l]) =
     (if l \<ge> 2 then min 27 (int l - 1) else 0) + (if l \<ge> 30 then 1 else 0)
      + (if l \<ge> 33 then (int l - 33) div 3 + 1 else 0)"
proof (induction l)
  case 0
  then show ?case by simp
next
  case (Suc l)
  have "sum_list (map skillPointGain [2..<Suc (Suc l)]) =
        sum_list (map skillPointGain [2..<Suc l]) + (if 2 \<le> Suc l then skillPointGain (Suc l) else 0)"
    by simp
  then show ?case
    unfolding Suc.IH using skillPointGain_step [of l] by simp
qed

lemma clamped_level_closed_form:
  fixes c :: int
  assumes c: "1 \<le> c" "c \<le> 45"
  shows "min 33 (max 0 (min 27 (c - 1)) + (if c \<ge> 30 then 1 else 0) + min 5 (max 0 ((c - 33) div 3 + 1)))
       = min 33 ((if nat c \<ge> 2 then min 27 (int (nat c) - 1) else 0) + (if nat c \<ge> 30 then 1 else 0)
          + (if nat c \<ge> 33 then (int (nat c) - 33) div 3 + 1 else 0))"
proof -
  have n: "int (nat c) = c" "2 \<le> nat c \<longleftrightarrow> 2 \<le> c" "30 \<le> nat c \<longleftrightarrow> 30 \<le> c"
    "33 \<le> nat c \<longleftrightarrow> 33 \<le> c"
    using c by auto
  have d: "33 \<le> c \<Longrightarrow> (c - 33) div 3 + 1 \<le> 5 \<and> 0 \<le> (c - 33) div 3 + 1"
    "\<not> 33 \<le> c \<Longrightarrow> (c - 33) div 3 + 1 \<le> 0"
    using c by presburger+
  show ?thesis
    unfolding n using c d by (cases "33 \<le> c"; cases "2 \<le> c"; simp add: min_def max_def)
qed

text \<open>
  Claim C2. \<open>totalSkillPointsForLevel\<close> is 0 at level 1, 9 at level 10, 28 at level 30
  and 33 at level 45, and at every level (rounded down and clamped to 1..45, as the code
  does) it equals the stepped function of the specification: one point per level up to
  27 points, one bonus point from level 30 on, one more point every three levels from
  level 33 on, capped at 33.
\<close>

theorem totalSkillPointsForLevel_stepped:
  "totalSkillPointsForLevel 1 = 0 \<and> totalSkillPointsForLevel 10 = 9 \<and>
   totalSkillPointsForLevel 30 = 28 \<and> totalSkillPointsForLevel 45 = 33 \<and>
   totalSkillPointsForLevel level = steppedSkillPoints (nat (max 1 (min 45 \<lfloor>level\<rfloor>)))"
proof -
  define c where "c = max 1 (min 45 \<lfloor>level\<rfloor>)"
  have c: "1 \<le> c" "c \<le> 45" by (simp_all add: c_def)
  have L: "totalSkillPointsForLevel level =
      min 33 (max 0 (min 27 (c - 1)) + (if c \<ge> 30 then 1 else 0) + min 5 (max 0 ((c - 33) div 3 + 1)))"
    unfolding totalSkillPointsForLevel_def MAX_LEVEL_def MAX_SKILL_POINTS_def Let_def c_def
    by (rule refl)
  have R: "steppedSkillPoints (nat c) =
      min 33 ((if nat c \<ge> 2 then min 27 (int (nat c) - 1) else 0) + (if nat c \<ge> 30 then 1 else 0)
          + (if nat c \<ge> 33 then (int (nat c) - 33) div 3 + 1 else 0))"
    unfolding steppedSkillPoints_def skillPointGain_sum by (rule refl)
  have "totalSkillPointsForLevel level = steppedSkillPoints (nat c)"
    unfolding L R by (rule clamped_level_closed_form [OF c])
  moreover have "totalSkillPointsForLevel 1 = 0" "totalSkillPointsForLevel 10 = 9"
      "totalSkillPointsForLevel 30 = 28" "totalSkillPointsForLevel 45 = 33"
    by (simp_all add: totalSkillPointsForLevel_def MAX_LEVEL_def MAX_SKILL_POINTS_def)
  ultimately show ?thesis unfolding c_def by (intro conjI)
qed

theorem totalSkillPointsForLevel_stepped_witness:
  "totalSkillPointsForLevel 33 = steppedSkillPoints 33 \<and> steppedSkillPoints 33 = 29"
proof -
  have "totalSkillPointsForLevel 33 = steppedSkillPoints (nat (max 1 (min 45 \<lfloor>33::real\<rfloor>)))"
    using totalSkillPointsForLevel_stepped [of 33] by (elim conjE)
  moreover have "totalSkillPointsForLevel 33 = 29"
    by (simp add: totalSkillPointsForLevel_def MAX_LEVEL_def MAX_SKILL_POINTS_def)
  ultimately show ?thesis by simp
qed

subsection \<open>Bullet hit damage\<close>

text \<open>
  Claim C3, as stated, fails below the divisor's floor: with a target resistance of
  1/2000000 and a budget of 1/4000000 the code scales the damage by a quarter, not by the
  ratio of budget to resistance, which is a half.
\<close>

theorem computeBulletHitDamage_ratio_counterexample:
  "(0::real) \<le> 1 \<and> (0::real) \<le> 1 / 4000000 \<and> (0::real) \<le> 1 / 2000000 \<and>
   (1 / 4000000 :: real) < 1 / 2000000 \<and>
   computeBulletHitDamage 1 (1 / 4000000) (1 / 2000000) = 1 / 4 \<and>
   computeBulletHitDamage 1 (1 / 4000000) (1 / 2000000) \<noteq> 1 * ((1 / 4000000) / (1 / 2000000))"
  by (simp add: computeBulletHitDamage_def)

text \<open>
  Claim C3, amended. The full damage is returned whenever the budget is at least the
  target's resistance, equality included. Below it the damage is scaled by budget /
  resistance when the resistance is at least 1/1000000 (as both shape resistances, 2 and
  4, are), and by budget / (1/1000000) when the resistance is smaller.
\<close>

theorem computeBulletHitDamage_cases:
  "(bulletHp \<ge> targetBaseDamage \<longrightarrow>
      computeBulletHitDamage dmg bulletHp targetBaseDamage = dmg) \<and>
   (bulletHp < targetBaseDamage \<and> 1 / 1000000 \<le> targetBaseDamage \<longrightarrow>
      computeBulletHitDamage dmg bulletHp targetBaseDamage = dmg * (bulletHp / targetBaseDamage)) \<and>
   (bulletHp < targetBaseDamage \<and> targetBaseDamage < 1 / 1000000 \<longrightarrow>
      computeBulletHitDamage dmg bulletHp targetBaseDamage = dmg * (bulletHp / (1 / 1000000)))"
  by (simp add: computeBulletHitDamage_def max_def)

theorem computeBulletHitDamage_cases_witness:
  "computeBulletHitDamage 7 2 2 = 7 \<and> computeBulletHitDamage 7 2 4 = 7 * (2 / 4) \<and>
   computeBulletHitDamage 1 (1 / 4000000) (1 / 2000000) = 1 * ((1 / 4000000) / (1 / 1000000))"
  using computeBulletHitDamage_cases [where bulletHp = 2 and targetBaseDamage = 2 and dmg = 7]
    computeBulletHitDamage_cases [where bulletHp = 2 and targetBaseDamage = 4 and dmg = 7]
    computeBulletHitDamage_cases
      [where bulletHp = "1 / 4000000" and targetBaseDamage = "1 / 2000000" and dmg = 1]
  by simp

subsection \<open>Tank motion\<close>

lemma hypot_nonneg: "0 \<le> hypot a b"
  by (simp add: hypot_def)

lemma hypot_scale: "hypot (a * k) (b * k) = \<bar>k\<bar> * hypot a b"
proof -
  have "a * k * (a * k) + b * k * (b * k) = k\<^sup>2 * (a * a + b * b)"
    by (simp add: power2_eq_square algebra_simps)
  then show ?thesis
    by (simp add: hypot_def real_sqrt_mult)
qed

lemma hypot_zero_left: "hypot 0 b = \<bar>b\<bar>"
  by (simp add: hypot_def)

lemma hypot_zero_right: "hypot a 0 = \<bar>a\<bar>"
  by (simp add: hypot_def)

lemma hypot_ge_left: "\<bar>a\<bar> \<le> hypot a b"
  unfolding hypot_def by (rule real_le_rsqrt) (simp add: power2_eq_square)

lemma hypot_ge_right: "\<bar>b\<bar> \<le> hypot a b"
  unfolding hypot_def by (rule real_le_rsqrt) (simp add: power2_eq_square)

lemma tankVelocity_speed: "hypot (vec_x (tankVelocity dt ix iy vel)) (vec_y (tankVelocity dt ix iy vel)) \<le> TANK_SPEED"
proof -
  have cap: "hypot (a * (TANK_SPEED / hypot a b)) (b * (TANK_SPEED / hypot a b)) \<le> TANK_SPEED"
    if "hypot a b > TANK_SPEED" for a b
  proof -
    have pos: "hypot a b > 0" using that by (simp add: TANK_SPEED_def)
    have "hypot (a * (TANK_SPEED / hypot a b)) (b * (TANK_SPEED / hypot a b))
        = \<bar>TANK_SPEED / hypot a b\<bar> * hypot a b"
      by (rule hypot_scale)
    also have "\<dots> = TANK_SPEED"
      using pos by (simp add: TANK_SPEED_def)
    finally show ?thesis by simp
  qed
  define a where "a = (vec_x vel + (if ix \<noteq> 0 \<or> iy \<noteq> 0 then ix / (if hypot ix iy = 0 then 1 else hypot ix iy) else ix) * TANK_ACCEL * dt) * max 0 (1 - TANK_FRICTION * dt)"
  define b where "b = (vec_y vel + (if ix \<noteq> 0 \<or> iy \<noteq> 0 then iy / (if hypot ix iy = 0 then 1 else hypot ix iy) else iy) * TANK_ACCEL * dt) * max 0 (1 - TANK_FRICTION * dt)"
  have eq: "tankVelocity dt ix iy vel =
      (if hypot a b > TANK_SPEED
       then \<lparr>vec_x = a * (TANK_SPEED / hypot a b), vec_y = b * (TANK_SPEED / hypot a b)\<rparr>
       else \<lparr>vec_x = a, vec_y = b\<rparr>)"
    unfolding tankVelocity_def Let_def a_def b_def by (rule refl)
  show ?thesis
  proof (cases "hypot a b > TANK_SPEED")
    case True
    then show ?thesis unfolding eq using cap [OF True] by (simp only: if_True vec2.simps)
  next
    case False
    then show ?thesis unfolding eq by simp
  qed
qed

text \<open>
  Claim C10. After \<open>integrateTank\<close>, whatever the input intent, the time step and the
  initial velocity, the speed is at most \<open>TANK_SPEED\<close> = 280, the position lies in the
  map rectangle expanded by the margin (the rectangle being non-empty), and on each axis
  the velocity is 0 where clamping altered the coordinate and the capped velocity where
  it did not.
\<close>

theorem integrateTank_bounds:
  assumes "- margin \<le> mapW + margin" and "- margin \<le> mapH + margin"
  shows "(case integrateTank dt inputX inputY vel pos mapW mapH margin of
           (vel1, pos1) \<Rightarrow>
             hypot (vec_x vel1) (vec_y vel1) \<le> TANK_SPEED \<and>
             - margin \<le> vec_x pos1 \<and> vec_x pos1 \<le> mapW + margin \<and>
             - margin \<le> vec_y pos1 \<and> vec_y pos1 \<le> mapH + margin \<and>
             (vec_x pos1 \<noteq> vec_x pos + vec_x (tankVelocity dt inputX inputY vel) * dt \<longrightarrow> vec_x vel1 = 0) \<and>
             (vec_y pos1 \<noteq> vec_y pos + vec_y (tankVelocity dt inputX inputY vel) * dt \<longrightarrow> vec_y vel1 = 0) \<and>
             (vec_x pos1 = vec_x pos + vec_x (tankVelocity dt inputX inputY vel) * dt \<longrightarrow>
                vec_x vel1 = vec_x (tankVelocity dt inputX inputY vel)) \<and>
             (vec_y pos1 = vec_y pos + vec_y (tankVelocity dt inputX inputY vel) * dt \<longrightarrow>
                vec_y vel1 = vec_y (tankVelocity dt inputX inputY vel)))"
proof -
  define v where "v = tankVelocity dt inputX inputY vel"
  have sp: "hypot (vec_x v) (vec_y v) \<le> TANK_SPEED"
    unfolding v_def by (rule tankVelocity_speed)
  have s0: "hypot 0 (vec_y v) \<le> TANK_SPEED" "hypot (vec_x v) 0 \<le> TANK_SPEED" "hypot 0 0 \<le> TANK_SPEED"
    using sp hypot_ge_left [of "vec_x v" "vec_y v"] hypot_ge_right [of "vec_y v" "vec_x v"]
    by (simp_all add: hypot_zero_left hypot_zero_right TANK_SPEED_def)
  show ?thesis
    unfolding integrateTank_def Let_def v_def [symmetric] using assms sp s0
    by (simp add: max_def min_def)
qed

theorem integrateTank_bounds_witness:
  "- (100::real) \<le> 1500 + 100 \<and>
   integrateTank (1 / 20) 1 0 \<lparr>vec_x = 0, vec_y = 0\<rparr> \<lparr>vec_x = 1599, vec_y = 0\<rparr> 1500 1500 100
     = (\<lparr>vec_x = 0, vec_y = 0\<rparr>, \<lparr>vec_x = 1600, vec_y = 0\<rparr>) \<and>
   tankVelocity (1 / 20) 1 0 \<lparr>vec_x = 0, vec_y = 0\<rparr> = \<lparr>vec_x = 27, vec_y = 0\<rparr> \<and>
   hypot 0 0 \<le> TANK_SPEED"
proof -
  have v: "tankVelocity (1 / 20) 1 0 \<lparr>vec_x = 0, vec_y = 0\<rparr> = \<lparr>vec_x = 27, vec_y = 0\<rparr>"
    by (simp add: tankVelocity_def hypot_zero_right TANK_ACCEL_def TANK_FRICTION_def TANK_SPEED_def)
  have i: "integrateTank (1 / 20) 1 0 \<lparr>vec_x = 0, vec_y = 0\<rparr> \<lparr>vec_x = 1599, vec_y = 0\<rparr> 1500 1500 100
     = (\<lparr>vec_x = 0, vec_y = 0\<rparr>, \<lparr>vec_x = 1600, vec_y = 0\<rparr>)"
    by (simp add: integrateTank_def v)
  show ?thesis
    using integrateTank_bounds [where margin = 100 and mapW = 1500 and mapH = 1500 and dt = "1 / 20"
        and inputX = 1 and inputY = 0 and vel = "\<lparr>vec_x = 0, vec_y = 0\<rparr>"
        and pos = "\<lparr>vec_x = 1599, vec_y = 0\<rparr>"]
    by (simp add: i v)
qed

subsection \<open>Stat allocation\<close>

lemma sumStatPoints_setStat:
  "sumStatPoints (setStat k (getStat k p + 1) p) = sumStatPoints p + 1"
  by (cases k) (simp_all add: sumStatPoints_def statValues_def)

lemma maxedCount_setStat:
  "length (filter (\<lambda>v. v \<ge> MAX_STAT_POINTS) (statValues (setStat k (getStat k p + 1) p)))
     = length (filter (\<lambda>v. v \<ge> MAX_STAT_POINTS) (statValues p))
       + (if getStat k p = MAX_STAT_POINTS - 1 then 1 else 0)"
  by (cases k) (auto simp add: statValues_def MAX_STAT_POINTS_def)

lemma onKeyDown_cases:
  "onKeyDown e st = st \<or>
   (\<exists>k. getStat k (playerStats st) < MAX_STAT_POINTS \<and>
        \<not> (getStat k (playerStats st) = MAX_STAT_POINTS - 1 \<and>
           length (filter (\<lambda>v. v \<ge> MAX_STAT_POINTS) (statValues (playerStats st))) \<ge> 4) \<and>
        availableSkillPoints (playerLevel st) (playerStats st) > 0 \<and>
        onKeyDown e st = st\<lparr>playerStats := setStat k (getStat k (playerStats st) + 1) (playerStats st)\<rparr>)"
  unfolding onKeyDown_def Let_def
  by (auto split: option.splits simp: not_le)

lemma onKeyDown_inv:
  assumes "sumStatPoints (playerStats st) \<le> totalSkillPointsForLevel (playerLevel st)"
    and "length (filter (\<lambda>v. v \<ge> MAX_STAT_POINTS) (statValues (playerStats st))) \<le> 4"
  shows "sumStatPoints (playerStats (onKeyDown e st)) \<le> totalSkillPointsForLevel (playerLevel (onKeyDown e st))
     \<and> length (filter (\<lambda>v. v \<ge> MAX_STAT_POINTS) (statValues (playerStats (onKeyDown e st)))) \<le> 4
     \<and> playerLevel (onKeyDown e st) = playerLevel st"
  using onKeyDown_cases [of e st]
proof
  assume "onKeyDown e st = st"
  then show ?thesis using assms by simp
next
  assume "\<exists>k. getStat k (playerStats st) < MAX_STAT_POINTS \<and>
        \<not> (getStat k (playerStats st) = MAX_STAT_POINTS - 1 \<and>
           length (filter (\<lambda>v. v \<ge> MAX_STAT_POINTS) (statValues (playerStats st))) \<ge> 4) \<and>
        availableSkillPoints (playerLevel st) (playerStats st) > 0 \<and>
        onKeyDown e st = st\<lparr>playerStats := setStat k (getStat k (playerStats st) + 1) (playerStats st)\<rparr>"
  then obtain k where k: "\<not> (getStat k (playerStats st) = MAX_STAT_POINTS - 1 \<and>
           length (filter (\<lambda>v. v \<ge> MAX_STAT_POINTS) (statValues (playerStats st))) \<ge> 4)"
     "availableSkillPoints (playerLevel st) (playerStats st) > 0"
     "onKeyDown e st = st\<lparr>playerStats := setStat k (getStat k (playerStats st) + 1) (playerStats st)\<rparr>"
    by blast
  from k(2) have "sumStatPoints (playerStats st) + 1 \<le> totalSkillPointsForLevel (playerLevel st)"
    by (simp add: availableSkillPoints_def)
  then show ?thesis
    using k(1) assms(2) unfolding k(3) by (auto simp add: sumStatPoints_setStat maxedCount_setStat)
qed

text \<open>
  Claim C5. The allocation handler keeps, along every sequence of key events, the sum of
  the eight slots at most \<open>totalSkillPointsForLevel level\<close> and the number of slots at the
  maximum 7 at most 4. A request that raises a slot from 6 to 7 while four slots are at
  the maximum is a no-op whatever the budget, and so is every request made when the
  budget is used up.
\<close>

theorem allocation_invariant:
  assumes "sumStatPoints (playerStats st) \<le> totalSkillPointsForLevel (playerLevel st)"
    and "length (filter (\<lambda>v. v \<ge> MAX_STAT_POINTS) (statValues (playerStats st))) \<le> 4"
  shows "sumStatPoints (playerStats (foldl (\<lambda>s e. onKeyDown e s) st events))
           \<le> totalSkillPointsForLevel (playerLevel (foldl (\<lambda>s e. onKeyDown e s) st events)) \<and>
         length (filter (\<lambda>v. v \<ge> MAX_STAT_POINTS)
                   (statValues (playerStats (foldl (\<lambda>s e. onKeyDown e s) st events)))) \<le> 4 \<and>
         (parseInt10 (ev_key e) = Some idx \<and> 1 \<le> idx \<and> idx \<le> 8 \<and>
          getStat (STAT_ORDER ! nat (idx - 1)) (playerStats st2) = MAX_STAT_POINTS - 1 \<and>
          length (filter (\<lambda>v. v \<ge> MAX_STAT_POINTS) (statValues (playerStats st2))) \<ge> 4
            \<longrightarrow> onKeyDown e st2 = st2) \<and>
         (totalSkillPointsForLevel (playerLevel st2) \<le> sumStatPoints (playerStats st2)
            \<longrightarrow> onKeyDown e st2 = st2)"
proof -
  have fold: "sumStatPoints (playerStats (foldl (\<lambda>s e. onKeyDown e s) s0 evs))
           \<le> totalSkillPointsForLevel (playerLevel (foldl (\<lambda>s e. onKeyDown e s) s0 evs)) \<and>
         length (filter (\<lambda>v. v \<ge> MAX_STAT_POINTS)
                   (statValues (playerStats (foldl (\<lambda>s e. onKeyDown e s) s0 evs)))) \<le> 4"
    if "sumStatPoints (playerStats s0) \<le> totalSkillPointsForLevel (playerLevel s0)"
      and "length (filter (\<lambda>v. v \<ge> MAX_STAT_POINTS) (statValues (playerStats s0))) \<le> 4"
    for s0 evs
    using that
  proof (induction evs arbitrary: s0)
    case Nil
    then show ?case by simp
  next
    case (Cons ev evs)
    have step: "sumStatPoints (playerStats (onKeyDown ev s0))
          \<le> totalSkillPointsForLevel (playerLevel (onKeyDown ev s0))"
      "length (filter (\<lambda>v. v \<ge> MAX_STAT_POINTS) (statValues (playerStats (onKeyDown ev s0)))) \<le> 4"
      using onKeyDown_inv [OF Cons.prems, of ev] by blast+
    show ?case
      using Cons.IH [OF step] by simp
  qed
  have r1: "onKeyDown e st2 = st2"
    if "parseInt10 (ev_key e) = Some idx" "1 \<le> idx" "idx \<le> 8"
      "getStat (STAT_ORDER ! nat (idx - 1)) (playerStats st2) = MAX_STAT_POINTS - 1"
      "length (filter (\<lambda>v. v \<ge> MAX_STAT_POINTS) (statValues (playerStats st2))) \<ge> 4"
    using that unfolding onKeyDown_def Let_def by simp
  have r2: "onKeyDown e st2 = st2"
    if "totalSkillPointsForLevel (playerLevel st2) \<le> sumStatPoints (playerStats st2)"
    using that unfolding onKeyDown_def Let_def
    by (simp add: availableSkillPoints_def split: option.splits)
  show ?thesis using fold [OF assms] r1 r2 by blast
qed

lemma parseInt10_digit:
  "parseInt10 (codeUnits ''1'') = Some 1" "parseInt10 (codeUnits ''2'') = Some 2"
  "parseInt10 (codeUnits ''5'') = Some 5"
  by (simp_all add: parseInt10_def codeUnits_def isWhiteSpace_def isDigit_def digitValue_def)

theorem allocation_invariant_witness:
  "sumStatPoints INITIAL_STATS \<le> totalSkillPointsForLevel 10 \<and>
   length (filter (\<lambda>v. v \<ge> MAX_STAT_POINTS) (statValues INITIAL_STATS)) \<le> 4 \<and>
   foldl (\<lambda>s e. onKeyDown e s) \<lparr>playerStats = INITIAL_STATS, playerLevel = 10\<rparr>
     [\<lparr>ev_repeat = False, ev_key = codeUnits ''1''\<rparr>, \<lparr>ev_repeat = True, ev_key = codeUnits ''1''\<rparr>,
      \<lparr>ev_repeat = False, ev_key = codeUnits ''2''\<rparr>, \<lparr>ev_repeat = False, ev_key = codeUnits ''1''\<rparr>]
     = \<lparr>playerStats = INITIAL_STATS\<lparr>healthRegen := 2, maxHealth := 1\<rparr>, playerLevel = 10\<rparr> \<and>
   sumStatPoints (INITIAL_STATS\<lparr>healthRegen := 2, maxHealth := 1\<rparr>) \<le> totalSkillPointsForLevel 10 \<and>
   parseInt10 (codeUnits ''5'') = Some 5 \<and>
   getStat (STAT_ORDER ! nat (5 - 1))
     \<lparr>maxHealth = 7, healthRegen = 7, bodyDamage = 7, bulletSpeed = 7, bulletPenetration = 6,
      bulletDamage = 0, reload = 0, movementSpeed = 0\<rparr> = MAX_STAT_POINTS - 1 \<and>
   totalSkillPointsForLevel 45
     \<le> sumStatPoints \<lparr>maxHealth = 7, healthRegen = 7, bodyDamage = 7, bulletSpeed = 7,
           bulletPenetration = 6, bulletDamage = 0, reload = 0, movementSpeed = 0\<rparr> \<and>
   onKeyDown \<lparr>ev_repeat = False, ev_key = codeUnits ''5''\<rparr>
     \<lparr>playerStats = \<lparr>maxHealth = 7, healthRegen = 7, bodyDamage = 7, bulletSpeed = 7,
        bulletPenetration = 6, bulletDamage = 0, reload = 0, movementSpeed = 0\<rparr>, playerLevel = 45\<rparr>
     = \<lparr>playerStats = \<lparr>maxHealth = 7, healthRegen = 7, bodyDamage = 7, bulletSpeed = 7,
        bulletPenetration = 6, bulletDamage = 0, reload = 0, movementSpeed = 0\<rparr>, playerLevel = 45\<rparr>"
proof -
  have t: "totalSkillPointsForLevel 10 = 9" "totalSkillPointsForLevel 45 = 33"
    by (simp_all add: totalSkillPointsForLevel_def MAX_LEVEL_def MAX_SKILL_POINTS_def)
  have run: "foldl (\<lambda>s e. onKeyDown e s) \<lparr>playerStats = INITIAL_STATS, playerLevel = 10\<rparr>
     [\<lparr>ev_repeat = False, ev_key = codeUnits ''1''\<rparr>, \<lparr>ev_repeat = True, ev_key = codeUnits ''1''\<rparr>,
      \<lparr>ev_repeat = False, ev_key = codeUnits ''2''\<rparr>, \<lparr>ev_repeat = False, ev_key = codeUnits ''1''\<rparr>]
     = \<lparr>playerStats = INITIAL_STATS\<lparr>healthRegen := 2, maxHealth := 1\<rparr>, playerLevel = 10\<rparr>"
    by (simp add: onKeyDown_def parseInt10_digit STAT_ORDER_def INITIAL_STATS_def MAX_STAT_POINTS_def
        statValues_def availableSkillPoints_def sumStatPoints_def t)
  show ?thesis
    using allocation_invariant
      [where st = "\<lparr>playerStats = INITIAL_STATS, playerLevel = 10\<rparr>"
         and events = "[\<lparr>ev_repeat = False, ev_key = codeUnits ''1''\<rparr>, \<lparr>ev_repeat = True, ev_key = codeUnits ''1''\<rparr>,
            \<lparr>ev_repeat = False, ev_key = codeUnits ''2''\<rparr>, \<lparr>ev_repeat = False, ev_key = codeUnits ''1''\<rparr>]"
         and e = "\<lparr>ev_repeat = False, ev_key = codeUnits ''5''\<rparr>" and idx = 5
         and ?st2.0 = "\<lparr>playerStats = \<lparr>maxHealth = 7, healthRegen = 7, bodyDamage = 7, bulletSpeed = 7,
            bulletPenetration = 6, bulletDamage = 0, reload = 0, movementSpeed = 0\<rparr>, playerLevel = 45\<rparr>"]
    unfolding run
    by (simp add: parseInt10_digit STAT_ORDER_def INITIAL_STATS_def MAX_STAT_POINTS_def
        statValues_def sumStatPoints_def t)
qed

subsection \<open>Random spawning\<close>

lemma newEntity_fields:
  "e_kind (newEntity ident p speed dir angVel angle kind) = kind"
  "e_id (newEntity ident p speed dir angVel angle kind) = ident"
  "e_pos (newEntity ident p speed dir angVel angle kind) = p"
  by (simp_all add: newEntity_def)

lemma spawnAttempts_Suc_inside:
  assumes "(rnd n * mapW - vec_x pp) * (rnd n * mapW - vec_x pp)
         + (rnd (n + 1) * mapH - vec_y pp) * (rnd (n + 1) * mapH - vec_y pp) < sr * sr"
  shows "spawnAttempts (Suc k) rnd n es ident pp mapW mapH sr kind
       = spawnAttempts k rnd (n + 2) es ident pp mapW mapH sr kind"
  using assms by (simp add: Let_def)

lemma spawnAttempts_Suc_cap:
  assumes "\<not> (rnd n * mapW - vec_x pp) * (rnd n * mapW - vec_x pp)
         + (rnd (n + 1) * mapH - vec_y pp) * (rnd (n + 1) * mapH - vec_y pp) < sr * sr"
    and "(kind = Square \<and> length (filter (\<lambda>e. e_kind e = Square) es) \<ge> SQUARE_MAX_COUNT) \<or>
         (kind = Triangle \<and> length (filter (\<lambda>e. e_kind e = Triangle) es) \<ge> TRIANGLE_MAX_COUNT)"
  shows "spawnAttempts (Suc k) rnd n es ident pp mapW mapH sr kind = (False, es, ident, n + 2)"
  using assms by (auto simp add: Let_def)

lemma spawnAttempts_Suc_spawn:
  assumes "\<not> (rnd n * mapW - vec_x pp) * (rnd n * mapW - vec_x pp)
         + (rnd (n + 1) * mapH - vec_y pp) * (rnd (n + 1) * mapH - vec_y pp) < sr * sr"
    and "\<not> ((kind = Square \<and> length (filter (\<lambda>e. e_kind e = Square) es) \<ge> SQUARE_MAX_COUNT) \<or>
         (kind = Triangle \<and> length (filter (\<lambda>e. e_kind e = Triangle) es) \<ge> TRIANGLE_MAX_COUNT))"
  shows "spawnAttempts (Suc k) rnd n es ident pp mapW mapH sr kind =
     (True,
      es @ [newEntity ident \<lparr>vec_x = rnd n * mapW, vec_y = rnd (n + 1) * mapH\<rparr>
              (ENTITY_SPEED_MIN + rnd (n + 2) * (ENTITY_SPEED_MAX - ENTITY_SPEED_MIN))
              (rnd (n + 3) * pi * 2)
              (ENTITY_ANG_MIN + rnd (n + 4) * (ENTITY_ANG_MAX - ENTITY_ANG_MIN))
              (rnd (n + 5) * pi * 2) kind],
      Suc ident, n + 6)"
  using assms by (auto simp add: Let_def)


lemma spawnAttempts_result:
  "spawnAttempts k rnd n es ident pp mapW mapH sr kind = (ok, es1, ident1, n1) \<Longrightarrow>
     (\<not> ok \<longrightarrow> es1 = es \<and> ident1 = ident \<and> (\<exists>j\<le>k. n1 = n + 2 * j)) \<and>
     (ok \<longrightarrow> (\<exists>e. es1 = es @ [e] \<and> e_kind e = kind \<and> e_id e = ident) \<and> ident1 = Suc ident \<and>
             (\<exists>j. 1 \<le> j \<and> j \<le> k \<and> n1 = n + 2 * j + 4))"
proof (induction k arbitrary: n)
  case 0
  then show ?case by auto
next
  case (Suc k)
  let ?inside = "(rnd n * mapW - vec_x pp) * (rnd n * mapW - vec_x pp)
         + (rnd (n + 1) * mapH - vec_y pp) * (rnd (n + 1) * mapH - vec_y pp) < sr * sr"
  let ?cap = "(kind = Square \<and> length (filter (\<lambda>e. e_kind e = Square) es) \<ge> SQUARE_MAX_COUNT) \<or>
         (kind = Triangle \<and> length (filter (\<lambda>e. e_kind e = Triangle) es) \<ge> TRIANGLE_MAX_COUNT)"
  consider (inside) ?inside | (cap) "\<not> ?inside" ?cap | (spawn) "\<not> ?inside" "\<not> ?cap"
    by blast
  then show ?case
  proof cases
    case inside
    have rec: "spawnAttempts k rnd (n + 2) es ident pp mapW mapH sr kind = (ok, es1, ident1, n1)"
      using Suc.prems unfolding spawnAttempts_Suc_inside [OF inside] .
    note ih = Suc.IH [OF rec]
    have A: "es1 = es \<and> ident1 = ident \<and> (\<exists>j\<le>Suc k. n1 = n + 2 * j)" if "\<not> ok"
    proof -
      from that ih obtain j where j: "es1 = es" "ident1 = ident" "j \<le> k" "n1 = n + 2 + 2 * j" by blast
      show ?thesis
        using j by (intro conjI exI [of _ "Suc j"]) simp_all
    qed
    have B: "(\<exists>e. es1 = es @ [e] \<and> e_kind e = kind \<and> e_id e = ident) \<and> ident1 = Suc ident \<and>
             (\<exists>j. 1 \<le> j \<and> j \<le> Suc k \<and> n1 = n + 2 * j + 4)" if ok
    proof -
      from that ih obtain e j where j: "es1 = es @ [e]" "e_kind e = kind" "e_id e = ident"
        "ident1 = Suc ident" "1 \<le> j" "j \<le> k" "n1 = n + 2 + 2 * j + 4" by blast
      have "\<exists>j. 1 \<le> j \<and> j \<le> Suc k \<and> n1 = n + 2 * j + 4"
        using j by (intro exI [of _ "Suc j"]) simp
      then show ?thesis using j by blast
    qed
    show ?thesis using A B by blast
  next
    case cap
    have "(ok, es1, ident1, n1) = (False, es, ident, n + 2)"
      using Suc.prems unfolding spawnAttempts_Suc_cap [OF cap] by simp
    then have r: "\<not> ok" "es1 = es" "ident1 = ident" "n1 = n + 2 * 1" by simp_all
    show ?thesis using r(1-3) by (auto intro!: exI [of _ 1] simp: r(4))
  next
    case spawn
    have "(ok, es1, ident1, n1) = (True,
      es @ [newEntity ident \<lparr>vec_x = rnd n * mapW, vec_y = rnd (n + 1) * mapH\<rparr>
              (ENTITY_SPEED_MIN + rnd (n + 2) * (ENTITY_SPEED_MAX - ENTITY_SPEED_MIN))
              (rnd (n + 3) * pi * 2)
              (ENTITY_ANG_MIN + rnd (n + 4) * (ENTITY_ANG_MAX - ENTITY_ANG_MIN))
              (rnd (n + 5) * pi * 2) kind],
      Suc ident, n + 6)"
      using Suc.prems unfolding spawnAttempts_Suc_spawn [OF spawn] by simp
    then have r: "ok" "es1 = es @ [newEntity ident \<lparr>vec_x = rnd n * mapW, vec_y = rnd (n + 1) * mapH\<rparr>
              (ENTITY_SPEED_MIN + rnd (n + 2) * (ENTITY_SPEED_MAX - ENTITY_SPEED_MIN))
              (rnd (n + 3) * pi * 2)
              (ENTITY_ANG_MIN + rnd (n + 4) * (ENTITY_ANG_MAX - ENTITY_ANG_MIN))
              (rnd (n + 5) * pi * 2) kind]" "ident1 = Suc ident" "n1 = n + 2 * 1 + 4" by simp_all
    show ?thesis
      using r(1,3) unfolding r(2) by (auto intro!: exI [of _ 1] simp: r(4) newEntity_fields)
  qed
qed

lemma spawnAttempts_all_inside:
  "(\<forall>i<k. (rnd (n + 2 * i) * mapW - vec_x pp) * (rnd (n + 2 * i) * mapW - vec_x pp)
         + (rnd (n + 2 * i + 1) * mapH - vec_y pp) * (rnd (n + 2 * i + 1) * mapH - vec_y pp) < sr * sr)
   \<Longrightarrow> spawnAttempts k rnd n es ident pp mapW mapH sr kind = (False, es, ident, n + 2 * k)"
proof (induction k arbitrary: n)
  case 0
  then show ?case by simp
next
  case (Suc k)
  have first: "(rnd n * mapW - vec_x pp) * (rnd n * mapW - vec_x pp)
         + (rnd (n + 1) * mapH - vec_y pp) * (rnd (n + 1) * mapH - vec_y pp) < sr * sr"
    using Suc.prems [rule_format, of 0] by simp
  have rest: "\<forall>i<k. (rnd (n + 2 + 2 * i) * mapW - vec_x pp) * (rnd (n + 2 + 2 * i) * mapW - vec_x pp)
         + (rnd (n + 2 + 2 * i + 1) * mapH - vec_y pp) * (rnd (n + 2 + 2 * i + 1) * mapH - vec_y pp) < sr * sr"
  proof (intro allI impI)
    fix i assume "i < k"
    then show "(rnd (n + 2 + 2 * i) * mapW - vec_x pp) * (rnd (n + 2 + 2 * i) * mapW - vec_x pp)
         + (rnd (n + 2 + 2 * i + 1) * mapH - vec_y pp) * (rnd (n + 2 + 2 * i + 1) * mapH - vec_y pp) < sr * sr"
      using Suc.prems [rule_format, of "Suc i"] by (simp add: add.assoc)
  qed
  show ?case
    unfolding spawnAttempts_Suc_inside [OF first] Suc.IH [OF rest] by simp
qed

lemma spawnAttempts_cap:
  assumes "(kind = Square \<and> length (filter (\<lambda>e. e_kind e = Square) es) \<ge> SQUARE_MAX_COUNT) \<or>
         (kind = Triangle \<and> length (filter (\<lambda>e. e_kind e = Triangle) es) \<ge> TRIANGLE_MAX_COUNT)"
  shows "fst (spawnAttempts k rnd n es ident pp mapW mapH sr kind) = False"
proof (induction k arbitrary: n)
  case 0
  then show ?case by simp
next
  case (Suc k)
  show ?case
  proof (cases "(rnd n * mapW - vec_x pp) * (rnd n * mapW - vec_x pp)
         + (rnd (n + 1) * mapH - vec_y pp) * (rnd (n + 1) * mapH - vec_y pp) < sr * sr")
    case True
    show ?thesis unfolding spawnAttempts_Suc_inside [OF True] by (rule Suc.IH)
  next
    case False
    show ?thesis unfolding spawnAttempts_Suc_cap [OF False assms] by simp
  qed
qed


text \<open>
  Claim C6. \<open>spawnEntityRandomAvoidingPlayers\<close> draws the coordinates of at most 20
  points. When it returns false the entities and the id counter are as before; it returns
  false when each of the 20 points lies within the safe radius of the player and when the
  population cap of the requested kind is reached. When it returns true it has appended
  exactly one entity, of the requested kind.
\<close>

theorem spawnEntityRandomAvoidingPlayers_spec:
  "(case spawnEntityRandomAvoidingPlayers rnd n es ident pp mapW mapH sr kind of
      (ok, es1, ident1, n1) \<Rightarrow>
        (\<not> ok \<longrightarrow> es1 = es \<and> ident1 = ident \<and> (\<exists>j\<le>20. n1 = n + 2 * j)) \<and>
        (ok \<longrightarrow> (\<exists>e. es1 = es @ [e] \<and> e_kind e = kind \<and> e_id e = ident) \<and> ident1 = Suc ident \<and>
                (\<exists>j. 1 \<le> j \<and> j \<le> 20 \<and> n1 = n + 2 * j + 4))) \<and>
   ((\<forall>i<20. (rnd (n + 2 * i) * mapW - vec_x pp) * (rnd (n + 2 * i) * mapW - vec_x pp)
         + (rnd (n + 2 * i + 1) * mapH - vec_y pp) * (rnd (n + 2 * i + 1) * mapH - vec_y pp) < sr * sr)
      \<longrightarrow> spawnEntityRandomAvoidingPlayers rnd n es ident pp mapW mapH sr kind = (False, es, ident, n + 40)) \<and>
   ((kind = Square \<and> length (filter (\<lambda>e. e_kind e = Square) es) \<ge> SQUARE_MAX_COUNT) \<or>
    (kind = Triangle \<and> length (filter (\<lambda>e. e_kind e = Triangle) es) \<ge> TRIANGLE_MAX_COUNT)
      \<longrightarrow> fst (spawnEntityRandomAvoidingPlayers rnd n es ident pp mapW mapH sr kind) = False \<and>
          fst (snd (spawnEntityRandomAvoidingPlayers rnd n es ident pp mapW mapH sr kind)) = es)"
proof -
  obtain ok es1 ident1 n1 where
    r: "spawnAttempts 20 rnd n es ident pp mapW mapH sr kind = (ok, es1, ident1, n1)"
    by (metis prod_cases4)
  note res = spawnAttempts_result [OF r]
  have a: "(case spawnEntityRandomAvoidingPlayers rnd n es ident pp mapW mapH sr kind of
      (ok, es1, ident1, n1) \<Rightarrow>
        (\<not> ok \<longrightarrow> es1 = es \<and> ident1 = ident \<and> (\<exists>j\<le>20. n1 = n + 2 * j)) \<and>
        (ok \<longrightarrow> (\<exists>e. es1 = es @ [e] \<and> e_kind e = kind \<and> e_id e = ident) \<and> ident1 = Suc ident \<and>
                (\<exists>j. 1 \<le> j \<and> j \<le> 20 \<and> n1 = n + 2 * j + 4)))"
    unfolding spawnEntityRandomAvoidingPlayers_def r using res by simp
  have b: "spawnEntityRandomAvoidingPlayers rnd n es ident pp mapW mapH sr kind = (False, es, ident, n + 40)"
    if "\<forall>i<20. (rnd (n + 2 * i) * mapW - vec_x pp) * (rnd (n + 2 * i) * mapW - vec_x pp)
         + (rnd (n + 2 * i + 1) * mapH - vec_y pp) * (rnd (n + 2 * i + 1) * mapH - vec_y pp) < sr * sr"
    unfolding spawnEntityRandomAvoidingPlayers_def using spawnAttempts_all_inside [OF that] by simp
  have c: "fst (spawnEntityRandomAvoidingPlayers rnd n es ident pp mapW mapH sr kind) = False \<and>
          fst (snd (spawnEntityRandomAvoidingPlayers rnd n es ident pp mapW mapH sr kind)) = es"
    if "(kind = Square \<and> length (filter (\<lambda>e. e_kind e = Square) es) \<ge> SQUARE_MAX_COUNT) \<or>
    (kind = Triangle \<and> length (filter (\<lambda>e. e_kind e = Triangle) es) \<ge> TRIANGLE_MAX_COUNT)"
  proof -
    have "\<not> ok" using spawnAttempts_cap [OF that, of 20 rnd n ident pp mapW mapH sr] unfolding r by simp
    then show ?thesis unfolding spawnEntityRandomAvoidingPlayers_def r using res by simp
  qed
  show ?thesis using a b c by blast
qed

theorem spawnEntityRandomAvoidingPlayers_spec_witness:
  "spawnEntityRandomAvoidingPlayers (\<lambda>i. 0) 0 [] 1 \<lparr>vec_x = 750, vec_y = 750\<rparr> 1500 1500 500 Square
     = (True, [newEntity 1 \<lparr>vec_x = 0, vec_y = 0\<rparr> 5 0 (- (6 / 10)) 0 Square], 2, 6) \<and>
   spawnEntityRandomAvoidingPlayers (\<lambda>i. 0) 0 [] 1 \<lparr>vec_x = 0, vec_y = 0\<rparr> 1500 1500 500 Square
     = (False, [], 1, 40) \<and>
   fst (spawnEntityRandomAvoidingPlayers (\<lambda>i. 0) 0
          (replicate 5 (newEntity 1 \<lparr>vec_x = 0, vec_y = 0\<rparr> 5 0 0 0 Triangle)) 6
          \<lparr>vec_x = 750, vec_y = 750\<rparr> 1500 1500 500 Triangle) = False"
proof -
  have s: "spawnEntityRandomAvoidingPlayers (\<lambda>i. 0) 0 [] 1 \<lparr>vec_x = 750, vec_y = 750\<rparr> 1500 1500 500 Square
     = (True, [newEntity 1 \<lparr>vec_x = 0, vec_y = 0\<rparr> 5 0 (- (6 / 10)) 0 Square], 2, 6)"
  proof -
    have "spawnAttempts (Suc 19) (\<lambda>i. 0) 0 [] 1 \<lparr>vec_x = 750, vec_y = 750\<rparr> 1500 1500 500 Square
     = (True, [newEntity 1 \<lparr>vec_x = 0, vec_y = 0\<rparr> 5 0 (- (6 / 10)) 0 Square], 2, 6)"
      by (subst spawnAttempts_Suc_spawn)
        (simp_all add: ENTITY_SPEED_MIN_def ENTITY_ANG_MIN_def SQUARE_MAX_COUNT_def)
    then show ?thesis by (simp add: spawnEntityRandomAvoidingPlayers_def)
  qed
  show ?thesis
    using spawnEntityRandomAvoidingPlayers_spec
      [where rnd = "\<lambda>i. 0" and n = 0 and es = "[]" and ident = 1 and pp = "\<lparr>vec_x = 750, vec_y = 750\<rparr>"
         and mapW = 1500 and mapH = 1500 and sr = 500 and kind = Square]
      spawnEntityRandomAvoidingPlayers_spec
      [where rnd = "\<lambda>i. 0" and n = 0 and es = "[]" and ident = 1 and pp = "\<lparr>vec_x = 0, vec_y = 0\<rparr>"
         and mapW = 1500 and mapH = 1500 and sr = 500 and kind = Square]
      spawnEntityRandomAvoidingPlayers_spec
      [where rnd = "\<lambda>i. 0" and n = 0
         and es = "replicate 5 (newEntity 1 \<lparr>vec_x = 0, vec_y = 0\<rparr> 5 0 0 0 Triangle)" and ident = 6
         and pp = "\<lparr>vec_x = 750, vec_y = 750\<rparr>"
         and mapW = 1500 and mapH = 1500 and sr = 500 and kind = Triangle]
    unfolding s
    by (simp add: newEntity_fields TRIANGLE_MAX_COUNT_def)
qed

subsection \<open>The hit pass: basic facts\<close>

lemma buildBins_valid: "set (buildBins cellSize es k) \<subseteq> {..<length es}"
  by (auto simp: buildBins_def)

lemma scanOrder_valid:
  assumes "\<And>k. set (bins k) \<subseteq> {..<N}"
  shows "set (scanOrder cellSize bins b) \<subseteq> {..<N}"
  using assms by (auto simp: scanOrder_def split: prod.splits)

lemma firstHit_Some:
  assumes "firstHit es removed b order = Some i"
  shows "i \<in> set order" "e_id (es ! i) \<notin> removed" "bulletHitsEntity b (es ! i)"
  using assms unfolding firstHit_def by (auto simp: find_Some_iff)

lemma computeBulletHitDamage_nonneg:
  "0 \<le> d \<Longrightarrow> 0 \<le> h \<Longrightarrow> 0 \<le> computeBulletHitDamage d h t"
  by (simp add: computeBulletHitDamage_def)

lemma hitEntity_hp:
  "e_hp (hitEntity b ent) = max 0 (e_hp ent - computeBulletHitDamage (b_damage b) (b_hp b) (SHAPE_BASE_DAMAGE (e_kind ent)))"
  "e_maxHp (hitEntity b ent) = e_maxHp ent"
  "e_hitT (hitEntity b ent) = Some HIT_FLASH_DURATION"
  "e_id (hitEntity b ent) = e_id ent"
  "e_kind (hitEntity b ent) = e_kind ent"
  "e_pos (hitEntity b ent) = e_pos ent"
  "e_size (hitEntity b ent) = e_size ent"
  "e_angle (hitEntity b ent) = e_angle ent"
  by (cases "e_kind ent"; simp add: hitEntity_def Let_def)+

lemma hitEntity_ok:
  assumes "entityHpOk ent" "0 \<le> b_damage b" "0 \<le> b_hp b"
  shows "entityHpOk (hitEntity b ent)"
  using assms computeBulletHitDamage_nonneg [of "b_damage b" "b_hp b" "SHAPE_BASE_DAMAGE (e_kind ent)"]
  by (simp add: entityHpOk_def hitEntity_hp)

lemma bulletStep_entities:
  "hs_entities (snd (bulletStep cellSize bins b st)) = hs_entities st \<or>
   (\<exists>i. firstHit (hs_entities st) (hs_removed st) b (scanOrder cellSize bins b) = Some i \<and>
        \<not> b_life b \<le> 0 \<and>
        hs_entities (snd (bulletStep cellSize bins b st))
          = (hs_entities st)[i := hitEntity b (hs_entities st ! i)])"
  by (auto simp: bulletStep_def Let_def split: option.splits)

lemma bulletStep_length:
  "length (hs_entities (snd (bulletStep cellSize bins b st))) = length (hs_entities st)"
  using bulletStep_entities [of cellSize bins b st] by auto

lemma bulletStep_ok:
  assumes bins: "\<And>k. set (bins k) \<subseteq> {..<length (hs_entities st)}"
    and ok: "\<forall>e\<in>set (hs_entities st). entityHpOk e"
    and b: "0 \<le> b_damage b" "0 \<le> b_hp b"
  shows "\<forall>e\<in>set (hs_entities (snd (bulletStep cellSize bins b st))). entityHpOk e"
  using bulletStep_entities [of cellSize bins b st]
proof
  assume "hs_entities (snd (bulletStep cellSize bins b st)) = hs_entities st"
  then show ?thesis using ok by simp
next
  assume "\<exists>i. firstHit (hs_entities st) (hs_removed st) b (scanOrder cellSize bins b) = Some i \<and>
        \<not> b_life b \<le> 0 \<and>
        hs_entities (snd (bulletStep cellSize bins b st))
          = (hs_entities st)[i := hitEntity b (hs_entities st ! i)]"
  then obtain i where i: "firstHit (hs_entities st) (hs_removed st) b (scanOrder cellSize bins b) = Some i"
    and eq: "hs_entities (snd (bulletStep cellSize bins b st))
          = (hs_entities st)[i := hitEntity b (hs_entities st ! i)]"
    by blast
  have "i \<in> set (scanOrder cellSize bins b)" using firstHit_Some(1) [OF i] .
  then have lt: "i < length (hs_entities st)"
    using scanOrder_valid [of bins "length (hs_entities st)" cellSize b] bins by auto
  then have "entityHpOk (hs_entities st ! i)" using ok by simp
  then have "entityHpOk (hitEntity b (hs_entities st ! i))" using b by (rule hitEntity_ok)
  then show ?thesis
    unfolding eq using ok set_update_subset_insert [of "hs_entities st" i "hitEntity b (hs_entities st ! i)"]
    by auto
qed

lemma bulletLoop_Cons_snd:
  "snd (bulletLoop cellSize bins (b # bs) st)
     = snd (bulletLoop cellSize bins bs (snd (bulletStep cellSize bins b st)))"
  by (simp split: prod.splits)

lemma bulletLoop_Cons_fst:
  "fst (bulletLoop cellSize bins (b # bs) st)
     = fst (bulletStep cellSize bins b st) # fst (bulletLoop cellSize bins bs (snd (bulletStep cellSize bins b st)))"
  by (simp split: prod.splits)

lemma bulletLoop_length:
  "length (hs_entities (snd (bulletLoop cellSize bins bs st))) = length (hs_entities st)"
proof (induction bs arbitrary: st)
  case Nil
  then show ?case by simp
next
  case (Cons b bs)
  show ?case
    unfolding bulletLoop_Cons_snd Cons.IH by (rule bulletStep_length)
qed

lemma bulletLoop_ok:
  assumes "\<And>k. set (bins k) \<subseteq> {..<length (hs_entities st)}"
    and "\<forall>e\<in>set (hs_entities st). entityHpOk e"
    and "\<forall>b\<in>set bs. 0 \<le> b_damage b \<and> 0 \<le> b_hp b"
  shows "\<forall>e\<in>set (hs_entities (snd (bulletLoop cellSize bins bs st))). entityHpOk e"
  using assms
proof (induction bs arbitrary: st)
  case Nil
  then show ?case by simp
next
  case (Cons b bs)
  let ?st1 = "snd (bulletStep cellSize bins b st)"
  have len: "length (hs_entities ?st1) = length (hs_entities st)"
    by (rule bulletStep_length)
  have ok1: "\<forall>e\<in>set (hs_entities ?st1). entityHpOk e"
    using bulletStep_ok [of bins st b cellSize] Cons.prems by simp
  show ?case
    unfolding bulletLoop_Cons_snd
    using Cons.IH [of ?st1] Cons.prems(1,3) ok1 by (simp add: len)
qed

lemma hitPass_ok:
  assumes "\<forall>e\<in>set entities. entityHpOk e"
    and "\<forall>b\<in>set bullets. 0 \<le> b_damage b \<and> 0 \<le> b_hp b"
  shows "\<forall>e\<in>set (hs_entities (snd (hitPass bullets entities))). entityHpOk e"
  unfolding hitPass_def Let_def
  by (rule bulletLoop_ok) (use assms buildBins_valid in simp_all)

subsection \<open>Health stays in range\<close>

lemma respawnLoop_ok:
  assumes sp: "\<And>s es. \<forall>e\<in>set es. entityHpOk e \<Longrightarrow> \<forall>e\<in>set (fst (snd (spawn s es))). entityHpOk e"
    and "\<forall>e\<in>set es. entityHpOk e"
  shows "\<forall>e\<in>set (fst (snd (snd (respawnLoop spawn mx r spawned stf es s)))). entityHpOk e"
  using assms(2)
proof (induction r arbitrary: spawned stf es s)
  case 0
  then show ?case by simp
next
  case (Suc r)
  obtain ok es1 s1 where c: "spawn s es = (ok, es1, s1)" by (cases "spawn s es")
  have ok1: "\<forall>e\<in>set es1. entityHpOk e" using sp [OF Suc.prems, of s] by (simp add: c)
  show ?case
    using Suc.IH [OF ok1] Suc.prems ok1 by (simp add: c)
qed

lemma impact_nonneg: "0 \<le> impactMultiplierFromSpeed speed"
  by (simp add: impactMultiplierFromSpeed_def Let_def IMPACT_SPEED_BONUS_def BASE_TANK_SPEED_def)

lemma onPlayerCollide_tank:
  "tankHp (fst (onPlayerCollide derived tankVel ent overlapDt fs))
     = max 0 (tankHp fs - PLAYER_CONTACT_DPS * overlapDt)"
  by (simp add: onPlayerCollide_def Let_def)

lemma onPlayerCollide_entity:
  "e_hp (snd (onPlayerCollide derived tankVel ent overlapDt fs))
     = max 0 (e_hp ent - bodyDamageShape derived
          * impactMultiplierFromSpeed (hypot (vec_x tankVel) (vec_y tankVel)) * overlapDt)"
  "e_maxHp (snd (onPlayerCollide derived tankVel ent overlapDt fs)) = e_maxHp ent"
  by (simp_all add: onPlayerCollide_def Let_def)

lemma regenStep_tank:
  assumes "0 \<le> tankHp fs" "0 \<le> dt" "0 \<le> d_maxHp derived" "0 \<le> regenPerSecond derived"
  shows "0 \<le> tankHp (regenStep derived dt fs)" "tankHp (regenStep derived dt fs) \<le> d_maxHp derived"
proof -
  have "0 \<le> regenPerSecond derived * (if c then REGEN_HYPER_MULTIPLIER else 1) * dt" for c
    using assms by (simp add: REGEN_HYPER_MULTIPLIER_def)
  then show "0 \<le> tankHp (regenStep derived dt fs)"
    using assms by (simp add: regenStep_def Let_def)
  show "tankHp (regenStep derived dt fs) \<le> d_maxHp derived"
    by (simp add: regenStep_def Let_def)
qed


lemma updateBullets_ok:
  assumes es: "\<forall>e\<in>set entities. entityHpOk e"
    and bs: "\<forall>b\<in>set bullets. 0 \<le> b_damage b \<and> 0 \<le> b_hp b"
    and sq: "\<And>s es. \<forall>e\<in>set es. entityHpOk e \<Longrightarrow> \<forall>e\<in>set (fst (snd (spawnSquare s es))). entityHpOk e"
    and tr: "\<And>s es. \<forall>e\<in>set es. entityHpOk e \<Longrightarrow> \<forall>e\<in>set (fst (snd (spawnTriangle s es))). entityHpOk e"
  shows "\<forall>e\<in>set (r_entities (updateBullets bullets entities dt camera stf mx spawnSquare spawnTriangle s)).
           entityHpOk e"
proof -
  let ?moved = "map (moveBullet dt) bullets"
  have mv: "\<forall>b\<in>set ?moved. 0 \<le> b_damage b \<and> 0 \<le> b_hp b"
    using bs by (simp add: moveBullet_def)
  obtain bullets1 st where hp: "hitPass ?moved entities = (bullets1, st)" by (cases "hitPass ?moved entities")
  have st: "\<forall>e\<in>set (hs_entities st). entityHpOk e"
    using hitPass_ok [OF es mv] by (simp add: hp)
  let ?es1 = "filter (\<lambda>e. e_id e \<notin> hs_removed st) (hs_entities st)"
  have f: "\<forall>e\<in>set ?es1. entityHpOk e" using st by simp
  obtain spawned1 stf1 es2 s1 where
    r1: "respawnLoop spawnSquare mx (hs_removedSquares st) 0 stf ?es1 s = (spawned1, stf1, es2, s1)"
    by (metis prod_cases4)
  have e2: "\<forall>e\<in>set es2. entityHpOk e"
    using respawnLoop_ok [of spawnSquare ?es1 mx "hs_removedSquares st" 0 stf s, OF sq f] by (simp add: r1)
  obtain spawned2 stf2 es3 s2 where
    r2: "respawnLoop spawnTriangle mx (hs_removedTriangles st) spawned1 stf1 es2 s1 = (spawned2, stf2, es3, s2)"
    by (metis prod_cases4)
  have e3: "\<forall>e\<in>set es3. entityHpOk e"
    using respawnLoop_ok [of spawnTriangle es2 mx "hs_removedTriangles st" spawned1 stf1 s1, OF tr e2]
    by (simp add: r2)
  show ?thesis
    unfolding updateBullets_def Let_def using es st e3 by (simp add: hp r1 r2)
qed

text \<open>
  Health on numeric operands. \<open>applyTankDamage\<close> and \<open>applyTankHeal\<close> clamp into the
  range between 0 and the maximum. A bullet hit and the body-contact damage of
  \<open>onPlayerCollide\<close> clamp at 0 from below and do not raise health when the damage value,
  the penetration budget, the overlap time and the stat points are non-negative numbers.
  The regeneration step clamps at the current maximum from above, a whole call of
  \<open>updateBullets\<close> then returns only entities within range, given spawn callbacks that add
  only such entities, and a spawned entity starts at its maximum.
\<close>

theorem health_in_range:
  "(0 \<le> maxHp \<longrightarrow>
      0 \<le> applyTankDamage hp dmg maxHp \<and> applyTankDamage hp dmg maxHp \<le> maxHp \<and>
      0 \<le> applyTankHeal hp heal maxHp \<and> applyTankHeal hp heal maxHp \<le> maxHp) \<and>
   (entityHpOk ent \<and> 0 \<le> b_damage b \<and> 0 \<le> b_hp b \<longrightarrow> entityHpOk (hitEntity b ent)) \<and>
   ((\<forall>e\<in>set entities. entityHpOk e) \<and> (\<forall>b\<in>set bullets. 0 \<le> b_damage b \<and> 0 \<le> b_hp b) \<and>
    (\<forall>s es. (\<forall>e\<in>set es. entityHpOk e) \<longrightarrow> (\<forall>e\<in>set (fst (snd (spawnSquare s es))). entityHpOk e)) \<and>
    (\<forall>s es. (\<forall>e\<in>set es. entityHpOk e) \<longrightarrow> (\<forall>e\<in>set (fst (snd (spawnTriangle s es))). entityHpOk e))
      \<longrightarrow> (\<forall>e\<in>set (r_entities (updateBullets bullets entities dt camera stf mx spawnSquare spawnTriangle s)).
             entityHpOk e)) \<and>
   (0 \<le> overlapDt \<and> 0 \<le> bodyDamage points \<and> 0 \<le> tankHp fs \<and> tankHp fs \<le> tankMax \<and> entityHpOk ent
      \<longrightarrow> 0 \<le> tankHp (fst (onPlayerCollide (computeDerivedStats level points) tankVel ent overlapDt fs)) \<and>
          tankHp (fst (onPlayerCollide (computeDerivedStats level points) tankVel ent overlapDt fs)) \<le> tankMax \<and>
          entityHpOk (snd (onPlayerCollide (computeDerivedStats level points) tankVel ent overlapDt fs))) \<and>
   (0 \<le> dt \<and> 0 \<le> tankHp fs \<and> 0 \<le> maxHealth points \<and> 0 \<le> healthRegen points
      \<longrightarrow> 0 \<le> tankHp (regenStep (computeDerivedStats level points) dt fs) \<and>
          tankHp (regenStep (computeDerivedStats level points) dt fs)
            \<le> d_maxHp (computeDerivedStats level points)) \<and>
   entityHpOk (newEntity ident p speed dir angVel angle kind)"
proof -
  have a: "0 \<le> applyTankDamage hp dmg maxHp \<and> applyTankDamage hp dmg maxHp \<le> maxHp \<and>
      0 \<le> applyTankHeal hp heal maxHp \<and> applyTankHeal hp heal maxHp \<le> maxHp" if "0 \<le> maxHp"
    using that by (simp add: applyTankDamage_def applyTankHeal_def)
  have b: "entityHpOk (hitEntity b ent)" if "entityHpOk ent \<and> 0 \<le> b_damage b \<and> 0 \<le> b_hp b"
    using that hitEntity_ok by blast
  have c: "\<forall>e\<in>set (r_entities (updateBullets bullets entities dt camera stf mx spawnSquare spawnTriangle s)).
             entityHpOk e"
    if "(\<forall>e\<in>set entities. entityHpOk e) \<and> (\<forall>b\<in>set bullets. 0 \<le> b_damage b \<and> 0 \<le> b_hp b) \<and>
    (\<forall>s es. (\<forall>e\<in>set es. entityHpOk e) \<longrightarrow> (\<forall>e\<in>set (fst (snd (spawnSquare s es))). entityHpOk e)) \<and>
    (\<forall>s es. (\<forall>e\<in>set es. entityHpOk e) \<longrightarrow> (\<forall>e\<in>set (fst (snd (spawnTriangle s es))). entityHpOk e))"
    by (rule updateBullets_ok) (use that in blast)+
  have d: "0 \<le> tankHp (fst (onPlayerCollide (computeDerivedStats level points) tankVel ent overlapDt fs)) \<and>
          tankHp (fst (onPlayerCollide (computeDerivedStats level points) tankVel ent overlapDt fs)) \<le> tankMax \<and>
          entityHpOk (snd (onPlayerCollide (computeDerivedStats level points) tankVel ent overlapDt fs))"
    if h: "0 \<le> overlapDt \<and> 0 \<le> bodyDamage points \<and> 0 \<le> tankHp fs \<and> tankHp fs \<le> tankMax \<and> entityHpOk ent"
  proof -
    have "0 \<le> bodyDamageShape (computeDerivedStats level points)"
      using h by (simp add: computeDerivedStats_def Let_def BODY_DAMAGE_BASE_def BODY_DAMAGE_MULT_SHAPE_def)
    then have "0 \<le> bodyDamageShape (computeDerivedStats level points)
          * impactMultiplierFromSpeed (hypot (vec_x tankVel) (vec_y tankVel)) * overlapDt"
      using h impact_nonneg by simp
    then show ?thesis
      using h by (simp add: onPlayerCollide_tank onPlayerCollide_entity entityHpOk_def PLAYER_CONTACT_DPS_def)
  qed
  have e: "0 \<le> tankHp (regenStep (computeDerivedStats level points) dt fs) \<and>
          tankHp (regenStep (computeDerivedStats level points) dt fs)
            \<le> d_maxHp (computeDerivedStats level points)"
    if h: "0 \<le> dt \<and> 0 \<le> tankHp fs \<and> 0 \<le> maxHealth points \<and> 0 \<le> healthRegen points"
  proof -
    have m: "0 \<le> d_maxHp (computeDerivedStats level points)"
      using h by (simp add: computeDerivedStats_def Let_def baseMaxHpForLevel_def BASE_HP_def HP_PER_LEVEL_def
          HP_PER_POINT_def)
    have r: "0 \<le> regenPerSecond (computeDerivedStats level points)"
      using h by (simp add: computeDerivedStats_def Let_def baseMaxHpForLevel_def BASE_HP_def HP_PER_LEVEL_def
          HP_PER_POINT_def REGEN_BASE_FACTOR_def REGEN_PER_POINT_def)
    show ?thesis using regenStep_tank [OF _ _ m r, of fs dt] h by simp
  qed
  have f: "entityHpOk (newEntity ident p speed dir angVel angle kind)"
    by (simp add: entityHpOk_def newEntity_def SQUARE_MAX_HP_def TRIANGLE_MAX_HP_def)
  show ?thesis using a b c d e f by blast
qed


theorem health_in_range_witness:
  "applyTankDamage 10 30 50 = 0 \<and> applyTankHeal 10 100 50 = 50 \<and>
   entityHpOk exSquare \<and> entityHpOk (hitEntity (exBullet 2) exSquare) \<and>
   list_all entityHpOk
     (r_entities (updateBullets [exBullet 2] [exSquare] (1 / 20) exCamera 0 2 noSpawn noSpawn ())) \<and>
   tankHp (fst (onPlayerCollide (computeDerivedStats 1 INITIAL_STATS) \<lparr>vec_x = 0, vec_y = 0\<rparr> exSquare
                  (1 / 20) exFrame)) \<le> 50 \<and>
   entityHpOk (snd (onPlayerCollide (computeDerivedStats 1 INITIAL_STATS) \<lparr>vec_x = 0, vec_y = 0\<rparr> exSquare
                  (1 / 20) exFrame)) \<and>
   tankHp (regenStep (computeDerivedStats 1 INITIAL_STATS) (1 / 20) exFrame)
     \<le> d_maxHp (computeDerivedStats 1 INITIAL_STATS)"
proof -
  have sq: "entityHpOk exSquare"
    by (simp add: exSquare_def entityHpOk_def newEntity_def SQUARE_MAX_HP_def)
  have ns: "\<forall>s es. (\<forall>e\<in>set es. entityHpOk e) \<longrightarrow> (\<forall>e\<in>set (fst (snd (noSpawn s es))). entityHpOk e)"
    by (simp add: noSpawn_def)
  have v: "applyTankDamage 10 30 50 = 0" "applyTankHeal 10 100 50 = 50"
    by (simp_all add: applyTankDamage_def applyTankHeal_def)
  show ?thesis
    using health_in_range
      [where maxHp = 50 and hp = 10 and dmg = 30 and heal = 100 and ent = exSquare and b = "exBullet 2"
         and entities = "[exSquare]" and bullets = "[exBullet 2]" and spawnSquare = noSpawn
         and spawnTriangle = noSpawn and dt = "1 / 20" and camera = exCamera and stf = 0 and mx = 2
         and s = "()" and overlapDt = "1 / 20" and points = INITIAL_STATS and fs = exFrame
         and tankMax = 50 and level = 1 and tankVel = "\<lparr>vec_x = 0, vec_y = 0\<rparr>"]
      sq ns v
    by (simp add: exBullet_def exFrame_def INITIAL_STATS_def list_all_iff)
qed

subsection \<open>Health after a hit by a spawned bullet\<close>

text \<open>On numbers the functions on undefined operands agree with the functions on reals.\<close>

lemma computeBulletHitDamage_js_Num:
  "computeBulletHitDamage_js (Num d) (Num h) t = Num (computeBulletHitDamage d h t)"
  by (simp add: computeBulletHitDamage_js_def computeBulletHitDamage_def js_lt_def js_mul_def
      js_div_def toNumber_def)

lemma bulletHitHp_Num:
  "bulletHitHp (Num (b_damage b)) (Num (b_hp b)) (e_kind ent) (Num (e_hp ent))
     = Num (e_hp (hitEntity b ent))"
  by (cases "e_kind ent")
    (simp_all add: bulletHitHp_def hitEntity_def Let_def computeBulletHitDamage_js_Num js_max_def
      js_sub_def toNumber_def)

lemma contactTankHp_Num:
  "contactTankHp (Num (tankHp fs)) (Num overlapDt)
     = Num (tankHp (fst (onPlayerCollide derived tankVel ent overlapDt fs)))"
  by (simp add: contactTankHp_def onPlayerCollide_def Let_def js_max_def js_sub_def js_mul_def
      toNumber_def)


subsection \<open>Bullets returned by the bullet system\<close>

lemma bulletStep_bullet:
  "fst (bulletStep cellSize bins b st) = b \<or>
   (\<exists>i. firstHit (hs_entities st) (hs_removed st) b (scanOrder cellSize bins b) = Some i \<and>
        \<not> b_life b \<le> 0 \<and>
        fst (bulletStep cellSize bins b st) = hitBullet b (hs_entities st ! i))"
  by (auto simp: bulletStep_def Let_def split: option.splits)

lemma hitBullet_fields:
  "b_pos (hitBullet b ent) = b_pos b" "b_radius (hitBullet b ent) = b_radius b"
  "b_damage (hitBullet b ent) = b_damage b" "b_id (hitBullet b ent) = b_id b"
  "b_vel (hitBullet b ent) = b_vel b"
  "b_hp (hitBullet b ent) = b_hp b - SHAPE_BASE_DAMAGE (e_kind ent)"
  "b_life (hitBullet b ent) = (if b_hp b - SHAPE_BASE_DAMAGE (e_kind ent) \<le> 0 then 0 else b_life b)"
  by (cases "e_kind ent"; simp add: hitBullet_def Let_def)+

lemma bulletLoop_bullets:
  "list_all2 (\<lambda>b b1. b1 = b \<or> (\<exists>ent. \<not> b_life b \<le> 0 \<and> b1 = hitBullet b ent))
     bs (fst (bulletLoop cellSize bins bs st))"
proof (induction bs arbitrary: st)
  case Nil
  then show ?case by simp
next
  case (Cons b bs)
  have "fst (bulletStep cellSize bins b st) = b \<or>
      (\<exists>ent. \<not> b_life b \<le> 0 \<and> fst (bulletStep cellSize bins b st) = hitBullet b ent)"
    using bulletStep_bullet [of cellSize bins b st] by blast
  then show ?case
    unfolding bulletLoop_Cons_fst using Cons.IH by simp
qed

lemma hitPass_bullets:
  "list_all2 (\<lambda>b b1. b1 = b \<or> (\<exists>ent. \<not> b_life b \<le> 0 \<and> b1 = hitBullet b ent))
     bs (fst (hitPass bs entities))"
  unfolding hitPass_def Let_def by (rule bulletLoop_bullets)

lemma updateBullets_bullets:
  "r_bullets (updateBullets bullets entities dt camera stf mx spawnSquare spawnTriangle s)
     = cullBullets camera
         (if entities \<noteq> [] \<and> bullets \<noteq> [] then fst (hitPass (map (moveBullet dt) bullets) entities)
          else map (moveBullet dt) bullets)"
  unfolding updateBullets_def Let_def
  by (simp split: prod.splits)


lemma hitPass_budget:
  assumes "\<forall>b\<in>set bs. 0 < b_hp b"
  shows "\<forall>b1\<in>set (fst (hitPass bs entities)). 0 < b_hp b1 \<or> b_life b1 = 0"
proof
  fix b1 assume "b1 \<in> set (fst (hitPass bs entities))"
  then obtain i where i: "i < length (fst (hitPass bs entities))" "b1 = fst (hitPass bs entities) ! i"
    by (auto simp: in_set_conv_nth)
  note l = hitPass_bullets [of bs entities]
  have len: "length bs = length (fst (hitPass bs entities))" by (rule list_all2_lengthD [OF l])
  define b where "b = bs ! i"
  have b: "b \<in> set bs" "b1 = b \<or> (\<exists>ent. \<not> b_life b \<le> 0 \<and> b1 = hitBullet b ent)"
    using list_all2_nthD2 [OF l i(1)] i len by (simp_all add: b_def)
  from b(2) show "0 < b_hp b1 \<or> b_life b1 = 0"
  proof
    assume "b1 = b"
    then show ?thesis using assms b(1) by simp
  next
    assume "\<exists>ent. \<not> b_life b \<le> 0 \<and> b1 = hitBullet b ent"
    then obtain ent where "b1 = hitBullet b ent" by blast
    then show ?thesis by (simp add: hitBullet_fields)
  qed
qed

text \<open>
  Claim C9. When every bullet enters \<open>updateBullets\<close> with a positive penetration budget,
  every returned bullet has remaining lifetime > 0, penetration budget > 0 and a position
  inside the camera rectangle expanded by 40 on each side. A bullet whose budget is at
  most 0 after the hit pass has lifetime 0 and is not returned, and a bullet's budget
  changes only by a hit.
\<close>

theorem updateBullets_returned_bullets:
  assumes "\<forall>b\<in>set bullets. 0 < b_hp b"
  shows "(\<forall>b\<in>set (r_bullets (updateBullets bullets entities dt camera stf mx spawnSquare spawnTriangle s)).
            0 < b_life b \<and> 0 < b_hp b \<and>
            cam_x camera - 40 < vec_x (b_pos b) \<and> vec_x (b_pos b) < cam_x camera + cam_width camera + 40 \<and>
            cam_y camera - 40 < vec_y (b_pos b) \<and> vec_y (b_pos b) < cam_y camera + cam_height camera + 40) \<and>
         (\<forall>b\<in>set (fst (hitPass (map (moveBullet dt) bullets) entities)).
            b_hp b \<le> 0 \<longrightarrow>
              b_life b = 0 \<and>
              b \<notin> set (r_bullets (updateBullets bullets entities dt camera stf mx spawnSquare spawnTriangle s))) \<and>
         list_all2 (\<lambda>b b1. b_hp b1 = b_hp b \<or> (\<exists>ent. b1 = hitBullet (moveBullet dt b) ent))
           bullets (fst (hitPass (map (moveBullet dt) bullets) entities))"
proof -
  let ?moved = "map (moveBullet dt) bullets"
  let ?out = "if entities \<noteq> [] \<and> bullets \<noteq> [] then fst (hitPass ?moved entities) else ?moved"
  have mv: "\<forall>b\<in>set ?moved. 0 < b_hp b"
    using assms by (simp add: moveBullet_def)
  have hp: "\<forall>b1\<in>set (fst (hitPass ?moved entities)). 0 < b_hp b1 \<or> b_life b1 = 0"
    by (rule hitPass_budget [OF mv])
  have out: "\<forall>b1\<in>set ?out. 0 < b_hp b1 \<or> b_life b1 = 0"
    using hp mv by (auto split: if_splits)
  have r: "r_bullets (updateBullets bullets entities dt camera stf mx spawnSquare spawnTriangle s)
      = cullBullets camera ?out"
    by (rule updateBullets_bullets)
  have a: "\<forall>b\<in>set (cullBullets camera ?out).
            0 < b_life b \<and> 0 < b_hp b \<and>
            cam_x camera - 40 < vec_x (b_pos b) \<and> vec_x (b_pos b) < cam_x camera + cam_width camera + 40 \<and>
            cam_y camera - 40 < vec_y (b_pos b) \<and> vec_y (b_pos b) < cam_y camera + cam_height camera + 40"
  proof
    fix b assume "b \<in> set (cullBullets camera ?out)"
    then have b: "b \<in> set ?out" "\<not> b_life b \<le> 0" "visibleBullet camera b"
      by (simp_all add: cullBullets_def)
    have "0 < b_hp b" using out b(1,2) by auto
    then show "0 < b_life b \<and> 0 < b_hp b \<and>
            cam_x camera - 40 < vec_x (b_pos b) \<and> vec_x (b_pos b) < cam_x camera + cam_width camera + 40 \<and>
            cam_y camera - 40 < vec_y (b_pos b) \<and> vec_y (b_pos b) < cam_y camera + cam_height camera + 40"
      using b(2,3) by (simp add: visibleBullet_def Let_def)
  qed
  have b: "\<forall>b\<in>set (fst (hitPass ?moved entities)).
            b_hp b \<le> 0 \<longrightarrow> b_life b = 0 \<and> b \<notin> set (cullBullets camera ?out)"
  proof (intro ballI impI)
    fix b assume "b \<in> set (fst (hitPass ?moved entities))" "b_hp b \<le> 0"
    then have "b_life b = 0" using hp by fastforce
    then show "b_life b = 0 \<and> b \<notin> set (cullBullets camera ?out)"
      by (simp add: cullBullets_def)
  qed
  have c: "list_all2 (\<lambda>b b1. b_hp b1 = b_hp b \<or> (\<exists>ent. b1 = hitBullet (moveBullet dt b) ent))
           bullets (fst (hitPass ?moved entities))"
  proof -
    have "list_all2 (\<lambda>b b1. b_hp b1 = b_hp b \<or> (\<exists>ent. b1 = hitBullet b ent))
        ?moved (fst (hitPass ?moved entities))"
      by (rule list_all2_mono [OF hitPass_bullets]) auto
    then show ?thesis
      by (simp add: list_all2_map1 moveBullet_def)
  qed
  show ?thesis unfolding r using a b c by blast
qed

subsection \<open>The two hit scenarios\<close>

lemma firstHit_index:
  assumes "firstHit es removed b (scanOrder cs (buildBins cs es) b) = Some i"
  shows "i < length es"
  using firstHit_Some(1) [OF assms] scanOrder_valid [of "buildBins cs es" "length es" cs b]
    buildBins_valid [of cs es] by auto

lemma hitPass_single:
  "fst (hitPass [b] es) =
     [fst (bulletStep (cellSizeFor [b]) (buildBins (cellSizeFor [b]) es) b
             \<lparr>hs_entities = es, hs_removed = {}, hs_removedSquares = 0,
              hs_removedTriangles = 0, hs_killed = []\<rparr>)]"
  "snd (hitPass [b] es) =
     snd (bulletStep (cellSizeFor [b]) (buildBins (cellSizeFor [b]) es) b
             \<lparr>hs_entities = es, hs_removed = {}, hs_removedSquares = 0,
              hs_removedTriangles = 0, hs_killed = []\<rparr>)"
  unfolding hitPass_def Let_def bulletLoop_Cons_fst bulletLoop_Cons_snd by simp_all

lemma bulletStep_hit:
  assumes "\<not> b_life b \<le> 0"
    and "firstHit (hs_entities st) (hs_removed st) b (scanOrder cs bins b) = Some i"
  shows "fst (bulletStep cs bins b st) = hitBullet b (hs_entities st ! i)"
    and "hs_entities (snd (bulletStep cs bins b st)) = (hs_entities st)[i := hitEntity b (hs_entities st ! i)]"
    and "0 < e_hp (hitEntity b (hs_entities st ! i)) \<Longrightarrow>
           snd (bulletStep cs bins b st)
             = st\<lparr>hs_entities := (hs_entities st)[i := hitEntity b (hs_entities st ! i)]\<rparr>"
  using assms by (simp_all add: bulletStep_def Let_def)

lemma key_ex: "key (2 + dx) (2 + dy) = key 2 2 \<longleftrightarrow> dx = 0 \<and> dy = 0"
  if "dx \<in> {- 1, 0, 1}" "dy \<in> {- 1, 0, 1}"
  using that by (auto simp: key_def)

lemma exBullet_moved:
  "moveBullet (1 / 20) (exBullet h) = (exBullet h)\<lparr>b_life := 39 / 20\<rparr>"
  by (simp add: moveBullet_def exBullet_def)

lemma exBullet_cell:
  "cellSizeFor [moveBullet (1 / 20) (exBullet h)] = 43"
  "cellOf 43 (b_pos (moveBullet (1 / 20) (exBullet h))) = (2, 2)"
  "cellOf 43 (e_pos exSquare) = (2, 2)" "cellOf 43 (e_pos exTriangle) = (2, 2)"
  by (simp_all add: cellSizeFor_def maxBulletRadius_def moveBullet_def exBullet_def BULLET_RADIUS_def
      SQUARE_SIZE_def TRIANGLE_SIZE_def cellOf_def exSquare_def exTriangle_def newEntity_def)

lemma exBullet_scan:
  assumes "cellOf 43 (e_pos ent) = (2, 2)"
  shows "scanOrder (cellSizeFor [moveBullet (1 / 20) (exBullet h)])
           (buildBins (cellSizeFor [moveBullet (1 / 20) (exBullet h)]) [ent])
           (moveBullet (1 / 20) (exBullet h)) = [0]"
  unfolding exBullet_cell scanOrder_def buildBins_def
  using assms key_ex [of "- 1" "- 1"] key_ex [of "- 1" 0] key_ex [of "- 1" 1]
    key_ex [of 0 "- 1"] key_ex [of 0 1] key_ex [of 1 "- 1"] key_ex [of 1 0] key_ex [of 1 1]
  by simp

lemma exBullet_hits:
  "bulletHitsEntity (moveBullet (1 / 20) (exBullet h)) exSquare"
  "bulletHitsEntity (moveBullet (1 / 20) (exBullet h)) exTriangle"
  by (simp_all add: bulletHitsEntity_def moveBullet_def exBullet_def exSquare_def exTriangle_def
      newEntity_def TRIANGLE_SIZE_def ENTITY_COLLISION_INSET_def triangleWorldVerts_def rot_def Let_def
      circleIntersectsTriangle_def closestPointOnTriangle_def pointInTriangle_def)

lemma exBullet_firstHit:
  "firstHit [exSquare] {} (moveBullet (1 / 20) (exBullet h))
     (scanOrder (cellSizeFor [moveBullet (1 / 20) (exBullet h)])
        (buildBins (cellSizeFor [moveBullet (1 / 20) (exBullet h)]) [exSquare])
        (moveBullet (1 / 20) (exBullet h))) = Some 0"
  "firstHit [exTriangle] {} (moveBullet (1 / 20) (exBullet h))
     (scanOrder (cellSizeFor [moveBullet (1 / 20) (exBullet h)])
        (buildBins (cellSizeFor [moveBullet (1 / 20) (exBullet h)]) [exTriangle])
        (moveBullet (1 / 20) (exBullet h))) = Some 0"
  unfolding exBullet_scan [OF exBullet_cell(3)] exBullet_scan [OF exBullet_cell(4)]
  by (simp_all add: firstHit_def exBullet_hits)

text \<open>
  Claim C4. Let \<open>updateBullets\<close> run on one bullet that is alive after its motion step
  and whose scan finds entity \<open>i\<close> as its first hit. If that entity is a square with
  hp = 10 and maxHp = 10, the bullet's damage is 7 and its budget at least the square
  resistance 2, the entity ends with hp = 3 and its hit-flash timer at the flash duration,
  it stays in the returned collection and nothing is killed. If the entity is a
  triangle (resistance 4) and the budget is 2, the triangle loses exactly half the
  bullet's damage (down to 0 at most), the budget becomes -2, the bullet's lifetime is
  zeroed and it is not returned, and no other entity is touched.
\<close>

theorem updateBullets_hit_scenarios:
  assumes alive: "\<not> b_life (moveBullet dt b) \<le> 0"
    and hit: "firstHit es {} (moveBullet dt b)
                (scanOrder (cellSizeFor [moveBullet dt b])
                   (buildBins (cellSizeFor [moveBullet dt b]) es) (moveBullet dt b)) = Some i"
  shows
    "(e_kind (es ! i) = Square \<and> e_hp (es ! i) = 10 \<and> e_maxHp (es ! i) = 10 \<and> b_damage b = 7 \<and> 2 \<le> b_hp b
        \<longrightarrow> r_entities (updateBullets [b] es dt camera stf mx spawnSquare spawnTriangle s)
              = es[i := hitEntity (moveBullet dt b) (es ! i)] \<and>
            i < length (r_entities (updateBullets [b] es dt camera stf mx spawnSquare spawnTriangle s)) \<and>
            e_hp (r_entities (updateBullets [b] es dt camera stf mx spawnSquare spawnTriangle s) ! i) = 3 \<and>
            e_maxHp (r_entities (updateBullets [b] es dt camera stf mx spawnSquare spawnTriangle s) ! i) = 10 \<and>
            e_hitT (r_entities (updateBullets [b] es dt camera stf mx spawnSquare spawnTriangle s) ! i)
              = Some HIT_FLASH_DURATION \<and>
            e_id (r_entities (updateBullets [b] es dt camera stf mx spawnSquare spawnTriangle s) ! i)
              = e_id (es ! i) \<and>
            r_killed (updateBullets [b] es dt camera stf mx spawnSquare spawnTriangle s) = []) \<and>
     (e_kind (es ! i) = Triangle \<and> b_hp b = 2
        \<longrightarrow> hs_entities (snd (hitPass [moveBullet dt b] es)) = es[i := hitEntity (moveBullet dt b) (es ! i)] \<and>
            e_hp (hs_entities (snd (hitPass [moveBullet dt b] es)) ! i)
              = max 0 (e_hp (es ! i) - b_damage b / 2) \<and>
            fst (hitPass [moveBullet dt b] es) = [hitBullet (moveBullet dt b) (es ! i)] \<and>
            b_hp (hitBullet (moveBullet dt b) (es ! i)) = - 2 \<and>
            b_life (hitBullet (moveBullet dt b) (es ! i)) = 0 \<and>
            r_bullets (updateBullets [b] es dt camera stf mx spawnSquare spawnTriangle s) = [])"
proof -
  let ?mb = "moveBullet dt b"
  let ?cs = "cellSizeFor [?mb]"
  let ?st0 = "\<lparr>hs_entities = es, hs_removed = {}, hs_removedSquares = 0,
              hs_removedTriangles = 0, hs_killed = []\<rparr>"
  have i: "i < length es" by (rule firstHit_index [OF hit])
  have ne: "es \<noteq> []" using i by auto
  have hit0: "firstHit (hs_entities ?st0) (hs_removed ?st0) ?mb (scanOrder ?cs (buildBins ?cs es) ?mb) = Some i"
    using hit by simp
  note st = bulletStep_hit [OF alive hit0]
  have hp_fst: "fst (hitPass [?mb] es) = [hitBullet ?mb (es ! i)]"
    unfolding hitPass_single using st(1) by simp
  have hp_ents: "hs_entities (snd (hitPass [?mb] es)) = es[i := hitEntity ?mb (es ! i)]"
    unfolding hitPass_single using st(2) by simp
  have mbf: "b_hp ?mb = b_hp b" "b_damage ?mb = b_damage b" by (simp_all add: moveBullet_def)
  have A: "r_entities (updateBullets [b] es dt camera stf mx spawnSquare spawnTriangle s)
              = es[i := hitEntity ?mb (es ! i)] \<and>
            i < length (r_entities (updateBullets [b] es dt camera stf mx spawnSquare spawnTriangle s)) \<and>
            e_hp (r_entities (updateBullets [b] es dt camera stf mx spawnSquare spawnTriangle s) ! i) = 3 \<and>
            e_maxHp (r_entities (updateBullets [b] es dt camera stf mx spawnSquare spawnTriangle s) ! i) = 10 \<and>
            e_hitT (r_entities (updateBullets [b] es dt camera stf mx spawnSquare spawnTriangle s) ! i)
              = Some HIT_FLASH_DURATION \<and>
            e_id (r_entities (updateBullets [b] es dt camera stf mx spawnSquare spawnTriangle s) ! i)
              = e_id (es ! i) \<and>
            r_killed (updateBullets [b] es dt camera stf mx spawnSquare spawnTriangle s) = []"
    if h: "e_kind (es ! i) = Square \<and> e_hp (es ! i) = 10 \<and> e_maxHp (es ! i) = 10 \<and> b_damage b = 7 \<and> 2 \<le> b_hp b"
  proof -
    have dmg: "computeBulletHitDamage 7 (b_hp b) 2 = 7"
      using h by (simp add: computeBulletHitDamage_def)
    have hp3: "e_hp (hitEntity ?mb (es ! i)) = 3"
      using h by (simp add: hitEntity_hp mbf dmg)
    have "snd (bulletStep ?cs (buildBins ?cs es) ?mb ?st0)
        = ?st0\<lparr>hs_entities := es[i := hitEntity ?mb (es ! i)]\<rparr>"
      using st(3) hp3 by simp
    then have sndp: "snd (hitPass [?mb] es) = ?st0\<lparr>hs_entities := es[i := hitEntity ?mb (es ! i)]\<rparr>"
      unfolding hitPass_single by simp
    have r: "updateBullets [b] es dt camera stf mx spawnSquare spawnTriangle s
        = \<lparr>r_bullets = cullBullets camera (fst (hitPass [?mb] es)),
           r_entities = es[i := hitEntity ?mb (es ! i)],
           r_spawnsThisFrame = stf, r_killed = [], r_spawnState = s\<rparr>"
      unfolding updateBullets_def Let_def using ne sndp
      by (cases "hitPass [?mb] es") simp
    show ?thesis
      unfolding r using i h hp3 by (simp add: hitEntity_hp)
  qed
  have B: "hs_entities (snd (hitPass [?mb] es)) = es[i := hitEntity ?mb (es ! i)] \<and>
            e_hp (hs_entities (snd (hitPass [?mb] es)) ! i) = max 0 (e_hp (es ! i) - b_damage b / 2) \<and>
            fst (hitPass [?mb] es) = [hitBullet ?mb (es ! i)] \<and>
            b_hp (hitBullet ?mb (es ! i)) = - 2 \<and>
            b_life (hitBullet ?mb (es ! i)) = 0 \<and>
            r_bullets (updateBullets [b] es dt camera stf mx spawnSquare spawnTriangle s) = []"
    if h: "e_kind (es ! i) = Triangle \<and> b_hp b = 2"
  proof -
    have dmg: "computeBulletHitDamage (b_damage b) 2 4 = b_damage b / 2"
      by (simp add: computeBulletHitDamage_def)
    have hb: "b_hp (hitBullet ?mb (es ! i)) = - 2" "b_life (hitBullet ?mb (es ! i)) = 0"
      using h by (simp_all add: hitBullet_fields mbf)
    have "r_bullets (updateBullets [b] es dt camera stf mx spawnSquare spawnTriangle s)
        = cullBullets camera (fst (hitPass [?mb] es))"
      using ne by (simp add: updateBullets_bullets)
    then have rb: "r_bullets (updateBullets [b] es dt camera stf mx spawnSquare spawnTriangle s) = []"
      by (simp add: hp_fst cullBullets_def hb)
    show ?thesis
      using h i hb rb by (simp add: hp_ents hp_fst hitEntity_hp mbf dmg)
  qed
  show ?thesis using A B by blast
qed


theorem updateBullets_hit_scenarios_witness:
  "e_hp exSquare = 10 \<and> e_maxHp exSquare = 10 \<and> b_damage (exBullet 2) = 7 \<and>
   r_entities (updateBullets [exBullet 2] [exSquare] (1 / 20) exCamera 0 2 noSpawn noSpawn ())
     = [hitEntity (moveBullet (1 / 20) (exBullet 2)) exSquare] \<and>
   e_hp (hitEntity (moveBullet (1 / 20) (exBullet 2)) exSquare) = 3 \<and>
   e_hitT (hitEntity (moveBullet (1 / 20) (exBullet 2)) exSquare) = Some HIT_FLASH_DURATION \<and>
   e_hp exTriangle = 30 \<and>
   hs_entities (snd (hitPass [moveBullet (1 / 20) (exBullet 2)] [exTriangle]))
     = [hitEntity (moveBullet (1 / 20) (exBullet 2)) exTriangle] \<and>
   e_hp (hitEntity (moveBullet (1 / 20) (exBullet 2)) exTriangle) = 30 - 7 / 2 \<and>
   b_hp (hitBullet (moveBullet (1 / 20) (exBullet 2)) exTriangle) = - 2 \<and>
   r_bullets (updateBullets [exBullet 2] [exTriangle] (1 / 20) exCamera 0 2 noSpawn noSpawn ()) = []"
proof -
  have alive: "\<not> b_life (moveBullet (1 / 20) (exBullet 2)) \<le> 0"
    by (simp add: exBullet_moved)
  have f: "e_hp exSquare = 10" "e_maxHp exSquare = 10" "b_damage (exBullet 2) = 7" "e_hp exTriangle = 30"
    "e_kind exSquare = Square" "e_kind exTriangle = Triangle" "b_hp (exBullet 2) = 2"
    by (simp_all add: exSquare_def exTriangle_def newEntity_def exBullet_def SQUARE_MAX_HP_def
        TRIANGLE_MAX_HP_def)
  show ?thesis
    using updateBullets_hit_scenarios [OF alive exBullet_firstHit(1), where camera = exCamera and stf = 0
        and mx = 2 and spawnSquare = noSpawn and spawnTriangle = noSpawn and s = "()"]
      updateBullets_hit_scenarios [OF alive exBullet_firstHit(2), where camera = exCamera and stf = 0
        and mx = 2 and spawnSquare = noSpawn and spawnTriangle = noSpawn and s = "()"]
    by (clarsimp simp add: f)
qed

theorem updateBullets_returned_bullets_witness:
  "0 < b_hp (exBullet 2) \<and>
   r_bullets (updateBullets [exBullet 2] [] (1 / 20) exCamera 0 2 noSpawn noSpawn ())
     = [moveBullet (1 / 20) (exBullet 2)] \<and>
   0 < b_life (moveBullet (1 / 20) (exBullet 2)) \<and> 0 < b_hp (moveBullet (1 / 20) (exBullet 2)) \<and>
   fst (hitPass [moveBullet (1 / 20) (exBullet 2)] [exTriangle])
     = [hitBullet (moveBullet (1 / 20) (exBullet 2)) exTriangle] \<and>
   b_hp (hitBullet (moveBullet (1 / 20) (exBullet 2)) exTriangle) \<le> 0 \<and>
   b_life (hitBullet (moveBullet (1 / 20) (exBullet 2)) exTriangle) = 0 \<and>
   hitBullet (moveBullet (1 / 20) (exBullet 2)) exTriangle
     \<notin> set (r_bullets (updateBullets [exBullet 2] [exTriangle] (1 / 20) exCamera 0 2 noSpawn noSpawn ()))"
proof -
  have pos: "\<forall>b\<in>set [exBullet 2]. 0 < b_hp b" by (simp add: exBullet_def)
  have r: "r_bullets (updateBullets [exBullet 2] [] (1 / 20) exCamera 0 2 noSpawn noSpawn ())
     = [moveBullet (1 / 20) (exBullet 2)]"
    by (simp add: updateBullets_bullets cullBullets_def visibleBullet_def moveBullet_def exBullet_def
        exCamera_def)
  have alive: "\<not> b_life (moveBullet (1 / 20) (exBullet 2)) \<le> 0"
    by (simp add: exBullet_moved)
  have st0: "firstHit (hs_entities \<lparr>hs_entities = [exTriangle], hs_removed = {}, hs_removedSquares = 0,
              hs_removedTriangles = 0, hs_killed = []\<rparr>) (hs_removed \<lparr>hs_entities = [exTriangle], hs_removed = {}, hs_removedSquares = 0,
              hs_removedTriangles = 0, hs_killed = []\<rparr>) (moveBullet (1 / 20) (exBullet 2))
     (scanOrder (cellSizeFor [moveBullet (1 / 20) (exBullet 2)])
        (buildBins (cellSizeFor [moveBullet (1 / 20) (exBullet 2)]) [exTriangle])
        (moveBullet (1 / 20) (exBullet 2))) = Some 0"
    using exBullet_firstHit(2) [of 2] by simp
  have h: "fst (hitPass [moveBullet (1 / 20) (exBullet 2)] [exTriangle])
     = [hitBullet (moveBullet (1 / 20) (exBullet 2)) exTriangle]"
    unfolding hitPass_single using bulletStep_hit(1) [OF alive st0] by simp
  have hb: "b_hp (hitBullet (moveBullet (1 / 20) (exBullet 2)) exTriangle) = - 2"
    by (simp add: hitBullet_fields moveBullet_def exBullet_def exTriangle_def newEntity_def)
  note t1 = updateBullets_returned_bullets [OF pos, where entities = "[]" and dt = "1 / 20"
        and camera = exCamera and stf = 0 and mx = 2 and spawnSquare = noSpawn and spawnTriangle = noSpawn
        and s = "()"]
  note t2 = updateBullets_returned_bullets [OF pos, where entities = "[exTriangle]" and dt = "1 / 20"
        and camera = exCamera and stf = 0 and mx = 2 and spawnSquare = noSpawn and spawnTriangle = noSpawn
        and s = "()"]
  have a: "0 < b_life (moveBullet (1 / 20) (exBullet 2)) \<and> 0 < b_hp (moveBullet (1 / 20) (exBullet 2))"
    using t1 unfolding r by simp
  have b: "b_life (hitBullet (moveBullet (1 / 20) (exBullet 2)) exTriangle) = 0 \<and>
      hitBullet (moveBullet (1 / 20) (exBullet 2)) exTriangle
     \<notin> set (r_bullets (updateBullets [exBullet 2] [exTriangle] (1 / 20) exCamera 0 2 noSpawn noSpawn ()))"
    using t2 hb by (simp add: h)
  have c: "0 < b_hp (exBullet 2)" by (simp add: exBullet_def)
  show ?thesis using a b c r h hb by simp
qed

subsection \<open>Separation of two entities\<close>

lemma projectStep_shift:
  "projectStep axis (m + c, M + c) \<lparr>vec_x = vec_x w + tx, vec_y = vec_y w + ty\<rparr>
     = (fst (projectStep axis (m, M) w) + c, snd (projectStep axis (m, M) w) + c)"
  if "c = vec_x axis * tx + vec_y axis * ty"
  using that by (simp add: projectStep_def dot_def Let_def algebra_simps)

lemma foldl_projectStep_shift:
  assumes "c = vec_x axis * tx + vec_y axis * ty"
  shows "foldl (projectStep axis) (m + c, M + c)
           (map (\<lambda>w. \<lparr>vec_x = vec_x w + tx, vec_y = vec_y w + ty\<rparr>) vs)
     = (fst (foldl (projectStep axis) (m, M) vs) + c, snd (foldl (projectStep axis) (m, M) vs) + c)"
proof (induction vs arbitrary: m M)
  case Nil
  then show ?case by simp
next
  case (Cons v vs)
  show ?case
    using Cons.IH [of "fst (projectStep axis (m, M) v)" "snd (projectStep axis (m, M) v)"]
    by (simp add: projectStep_shift [OF assms])
qed

lemma projectPolygon_shift:
  assumes "projectPolygon axis vs = Inr pa"
  shows "projectPolygon axis (map (\<lambda>w. \<lparr>vec_x = vec_x w + tx, vec_y = vec_y w + ty\<rparr>) vs)
     = Inr (fst pa + (vec_x axis * tx + vec_y axis * ty), snd pa + (vec_x axis * tx + vec_y axis * ty))"
proof (cases vs)
  case Nil
  then show ?thesis using assms by simp
next
  case (Cons v vs')
  have d: "dot axis \<lparr>vec_x = vec_x v + tx, vec_y = vec_y v + ty\<rparr>
      = dot axis v + (vec_x axis * tx + vec_y axis * ty)"
    by (simp add: dot_def algebra_simps)
  show ?thesis
    using assms unfolding Cons
    by (auto simp add: d foldl_projectStep_shift [OF refl])
qed

lemma foldl_projectStep_le:
  "m \<le> M \<Longrightarrow> fst (foldl (projectStep axis) (m, M) vs) \<le> snd (foldl (projectStep axis) (m, M) vs)"
proof (induction vs arbitrary: m M)
  case Nil
  then show ?case by simp
next
  case (Cons v vs)
  have "fst (projectStep axis (m, M) v) \<le> snd (projectStep axis (m, M) v)"
    using Cons.prems by (simp add: projectStep_def Let_def)
  from Cons.IH [OF this] show ?case by simp
qed

lemma foldl_projectStep_neg:
  assumes "m \<le> M"
  shows "foldl (projectStep \<lparr>vec_x = - vec_x axis, vec_y = - vec_y axis\<rparr>) (- M, - m) vs
     = (- snd (foldl (projectStep axis) (m, M) vs), - fst (foldl (projectStep axis) (m, M) vs))"
  using assms
proof (induction vs arbitrary: m M)
  case Nil
  then show ?case by simp
next
  case (Cons v vs)
  have le: "fst (projectStep axis (m, M) v) \<le> snd (projectStep axis (m, M) v)"
    using Cons.prems by (simp add: projectStep_def Let_def)
  have st: "projectStep \<lparr>vec_x = - vec_x axis, vec_y = - vec_y axis\<rparr> (- M, - m) v
      = (- snd (projectStep axis (m, M) v), - fst (projectStep axis (m, M) v))"
    using Cons.prems by (simp add: projectStep_def dot_def Let_def)
  show ?case
    using Cons.IH [OF le] by (simp add: st)
qed

lemma projectPolygon_neg:
  assumes "projectPolygon axis vs = Inr pa"
  shows "projectPolygon \<lparr>vec_x = - vec_x axis, vec_y = - vec_y axis\<rparr> vs = Inr (- snd pa, - fst pa)"
proof (cases vs)
  case Nil
  then show ?thesis using assms by simp
next
  case (Cons v vs')
  have d: "dot \<lparr>vec_x = - vec_x axis, vec_y = - vec_y axis\<rparr> v = - dot axis v"
    by (simp add: dot_def)
  show ?thesis
    using assms unfolding Cons
    using foldl_projectStep_neg [of "dot axis v" "dot axis v" axis vs']
    by (auto simp add: d)
qed

lemma projectPolygon_le:
  assumes "projectPolygon axis vs = Inr pa"
  shows "fst pa \<le> snd pa"
  using assms foldl_projectStep_le [of "dot axis (hd vs)" "dot axis (hd vs)" axis "tl vs"]
  by (cases vs) auto

lemma hypot_eq_0: "hypot a b = 0 \<longleftrightarrow> a = 0 \<and> b = 0"
  by (simp add: hypot_def real_sqrt_eq_zero_cancel_iff sum_squares_eq_zero_iff power2_eq_square [symmetric]
      del: real_sqrt_eq_0_iff) (simp add: power2_eq_square)

lemma hypot_unit_dot: "hypot a b = 1 \<Longrightarrow> a * a + b * b = 1"
  by (simp add: hypot_def)

lemma normalize_v_cases:
  "normalize_v v = \<lparr>vec_x = 0, vec_y = 0\<rparr> \<or>
   hypot (vec_x (normalize_v v)) (vec_y (normalize_v v)) = 1"
proof (cases "hypot (vec_x v) (vec_y v) = 0")
  case True
  then show ?thesis by (simp add: normalize_v_def hypot_eq_0)
next
  case False
  have pos: "0 < hypot (vec_x v) (vec_y v)"
    using False hypot_nonneg [of "vec_x v" "vec_y v"] by simp
  have "hypot (vec_x v * (1 / hypot (vec_x v) (vec_y v))) (vec_y v * (1 / hypot (vec_x v) (vec_y v)))
      = \<bar>1 / hypot (vec_x v) (vec_y v)\<bar> * hypot (vec_x v) (vec_y v)"
    by (rule hypot_scale)
  also have "\<dots> = 1" using pos by simp
  finally show ?thesis using False by (simp add: normalize_v_def Let_def)
qed

lemma projectPolygon_zero_axis:
  "projectPolygon \<lparr>vec_x = 0, vec_y = 0\<rparr> vs = Inr pa \<Longrightarrow> pa = (0, 0)"
proof -
  have "foldl (projectStep \<lparr>vec_x = 0, vec_y = 0\<rparr>) (0, 0) ws = (0, 0)" for ws
    by (induction ws) (simp_all add: projectStep_def dot_def)
  then show "projectPolygon \<lparr>vec_x = 0, vec_y = 0\<rparr> vs = Inr pa \<Longrightarrow> pa = (0, 0)"
    by (cases vs) (auto simp: dot_def)
qed

lemma overlapOn_neg:
  "overlapOn \<lparr>vec_x = - vec_x axis, vec_y = - vec_y axis\<rparr> vA vB = overlapOn axis vA vB"
proof (cases "projectPolygon axis vA")
  case (Inl e)
  then show ?thesis by (cases vA) (simp_all add: overlapOn_def)
next
  case (Inr pa)
  note pa = this
  show ?thesis
  proof (cases "projectPolygon axis vB")
    case (Inl e)
    then show ?thesis using pa projectPolygon_neg [OF pa] by (cases vB) (simp_all add: overlapOn_def)
  next
    case (Inr pb)
    show ?thesis
      using pa Inr projectPolygon_neg [OF pa] projectPolygon_neg [OF Inr]
      by (simp add: overlapOn_def min_def max_def)
  qed
qed


lemma testAxesFrom_invariant:
  assumes run: "testAxesFrom vA vB dir es st = Inr (Overlapping st')"
    and init: "\<And>m. st = Some m \<Longrightarrow> Q m"
    and step: "\<And>e pa pb. projectPolygon (edgeNormal (fst e) (snd e)) vA = Inr pa \<Longrightarrow>
        projectPolygon (edgeNormal (fst e) (snd e)) vB = Inr pb \<Longrightarrow>
        \<not> min (snd pa) (snd pb) - max (fst pa) (fst pb) \<le> 0 \<Longrightarrow>
        Q (min (snd pa) (snd pb) - max (fst pa) (fst pb),
           \<lparr>vec_x = vec_x (edgeNormal (fst e) (snd e)) * (if dot (edgeNormal (fst e) (snd e)) dir < 0 then - 1 else 1),
            vec_y = vec_y (edgeNormal (fst e) (snd e)) * (if dot (edgeNormal (fst e) (snd e)) dir < 0 then - 1 else 1)\<rparr>)"
  shows "(\<forall>m. st' = Some m \<longrightarrow> Q m) \<and> (st' = None \<longrightarrow> st = None \<and> es = [])"
  using run init
proof (induction es arbitrary: st)
  case Nil
  then show ?case by auto
next
  case (Cons e es)
  let ?axis = "edgeNormal (fst e) (snd e)"
  obtain pa where pa: "projectPolygon ?axis vA = Inr pa"
    using Cons.prems(1) by (cases "projectPolygon ?axis vA") (simp_all add: Let_def)
  obtain pb where pb: "projectPolygon ?axis vB = Inr pb"
    using Cons.prems(1) pa by (cases "projectPolygon ?axis vB") (simp_all add: Let_def)
  let ?ov = "min (snd pa) (snd pb) - max (fst pa) (fst pb)"
  have ov: "\<not> ?ov \<le> 0"
    using Cons.prems(1) pa pb by (auto simp add: Let_def split: if_splits)
  let ?new = "(?ov, \<lparr>vec_x = vec_x ?axis * (if dot ?axis dir < 0 then - 1 else 1),
            vec_y = vec_y ?axis * (if dot ?axis dir < 0 then - 1 else 1)\<rparr>)"
  have qnew: "Q ?new" by (rule step [OF pa pb ov])
  show ?case
  proof (cases "case st of None \<Rightarrow> True | Some m \<Rightarrow> ?ov < fst m")
    case True
    have "testAxesFrom vA vB dir es (Some ?new) = Inr (Overlapping st')"
      using Cons.prems(1) True ov
      by (simp only: testAxesFrom.simps Let_def pa pb sum.case if_False if_True)
    from Cons.IH [OF this] qnew show ?thesis by auto
  next
    case False
    then obtain m where m: "st = Some m" by (cases st) auto
    have "testAxesFrom vA vB dir es st = Inr (Overlapping st')"
      using Cons.prems(1) False ov
      by (simp only: testAxesFrom.simps Let_def pa pb sum.case if_False if_True)
    from Cons.IH [OF this] Cons.prems(2) m show ?thesis by auto
  qed
qed


lemma vec2_eta: "\<lparr>vec_x = vec_x r, vec_y = vec_y r\<rparr> = (r :: vec2)"
  by (cases r) simp

lemma hypot_neg: "hypot (- a) (- b) = hypot a b"
  by (simp add: hypot_def)

lemma edge_axis_step:
  assumes sg: "sg = 1 \<or> sg = - 1"
    and pa: "projectPolygon (edgeNormal (fst e) (snd e)) vA = Inr pa"
    and pb: "projectPolygon (edgeNormal (fst e) (snd e)) vB = Inr pb"
    and ov: "\<not> min (snd pa) (snd pb) - max (fst pa) (fst pb) \<le> 0"
  shows "hypot (vec_x (edgeNormal (fst e) (snd e)) * sg) (vec_y (edgeNormal (fst e) (snd e)) * sg) = 1 \<and>
         overlapOn \<lparr>vec_x = vec_x (edgeNormal (fst e) (snd e)) * sg,
                    vec_y = vec_y (edgeNormal (fst e) (snd e)) * sg\<rparr> vA vB
           = Inr (min (snd pa) (snd pb) - max (fst pa) (fst pb))"
proof -
  let ?axis = "edgeNormal (fst e) (snd e)"
  have nz: "?axis \<noteq> \<lparr>vec_x = 0, vec_y = 0\<rparr>"
  proof
    assume z: "?axis = \<lparr>vec_x = 0, vec_y = 0\<rparr>"
    have "pa = (0, 0)" "pb = (0, 0)"
      using pa pb projectPolygon_zero_axis unfolding z by blast+
    then show False using ov by simp
  qed
  have unit: "hypot (vec_x ?axis) (vec_y ?axis) = 1"
    using normalize_v_cases [of "\<lparr>vec_x = - (vec_y (snd e) - vec_y (fst e)), vec_y = vec_x (snd e) - vec_x (fst e)\<rparr>"] nz
    by (simp add: edgeNormal_def Let_def)
  have o: "overlapOn ?axis vA vB = Inr (min (snd pa) (snd pb) - max (fst pa) (fst pb))"
    by (simp add: overlapOn_def pa pb)
  from sg show ?thesis
  proof
    assume "sg = 1"
    then show ?thesis using unit o by (simp add: vec2_eta)
  next
    assume "sg = - 1"
    then show ?thesis using unit o overlapOn_neg [of ?axis vA vB] by (simp add: hypot_neg)
  qed
qed

lemma satMTV_Some:
  assumes "satMTV vA vB ax ay bx by = Inr (Some mtv)"
  shows "\<exists>axis ov. hypot (vec_x axis) (vec_y axis) = 1 \<and> overlapOn axis vA vB = Inr ov \<and> 0 < ov \<and>
           mtv = \<lparr>vec_x = vec_x axis * ov, vec_y = vec_y axis * ov\<rparr>"
proof -
  let ?dir = "\<lparr>vec_x = bx - ax, vec_y = by - ay\<rparr>"
  let ?Q = "\<lambda>m. hypot (vec_x (snd m)) (vec_y (snd m)) = 1 \<and> overlapOn (snd m) vA vB = Inr (fst m) \<and> 0 < fst m"
  have step: "?Q (min (snd pa) (snd pb) - max (fst pa) (fst pb),
           \<lparr>vec_x = vec_x (edgeNormal (fst e) (snd e)) * (if dot (edgeNormal (fst e) (snd e)) ?dir < 0 then - 1 else 1),
            vec_y = vec_y (edgeNormal (fst e) (snd e)) * (if dot (edgeNormal (fst e) (snd e)) ?dir < 0 then - 1 else 1)\<rparr>)"
    if "projectPolygon (edgeNormal (fst e) (snd e)) vA = Inr pa"
      "projectPolygon (edgeNormal (fst e) (snd e)) vB = Inr pb"
      "\<not> min (snd pa) (snd pb) - max (fst pa) (fst pb) \<le> 0" for e pa pb
  proof -
    have sg: "(if dot (edgeNormal (fst e) (snd e)) ?dir < 0 then - 1 else 1) = (1::real) \<or>
        (if dot (edgeNormal (fst e) (snd e)) ?dir < 0 then - 1 else 1) = (- 1::real)"
      by simp
    have pos: "0 < min (snd pa) (snd pb) - max (fst pa) (fst pb)"
      using that(3) by (simp only: not_le)
    show ?thesis
      using edge_axis_step [OF sg that] pos by (simp only: fst_conv snd_conv vec2.simps simp_thms)
  qed
  obtain st1 where 1: "testAxesFrom vA vB ?dir (polygonEdges vA) None = Inr (Overlapping st1)"
    using assms unfolding satMTV_def Let_def
    by (auto split: sum.splits axesResult.splits)
  obtain m where 2: "testAxesFrom vA vB ?dir (polygonEdges vB) st1 = Inr (Overlapping (Some m))"
    and mtv: "mtv = \<lparr>vec_x = vec_x (snd m) * fst m, vec_y = vec_y (snd m) * fst m\<rparr>"
    using assms 1 unfolding satMTV_def Let_def
    by (auto split: sum.splits axesResult.splits option.splits)
  have q1: "\<forall>m. st1 = Some m \<longrightarrow> ?Q m"
    using testAxesFrom_invariant [where Q = ?Q, OF 1 _ step] by simp
  have "\<forall>m'. Some m = Some m' \<longrightarrow> ?Q m'"
    using testAxesFrom_invariant [where Q = ?Q, OF 2 _ step] q1 by blast
  then have "?Q m" by simp
  then show ?thesis using mtv by blast
qed


lemma satMTV_normal:
  assumes "satMTV vA vB ax ay bx by = Inr (Some mtv)"
  shows "hypot (vec_x (normalize_v mtv)) (vec_y (normalize_v mtv)) = 1 \<and>
         (\<exists>ov. 0 < ov \<and> overlapOn (normalize_v mtv) vA vB = Inr ov \<and>
               mtv = \<lparr>vec_x = vec_x (normalize_v mtv) * ov, vec_y = vec_y (normalize_v mtv) * ov\<rparr>)"
proof -
  obtain axis ov where a: "hypot (vec_x axis) (vec_y axis) = 1" "overlapOn axis vA vB = Inr ov" "0 < ov"
    "mtv = \<lparr>vec_x = vec_x axis * ov, vec_y = vec_y axis * ov\<rparr>"
    using satMTV_Some [OF assms] by blast
  have h: "hypot (vec_x mtv) (vec_y mtv) = ov"
    unfolding a(4) using hypot_scale [of "vec_x axis" ov "vec_y axis"] a(1,3) by simp
  have n: "normalize_v mtv = axis"
    unfolding normalize_v_def h Let_def using a(3) by (simp add: a(4) vec2_eta)
  show ?thesis unfolding n using a by blast
qed

lemma rot_translate:
  "rot \<lparr>vec_x = vec_x p + tx, vec_y = vec_y p + ty\<rparr> angle q
     = \<lparr>vec_x = vec_x (rot p angle q) + tx, vec_y = vec_y (rot p angle q) + ty\<rparr>"
  by (simp add: rot_def)

lemma entityVerts_translate:
  assumes "e_pos a' = \<lparr>vec_x = vec_x (e_pos a) + tx, vec_y = vec_y (e_pos a) + ty\<rparr>"
    and "e_kind a' = e_kind a" "e_size a' = e_size a" "e_angle a' = e_angle a"
  shows "entityVerts a' = map (\<lambda>w. \<lparr>vec_x = vec_x w + tx, vec_y = vec_y w + ty\<rparr>) (entityVerts a)"
  unfolding entityVerts_def Let_def triangleWorldVerts_def squareWorldVerts_def assms rot_translate
  by simp

lemma resolve_two:
  assumes "satMTV (entityVerts a) (entityVerts b) (vec_x (e_pos a)) (vec_y (e_pos a))
             (vec_x (e_pos b)) (vec_y (e_pos b)) = Inr (Some mtv)"
  shows "resolveEntityEntityCollisions [a, b]
           = Inr [fst (separatePair mtv a b), snd (separatePair mtv a b)]"
proof -
  have u: "[0..<2] = [0, 1]" "[Suc 0..<2] = [1]" "[2..<2] = []"
    by (simp_all add: upt_rec)
  show ?thesis
    unfolding resolveEntityEntityCollisions_def
    using assms by (simp add: u)
qed

lemma resolve_two_apart:
  assumes "satMTV (entityVerts a) (entityVerts b) (vec_x (e_pos a)) (vec_y (e_pos a))
             (vec_x (e_pos b)) (vec_y (e_pos b)) = Inr None"
  shows "resolveEntityEntityCollisions [a, b] = Inr [a, b]"
proof -
  have u: "[0..<2] = [0, 1]" "[Suc 0..<2] = [1]" "[2..<2] = []"
    by (simp_all add: upt_rec)
  show ?thesis
    unfolding resolveEntityEntityCollisions_def
    using assms by (simp add: u)
qed

lemma separatePair_fields:
  "e_pos (fst (separatePair mtv a b))
     = \<lparr>vec_x = vec_x (e_pos a) + - (vec_x mtv / 2), vec_y = vec_y (e_pos a) + - (vec_y mtv / 2)\<rparr>"
  "e_pos (snd (separatePair mtv a b))
     = \<lparr>vec_x = vec_x (e_pos b) + vec_x mtv / 2, vec_y = vec_y (e_pos b) + vec_y mtv / 2\<rparr>"
  "e_kick (fst (separatePair mtv a b))
     = \<lparr>vec_x = vec_x (e_kick a) - vec_x (normalize_v mtv) * 120,
        vec_y = vec_y (e_kick a) - vec_y (normalize_v mtv) * 120\<rparr>"
  "e_kick (snd (separatePair mtv a b))
     = \<lparr>vec_x = vec_x (e_kick b) + vec_x (normalize_v mtv) * 120,
        vec_y = vec_y (e_kick b) + vec_y (normalize_v mtv) * 120\<rparr>"
  "e_kind (fst (separatePair mtv a b)) = e_kind a" "e_kind (snd (separatePair mtv a b)) = e_kind b"
  "e_size (fst (separatePair mtv a b)) = e_size a" "e_size (snd (separatePair mtv a b)) = e_size b"
  "e_angle (fst (separatePair mtv a b)) = e_angle a" "e_angle (snd (separatePair mtv a b)) = e_angle b"
  "e_hp (fst (separatePair mtv a b)) = e_hp a" "e_hp (snd (separatePair mtv a b)) = e_hp b"
  by (simp_all add: separatePair_def Let_def)

text \<open>
  Displacement and impulses of an overlapping pair. For two entities for which \<open>satMTV\<close>
  returns an MTV, \<open>resolveEntityEntityCollisions\<close> moves the first by minus half the MTV
  and the second by plus half the MTV, and adds to their kick vectors the impulses
  \<open>- 120 n\<close> and \<open>+ 120 n\<close>, where \<open>n\<close> is the normalised MTV, a unit vector. When the
  projection of the first on \<open>n\<close> starts and ends no later than that of the second, the
  projections of the moved polygons on \<open>n\<close> have overlap 0.
\<close>

theorem resolve_two_entities:
  assumes mtv: "satMTV (entityVerts a) (entityVerts b) (vec_x (e_pos a)) (vec_y (e_pos a))
                  (vec_x (e_pos b)) (vec_y (e_pos b)) = Inr (Some mtv)"
  shows "resolveEntityEntityCollisions [a, b]
           = Inr [fst (separatePair mtv a b), snd (separatePair mtv a b)] \<and>
         e_pos (fst (separatePair mtv a b))
           = \<lparr>vec_x = vec_x (e_pos a) - vec_x mtv / 2, vec_y = vec_y (e_pos a) - vec_y mtv / 2\<rparr> \<and>
         e_pos (snd (separatePair mtv a b))
           = \<lparr>vec_x = vec_x (e_pos b) + vec_x mtv / 2, vec_y = vec_y (e_pos b) + vec_y mtv / 2\<rparr> \<and>
         hypot (vec_x (normalize_v mtv)) (vec_y (normalize_v mtv)) = 1 \<and>
         e_kick (fst (separatePair mtv a b))
           = \<lparr>vec_x = vec_x (e_kick a) - vec_x (normalize_v mtv) * 120,
              vec_y = vec_y (e_kick a) - vec_y (normalize_v mtv) * 120\<rparr> \<and>
         e_kick (snd (separatePair mtv a b))
           = \<lparr>vec_x = vec_x (e_kick b) + vec_x (normalize_v mtv) * 120,
              vec_y = vec_y (e_kick b) + vec_y (normalize_v mtv) * 120\<rparr> \<and>
         (projectPolygon (normalize_v mtv) (entityVerts a) = Inr pa \<and>
          projectPolygon (normalize_v mtv) (entityVerts b) = Inr pb \<and>
          fst pa \<le> fst pb \<and> snd pa \<le> snd pb
            \<longrightarrow> overlapOn (normalize_v mtv) (entityVerts (fst (separatePair mtv a b)))
                  (entityVerts (snd (separatePair mtv a b))) = Inr 0)"
proof -
  let ?n = "normalize_v mtv"
  let ?a = "fst (separatePair mtv a b)" and ?b = "snd (separatePair mtv a b)"
  have unit: "hypot (vec_x ?n) (vec_y ?n) = 1"
    using satMTV_normal [OF mtv] by blast
  obtain ov where ov: "0 < ov" "overlapOn ?n (entityVerts a) (entityVerts b) = Inr ov"
    "mtv = \<lparr>vec_x = vec_x ?n * ov, vec_y = vec_y ?n * ov\<rparr>"
    using satMTV_normal [OF mtv] by blast
  have nn: "vec_x ?n * vec_x ?n + vec_y ?n * vec_y ?n = 1"
    by (rule hypot_unit_dot [OF unit])
  have mx: "vec_x mtv = vec_x ?n * ov" and my: "vec_y mtv = vec_y ?n * ov"
    using ov(3) by (metis vec2.select_convs(1), metis vec2.select_convs(2))
  have va: "entityVerts ?a
      = map (\<lambda>w. \<lparr>vec_x = vec_x w + - (vec_x mtv / 2), vec_y = vec_y w + - (vec_y mtv / 2)\<rparr>) (entityVerts a)"
    by (rule entityVerts_translate) (simp_all add: separatePair_fields)
  have vb: "entityVerts ?b
      = map (\<lambda>w. \<lparr>vec_x = vec_x w + vec_x mtv / 2, vec_y = vec_y w + vec_y mtv / 2\<rparr>) (entityVerts b)"
    by (rule entityVerts_translate) (simp_all add: separatePair_fields)
  have ca: "vec_x ?n * - (vec_x mtv / 2) + vec_y ?n * - (vec_y mtv / 2) = - (ov / 2)"
  proof -
    have "vec_x ?n * - (vec_x mtv / 2) + vec_y ?n * - (vec_y mtv / 2)
        = - ((vec_x ?n * vec_x ?n + vec_y ?n * vec_y ?n) * ov / 2)"
      unfolding mx my by (simp add: algebra_simps)
    then show ?thesis unfolding nn by simp
  qed
  have cb: "vec_x ?n * (vec_x mtv / 2) + vec_y ?n * (vec_y mtv / 2) = ov / 2"
  proof -
    have "vec_x ?n * (vec_x mtv / 2) + vec_y ?n * (vec_y mtv / 2)
        = (vec_x ?n * vec_x ?n + vec_y ?n * vec_y ?n) * ov / 2"
      unfolding mx my by (simp add: algebra_simps)
    then show ?thesis unfolding nn by simp
  qed
  have res: "overlapOn ?n (entityVerts ?a) (entityVerts ?b) = Inr 0"
    if h: "projectPolygon ?n (entityVerts a) = Inr pa \<and> projectPolygon ?n (entityVerts b) = Inr pb \<and>
          fst pa \<le> fst pb \<and> snd pa \<le> snd pb"
  proof -
    have pa: "projectPolygon ?n (entityVerts a) = Inr pa" and pb: "projectPolygon ?n (entityVerts b) = Inr pb"
      and st: "fst pa \<le> fst pb" "snd pa \<le> snd pb"
      using h by blast+
    have "ov = min (snd pa) (snd pb) - max (fst pa) (fst pb)"
      using ov(2) by (simp add: overlapOn_def pa pb)
    then have o: "ov = snd pa - fst pb" using st by (simp add: min_def max_def)
    have pa': "projectPolygon ?n (entityVerts ?a) = Inr (fst pa + - (ov / 2), snd pa + - (ov / 2))"
      unfolding va using projectPolygon_shift [OF pa, of "- (vec_x mtv / 2)" "- (vec_y mtv / 2)"]
      by (simp only: ca)
    have pb': "projectPolygon ?n (entityVerts ?b) = Inr (fst pb + ov / 2, snd pb + ov / 2)"
      unfolding vb using projectPolygon_shift [OF pb, of "vec_x mtv / 2" "vec_y mtv / 2"]
      by (simp only: cb)
    have "min (snd pa + - (ov / 2)) (snd pb + ov / 2) - max (fst pa + - (ov / 2)) (fst pb + ov / 2) = 0"
      using st ov(1) o by (auto simp add: min_def max_def field_simps)
    then show ?thesis
      unfolding overlapOn_def pa' pb' by simp
  qed
  show ?thesis
    using resolve_two [OF mtv] unit res by (simp add: separatePair_fields)
qed

lemma sqrt_1024: "sqrt 1024 = 32"
  by (rule real_sqrt_unique) simp_all

lemma cos_sin_arctan_34: "cos (arctan (3 / 4)) = 4 / 5" "sin (arctan (3 / 4)) = 3 / 5"
proof -
  have s: "sqrt (1 + (3 / 4)\<^sup>2) = 5 / 4"
    by (rule real_sqrt_unique) (simp_all add: power2_eq_square)
  show "cos (arctan (3 / 4)) = 4 / 5" "sin (arctan (3 / 4)) = 3 / 5"
    by (simp_all add: cos_arctan sin_arctan s)
qed

lemma polygonEdges_4: "polygonEdges [a, b, c, d] = [(a, b), (b, c), (c, d), (d, a)]"
  by (simp add: polygonEdges_def upt_rec [of 0 4] upt_rec [of 1 4] upt_rec [of 2 4] upt_rec [of 3 4])

lemma testAxesFrom_first:
  assumes "edgeNormal (fst e) (snd e) = axis"
    and "projectPolygon axis vA = Inr pa" and "projectPolygon axis vB = Inr pb"
    and "\<not> min (snd pa) (snd pb) - max (fst pa) (fst pb) \<le> 0"
  shows "testAxesFrom vA vB dir (e # es) None =
     testAxesFrom vA vB dir es
       (Some (min (snd pa) (snd pb) - max (fst pa) (fst pb),
              \<lparr>vec_x = vec_x axis * (if dot axis dir < 0 then - 1 else 1),
               vec_y = vec_y axis * (if dot axis dir < 0 then - 1 else 1)\<rparr>))"
  by (simp only: testAxesFrom.simps Let_def assms sum.case if_False if_True option.case)

lemma testAxesFrom_update:
  assumes "edgeNormal (fst e) (snd e) = axis"
    and "projectPolygon axis vA = Inr pa" and "projectPolygon axis vB = Inr pb"
    and "\<not> min (snd pa) (snd pb) - max (fst pa) (fst pb) \<le> 0"
    and "min (snd pa) (snd pb) - max (fst pa) (fst pb) < fst m"
  shows "testAxesFrom vA vB dir (e # es) (Some m) =
     testAxesFrom vA vB dir es
       (Some (min (snd pa) (snd pb) - max (fst pa) (fst pb),
              \<lparr>vec_x = vec_x axis * (if dot axis dir < 0 then - 1 else 1),
               vec_y = vec_y axis * (if dot axis dir < 0 then - 1 else 1)\<rparr>))"
  by (simp only: testAxesFrom.simps Let_def assms sum.case if_False if_True option.case)

lemma testAxesFrom_keep:
  assumes "edgeNormal (fst e) (snd e) = axis"
    and "projectPolygon axis vA = Inr pa" and "projectPolygon axis vB = Inr pb"
    and "\<not> min (snd pa) (snd pb) - max (fst pa) (fst pb) \<le> 0"
    and "\<not> min (snd pa) (snd pb) - max (fst pa) (fst pb) < fst m"
  shows "testAxesFrom vA vB dir (e # es) (Some m) = testAxesFrom vA vB dir es (Some m)"
  by (simp only: testAxesFrom.simps Let_def assms sum.case if_False if_True option.case)

lemma ce_vertsA: "entityVerts sqA = [\<lparr>vec_x = - 16, vec_y = - 16\<rparr>, \<lparr>vec_x = 16, vec_y = - 16\<rparr>, \<lparr>vec_x = 16, vec_y = 16\<rparr>, \<lparr>vec_x = - 16, vec_y = 16\<rparr>]"
  by (simp add: entityVerts_def sqA_def newEntity_def SQUARE_SIZE_def squareWorldVerts_def rot_def Let_def)

lemma ce_vertsB: "entityVerts sqB = [\<lparr>vec_x = - (16 / 5), vec_y = - (102 / 5)\<rparr>, \<lparr>vec_x = 112 / 5, vec_y = - (6 / 5)\<rparr>, \<lparr>vec_x = 16 / 5, vec_y = 122 / 5\<rparr>, \<lparr>vec_x = - (112 / 5), vec_y = 26 / 5\<rparr>]"
  by (simp add: entityVerts_def sqB_def newEntity_def SQUARE_SIZE_def squareWorldVerts_def rot_def Let_def cos_sin_arctan_34)

lemma ce_axis_A0: "edgeNormal \<lparr>vec_x = - 16, vec_y = - 16\<rparr> \<lparr>vec_x = 16, vec_y = - 16\<rparr> = \<lparr>vec_x = 0, vec_y = 1\<rparr>"
  by (simp add: edgeNormal_def normalize_v_def hypot_def sqrt_1024)

lemma ce_proj_A0_A: "projectPolygon \<lparr>vec_x = 0, vec_y = 1\<rparr> (entityVerts sqA) = Inr (- 16, 16)"
  unfolding ce_vertsA by (simp add: projectStep_def dot_def Let_def)

lemma ce_proj_A0_B: "projectPolygon \<lparr>vec_x = 0, vec_y = 1\<rparr> (entityVerts sqB) = Inr (- (102 / 5), 122 / 5)"
  unfolding ce_vertsB by (simp add: projectStep_def dot_def Let_def)

lemma ce_axis_A1: "edgeNormal \<lparr>vec_x = 16, vec_y = - 16\<rparr> \<lparr>vec_x = 16, vec_y = 16\<rparr> = \<lparr>vec_x = - 1, vec_y = 0\<rparr>"
  by (simp add: edgeNormal_def normalize_v_def hypot_def sqrt_1024)

lemma ce_proj_A1_A: "projectPolygon \<lparr>vec_x = - 1, vec_y = 0\<rparr> (entityVerts sqA) = Inr (- 16, 16)"
  unfolding ce_vertsA by (simp add: projectStep_def dot_def Let_def)

lemma ce_proj_A1_B: "projectPolygon \<lparr>vec_x = - 1, vec_y = 0\<rparr> (entityVerts sqB) = Inr (- (112 / 5), 112 / 5)"
  unfolding ce_vertsB by (simp add: projectStep_def dot_def Let_def)

lemma ce_axis_A2: "edgeNormal \<lparr>vec_x = 16, vec_y = 16\<rparr> \<lparr>vec_x = - 16, vec_y = 16\<rparr> = \<lparr>vec_x = 0, vec_y = - 1\<rparr>"
  by (simp add: edgeNormal_def normalize_v_def hypot_def sqrt_1024)

lemma ce_proj_A2_A: "projectPolygon \<lparr>vec_x = 0, vec_y = - 1\<rparr> (entityVerts sqA) = Inr (- 16, 16)"
  unfolding ce_vertsA by (simp add: projectStep_def dot_def Let_def)

lemma ce_proj_A2_B: "projectPolygon \<lparr>vec_x = 0, vec_y = - 1\<rparr> (entityVerts sqB) = Inr (- (122 / 5), 102 / 5)"
  unfolding ce_vertsB by (simp add: projectStep_def dot_def Let_def)

lemma ce_axis_A3: "edgeNormal \<lparr>vec_x = - 16, vec_y = 16\<rparr> \<lparr>vec_x = - 16, vec_y = - 16\<rparr> = \<lparr>vec_x = 1, vec_y = 0\<rparr>"
  by (simp add: edgeNormal_def normalize_v_def hypot_def sqrt_1024)

lemma ce_proj_A3_A: "projectPolygon \<lparr>vec_x = 1, vec_y = 0\<rparr> (entityVerts sqA) = Inr (- 16, 16)"
  unfolding ce_vertsA by (simp add: projectStep_def dot_def Let_def)

lemma ce_proj_A3_B: "projectPolygon \<lparr>vec_x = 1, vec_y = 0\<rparr> (entityVerts sqB) = Inr (- (112 / 5), 112 / 5)"
  unfolding ce_vertsB by (simp add: projectStep_def dot_def Let_def)

lemma ce_axis_B0: "edgeNormal \<lparr>vec_x = - (16 / 5), vec_y = - (102 / 5)\<rparr> \<lparr>vec_x = 112 / 5, vec_y = - (6 / 5)\<rparr> = \<lparr>vec_x = - (3 / 5), vec_y = 4 / 5\<rparr>"
  by (simp add: edgeNormal_def normalize_v_def hypot_def sqrt_1024)

lemma ce_proj_B0_A: "projectPolygon \<lparr>vec_x = - (3 / 5), vec_y = 4 / 5\<rparr> (entityVerts sqA) = Inr (- (112 / 5), 112 / 5)"
  unfolding ce_vertsA by (simp add: projectStep_def dot_def Let_def)

lemma ce_proj_B0_B: "projectPolygon \<lparr>vec_x = - (3 / 5), vec_y = 4 / 5\<rparr> (entityVerts sqB) = Inr (- (72 / 5), 88 / 5)"
  unfolding ce_vertsB by (simp add: projectStep_def dot_def Let_def)

lemma ce_axis_B1: "edgeNormal \<lparr>vec_x = 112 / 5, vec_y = - (6 / 5)\<rparr> \<lparr>vec_x = 16 / 5, vec_y = 122 / 5\<rparr> = \<lparr>vec_x = - (4 / 5), vec_y = - (3 / 5)\<rparr>"
  by (simp add: edgeNormal_def normalize_v_def hypot_def sqrt_1024)

lemma ce_proj_B1_A: "projectPolygon \<lparr>vec_x = - (4 / 5), vec_y = - (3 / 5)\<rparr> (entityVerts sqA) = Inr (- (112 / 5), 112 / 5)"
  unfolding ce_vertsA by (simp add: projectStep_def dot_def Let_def)

lemma ce_proj_B1_B: "projectPolygon \<lparr>vec_x = - (4 / 5), vec_y = - (3 / 5)\<rparr> (entityVerts sqB) = Inr (- (86 / 5), 74 / 5)"
  unfolding ce_vertsB by (simp add: projectStep_def dot_def Let_def)

lemma ce_axis_B2: "edgeNormal \<lparr>vec_x = 16 / 5, vec_y = 122 / 5\<rparr> \<lparr>vec_x = - (112 / 5), vec_y = 26 / 5\<rparr> = \<lparr>vec_x = 3 / 5, vec_y = - (4 / 5)\<rparr>"
  by (simp add: edgeNormal_def normalize_v_def hypot_def sqrt_1024)

lemma ce_proj_B2_A: "projectPolygon \<lparr>vec_x = 3 / 5, vec_y = - (4 / 5)\<rparr> (entityVerts sqA) = Inr (- (112 / 5), 112 / 5)"
  unfolding ce_vertsA by (simp add: projectStep_def dot_def Let_def)

lemma ce_proj_B2_B: "projectPolygon \<lparr>vec_x = 3 / 5, vec_y = - (4 / 5)\<rparr> (entityVerts sqB) = Inr (- (88 / 5), 72 / 5)"
  unfolding ce_vertsB by (simp add: projectStep_def dot_def Let_def)

lemma ce_axis_B3: "edgeNormal \<lparr>vec_x = - (112 / 5), vec_y = 26 / 5\<rparr> \<lparr>vec_x = - (16 / 5), vec_y = - (102 / 5)\<rparr> = \<lparr>vec_x = 4 / 5, vec_y = 3 / 5\<rparr>"
  by (simp add: edgeNormal_def normalize_v_def hypot_def sqrt_1024)

lemma ce_proj_B3_A: "projectPolygon \<lparr>vec_x = 4 / 5, vec_y = 3 / 5\<rparr> (entityVerts sqA) = Inr (- (112 / 5), 112 / 5)"
  unfolding ce_vertsA by (simp add: projectStep_def dot_def Let_def)

lemma ce_proj_B3_B: "projectPolygon \<lparr>vec_x = 4 / 5, vec_y = 3 / 5\<rparr> (entityVerts sqB) = Inr (- (74 / 5), 86 / 5)"
  unfolding ce_vertsB by (simp add: projectStep_def dot_def Let_def)

lemma ce_mtv:
  "satMTV (entityVerts sqA) (entityVerts sqB) 0 0 0 2 = Inr (Some \<lparr>vec_x = 0, vec_y = 32\<rparr>)"
proof -
  let ?A = "entityVerts sqA" and ?B = "entityVerts sqB"
  let ?dir = "\<lparr>vec_x = 0, vec_y = 2\<rparr> :: vec2"
  have a0: "testAxesFrom ?A ?B ?dir ((\<lparr>vec_x = - 16, vec_y = - 16\<rparr>, \<lparr>vec_x = 16, vec_y = - 16\<rparr>) # es) None
      = testAxesFrom ?A ?B ?dir es (Some (32, \<lparr>vec_x = 0, vec_y = 1\<rparr>))" for es
    by (subst testAxesFrom_first [OF _ ce_proj_A0_A ce_proj_A0_B])
      (simp_all add: ce_axis_A0 dot_def)
  have a1: "testAxesFrom ?A ?B ?dir ((\<lparr>vec_x = 16, vec_y = - 16\<rparr>, \<lparr>vec_x = 16, vec_y = 16\<rparr>) # es) (Some (32, \<lparr>vec_x = 0, vec_y = 1\<rparr>))
      = testAxesFrom ?A ?B ?dir es (Some (32, \<lparr>vec_x = 0, vec_y = 1\<rparr>))" for es
    by (subst testAxesFrom_keep [OF _ ce_proj_A1_A ce_proj_A1_B])
      (simp_all add: ce_axis_A1 dot_def)
  have a2: "testAxesFrom ?A ?B ?dir ((\<lparr>vec_x = 16, vec_y = 16\<rparr>, \<lparr>vec_x = - 16, vec_y = 16\<rparr>) # es) (Some (32, \<lparr>vec_x = 0, vec_y = 1\<rparr>))
      = testAxesFrom ?A ?B ?dir es (Some (32, \<lparr>vec_x = 0, vec_y = 1\<rparr>))" for es
    by (subst testAxesFrom_keep [OF _ ce_proj_A2_A ce_proj_A2_B])
      (simp_all add: ce_axis_A2 dot_def)
  have a3: "testAxesFrom ?A ?B ?dir ((\<lparr>vec_x = - 16, vec_y = 16\<rparr>, \<lparr>vec_x = - 16, vec_y = - 16\<rparr>) # es) (Some (32, \<lparr>vec_x = 0, vec_y = 1\<rparr>))
      = testAxesFrom ?A ?B ?dir es (Some (32, \<lparr>vec_x = 0, vec_y = 1\<rparr>))" for es
    by (subst testAxesFrom_keep [OF _ ce_proj_A3_A ce_proj_A3_B])
      (simp_all add: ce_axis_A3 dot_def)
  have b0: "testAxesFrom ?A ?B ?dir ((\<lparr>vec_x = - (16 / 5), vec_y = - (102 / 5)\<rparr>, \<lparr>vec_x = 112 / 5, vec_y = - (6 / 5)\<rparr>) # es) (Some (32, \<lparr>vec_x = 0, vec_y = 1\<rparr>))
      = testAxesFrom ?A ?B ?dir es (Some (32, \<lparr>vec_x = 0, vec_y = 1\<rparr>))" for es
    by (subst testAxesFrom_keep [OF _ ce_proj_B0_A ce_proj_B0_B])
      (simp_all add: ce_axis_B0 dot_def)
  have b1: "testAxesFrom ?A ?B ?dir ((\<lparr>vec_x = 112 / 5, vec_y = - (6 / 5)\<rparr>, \<lparr>vec_x = 16 / 5, vec_y = 122 / 5\<rparr>) # es) (Some (32, \<lparr>vec_x = 0, vec_y = 1\<rparr>))
      = testAxesFrom ?A ?B ?dir es (Some (32, \<lparr>vec_x = 0, vec_y = 1\<rparr>))" for es
    by (subst testAxesFrom_keep [OF _ ce_proj_B1_A ce_proj_B1_B])
      (simp_all add: ce_axis_B1 dot_def)
  have b2: "testAxesFrom ?A ?B ?dir ((\<lparr>vec_x = 16 / 5, vec_y = 122 / 5\<rparr>, \<lparr>vec_x = - (112 / 5), vec_y = 26 / 5\<rparr>) # es) (Some (32, \<lparr>vec_x = 0, vec_y = 1\<rparr>))
      = testAxesFrom ?A ?B ?dir es (Some (32, \<lparr>vec_x = 0, vec_y = 1\<rparr>))" for es
    by (subst testAxesFrom_keep [OF _ ce_proj_B2_A ce_proj_B2_B])
      (simp_all add: ce_axis_B2 dot_def)
  have b3: "testAxesFrom ?A ?B ?dir ((\<lparr>vec_x = - (112 / 5), vec_y = 26 / 5\<rparr>, \<lparr>vec_x = - (16 / 5), vec_y = - (102 / 5)\<rparr>) # es) (Some (32, \<lparr>vec_x = 0, vec_y = 1\<rparr>))
      = testAxesFrom ?A ?B ?dir es (Some (32, \<lparr>vec_x = 0, vec_y = 1\<rparr>))" for es
    by (subst testAxesFrom_keep [OF _ ce_proj_B3_A ce_proj_B3_B])
      (simp_all add: ce_axis_B3 dot_def)
  have eA: "polygonEdges ?A = [(\<lparr>vec_x = - 16, vec_y = - 16\<rparr>, \<lparr>vec_x = 16, vec_y = - 16\<rparr>), (\<lparr>vec_x = 16, vec_y = - 16\<rparr>, \<lparr>vec_x = 16, vec_y = 16\<rparr>), (\<lparr>vec_x = 16, vec_y = 16\<rparr>, \<lparr>vec_x = - 16, vec_y = 16\<rparr>), (\<lparr>vec_x = - 16, vec_y = 16\<rparr>, \<lparr>vec_x = - 16, vec_y = - 16\<rparr>)]"
    unfolding ce_vertsA polygonEdges_4 by (rule refl)
  have eB: "polygonEdges ?B = [(\<lparr>vec_x = - (16 / 5), vec_y = - (102 / 5)\<rparr>, \<lparr>vec_x = 112 / 5, vec_y = - (6 / 5)\<rparr>), (\<lparr>vec_x = 112 / 5, vec_y = - (6 / 5)\<rparr>, \<lparr>vec_x = 16 / 5, vec_y = 122 / 5\<rparr>), (\<lparr>vec_x = 16 / 5, vec_y = 122 / 5\<rparr>, \<lparr>vec_x = - (112 / 5), vec_y = 26 / 5\<rparr>), (\<lparr>vec_x = - (112 / 5), vec_y = 26 / 5\<rparr>, \<lparr>vec_x = - (16 / 5), vec_y = - (102 / 5)\<rparr>)]"
    unfolding ce_vertsB polygonEdges_4 by (rule refl)
  have 1: "testAxesFrom ?A ?B ?dir (polygonEdges ?A) None = Inr (Overlapping (Some (32, \<lparr>vec_x = 0, vec_y = 1\<rparr>)))"
    unfolding eA a0 a1 a2 a3 by simp
  have 2: "testAxesFrom ?A ?B ?dir (polygonEdges ?B) (Some (32, \<lparr>vec_x = 0, vec_y = 1\<rparr>)) = Inr (Overlapping (Some (32, \<lparr>vec_x = 0, vec_y = 1\<rparr>)))"
    unfolding eB b0 b1 b2 b3 by simp
  show ?thesis
    using 1 2 by (simp add: satMTV_def Let_def)
qed

lemma wi_vertsA: "entityVerts sqA = [\<lparr>vec_x = - 16, vec_y = - 16\<rparr>, \<lparr>vec_x = 16, vec_y = - 16\<rparr>, \<lparr>vec_x = 16, vec_y = 16\<rparr>, \<lparr>vec_x = - 16, vec_y = 16\<rparr>]"
  by (simp add: entityVerts_def sqA_def newEntity_def SQUARE_SIZE_def squareWorldVerts_def rot_def Let_def)

lemma wi_vertsB: "entityVerts sqC = [\<lparr>vec_x = 4, vec_y = - 16\<rparr>, \<lparr>vec_x = 36, vec_y = - 16\<rparr>, \<lparr>vec_x = 36, vec_y = 16\<rparr>, \<lparr>vec_x = 4, vec_y = 16\<rparr>]"
  by (simp add: entityVerts_def sqC_def newEntity_def SQUARE_SIZE_def squareWorldVerts_def rot_def Let_def)

lemma wi_axis_A0: "edgeNormal \<lparr>vec_x = - 16, vec_y = - 16\<rparr> \<lparr>vec_x = 16, vec_y = - 16\<rparr> = \<lparr>vec_x = 0, vec_y = 1\<rparr>"
  by (simp add: edgeNormal_def normalize_v_def hypot_def sqrt_1024)

lemma wi_proj_A0_A: "projectPolygon \<lparr>vec_x = 0, vec_y = 1\<rparr> (entityVerts sqA) = Inr (- 16, 16)"
  unfolding wi_vertsA by (simp add: projectStep_def dot_def Let_def)

lemma wi_proj_A0_B: "projectPolygon \<lparr>vec_x = 0, vec_y = 1\<rparr> (entityVerts sqC) = Inr (- 16, 16)"
  unfolding wi_vertsB by (simp add: projectStep_def dot_def Let_def)

lemma wi_axis_A1: "edgeNormal \<lparr>vec_x = 16, vec_y = - 16\<rparr> \<lparr>vec_x = 16, vec_y = 16\<rparr> = \<lparr>vec_x = - 1, vec_y = 0\<rparr>"
  by (simp add: edgeNormal_def normalize_v_def hypot_def sqrt_1024)

lemma wi_proj_A1_A: "projectPolygon \<lparr>vec_x = - 1, vec_y = 0\<rparr> (entityVerts sqA) = Inr (- 16, 16)"
  unfolding wi_vertsA by (simp add: projectStep_def dot_def Let_def)

lemma wi_proj_A1_B: "projectPolygon \<lparr>vec_x = - 1, vec_y = 0\<rparr> (entityVerts sqC) = Inr (- 36, - 4)"
  unfolding wi_vertsB by (simp add: projectStep_def dot_def Let_def)

lemma wi_axis_A2: "edgeNormal \<lparr>vec_x = 16, vec_y = 16\<rparr> \<lparr>vec_x = - 16, vec_y = 16\<rparr> = \<lparr>vec_x = 0, vec_y = - 1\<rparr>"
  by (simp add: edgeNormal_def normalize_v_def hypot_def sqrt_1024)

lemma wi_proj_A2_A: "projectPolygon \<lparr>vec_x = 0, vec_y = - 1\<rparr> (entityVerts sqA) = Inr (- 16, 16)"
  unfolding wi_vertsA by (simp add: projectStep_def dot_def Let_def)

lemma wi_proj_A2_B: "projectPolygon \<lparr>vec_x = 0, vec_y = - 1\<rparr> (entityVerts sqC) = Inr (- 16, 16)"
  unfolding wi_vertsB by (simp add: projectStep_def dot_def Let_def)

lemma wi_axis_A3: "edgeNormal \<lparr>vec_x = - 16, vec_y = 16\<rparr> \<lparr>vec_x = - 16, vec_y = - 16\<rparr> = \<lparr>vec_x = 1, vec_y = 0\<rparr>"
  by (simp add: edgeNormal_def normalize_v_def hypot_def sqrt_1024)

lemma wi_proj_A3_A: "projectPolygon \<lparr>vec_x = 1, vec_y = 0\<rparr> (entityVerts sqA) = Inr (- 16, 16)"
  unfolding wi_vertsA by (simp add: projectStep_def dot_def Let_def)

lemma wi_proj_A3_B: "projectPolygon \<lparr>vec_x = 1, vec_y = 0\<rparr> (entityVerts sqC) = Inr (4, 36)"
  unfolding wi_vertsB by (simp add: projectStep_def dot_def Let_def)

lemma wi_axis_B0: "edgeNormal \<lparr>vec_x = 4, vec_y = - 16\<rparr> \<lparr>vec_x = 36, vec_y = - 16\<rparr> = \<lparr>vec_x = 0, vec_y = 1\<rparr>"
  by (simp add: edgeNormal_def normalize_v_def hypot_def sqrt_1024)

lemma wi_proj_B0_A: "projectPolygon \<lparr>vec_x = 0, vec_y = 1\<rparr> (entityVerts sqA) = Inr (- 16, 16)"
  unfolding wi_vertsA by (simp add: projectStep_def dot_def Let_def)

lemma wi_proj_B0_B: "projectPolygon \<lparr>vec_x = 0, vec_y = 1\<rparr> (entityVerts sqC) = Inr (- 16, 16)"
  unfolding wi_vertsB by (simp add: projectStep_def dot_def Let_def)

lemma wi_axis_B1: "edgeNormal \<lparr>vec_x = 36, vec_y = - 16\<rparr> \<lparr>vec_x = 36, vec_y = 16\<rparr> = \<lparr>vec_x = - 1, vec_y = 0\<rparr>"
  by (simp add: edgeNormal_def normalize_v_def hypot_def sqrt_1024)

lemma wi_proj_B1_A: "projectPolygon \<lparr>vec_x = - 1, vec_y = 0\<rparr> (entityVerts sqA) = Inr (- 16, 16)"
  unfolding wi_vertsA by (simp add: projectStep_def dot_def Let_def)

lemma wi_proj_B1_B: "projectPolygon \<lparr>vec_x = - 1, vec_y = 0\<rparr> (entityVerts sqC) = Inr (- 36, - 4)"
  unfolding wi_vertsB by (simp add: projectStep_def dot_def Let_def)

lemma wi_axis_B2: "edgeNormal \<lparr>vec_x = 36, vec_y = 16\<rparr> \<lparr>vec_x = 4, vec_y = 16\<rparr> = \<lparr>vec_x = 0, vec_y = - 1\<rparr>"
  by (simp add: edgeNormal_def normalize_v_def hypot_def sqrt_1024)

lemma wi_proj_B2_A: "projectPolygon \<lparr>vec_x = 0, vec_y = - 1\<rparr> (entityVerts sqA) = Inr (- 16, 16)"
  unfolding wi_vertsA by (simp add: projectStep_def dot_def Let_def)

lemma wi_proj_B2_B: "projectPolygon \<lparr>vec_x = 0, vec_y = - 1\<rparr> (entityVerts sqC) = Inr (- 16, 16)"
  unfolding wi_vertsB by (simp add: projectStep_def dot_def Let_def)

lemma wi_axis_B3: "edgeNormal \<lparr>vec_x = 4, vec_y = 16\<rparr> \<lparr>vec_x = 4, vec_y = - 16\<rparr> = \<lparr>vec_x = 1, vec_y = 0\<rparr>"
  by (simp add: edgeNormal_def normalize_v_def hypot_def sqrt_1024)

lemma wi_proj_B3_A: "projectPolygon \<lparr>vec_x = 1, vec_y = 0\<rparr> (entityVerts sqA) = Inr (- 16, 16)"
  unfolding wi_vertsA by (simp add: projectStep_def dot_def Let_def)

lemma wi_proj_B3_B: "projectPolygon \<lparr>vec_x = 1, vec_y = 0\<rparr> (entityVerts sqC) = Inr (4, 36)"
  unfolding wi_vertsB by (simp add: projectStep_def dot_def Let_def)

lemma wi_mtv:
  "satMTV (entityVerts sqA) (entityVerts sqC) 0 0 20 0 = Inr (Some \<lparr>vec_x = 12, vec_y = 0\<rparr>)"
proof -
  let ?A = "entityVerts sqA" and ?B = "entityVerts sqC"
  let ?dir = "\<lparr>vec_x = 20, vec_y = 0\<rparr> :: vec2"
  have a0: "testAxesFrom ?A ?B ?dir ((\<lparr>vec_x = - 16, vec_y = - 16\<rparr>, \<lparr>vec_x = 16, vec_y = - 16\<rparr>) # es) None
      = testAxesFrom ?A ?B ?dir es (Some (32, \<lparr>vec_x = 0, vec_y = 1\<rparr>))" for es
    by (subst testAxesFrom_first [OF _ wi_proj_A0_A wi_proj_A0_B])
      (simp_all add: wi_axis_A0 dot_def)
  have a1: "testAxesFrom ?A ?B ?dir ((\<lparr>vec_x = 16, vec_y = - 16\<rparr>, \<lparr>vec_x = 16, vec_y = 16\<rparr>) # es) (Some (32, \<lparr>vec_x = 0, vec_y = 1\<rparr>))
      = testAxesFrom ?A ?B ?dir es (Some (12, \<lparr>vec_x = 1, vec_y = 0\<rparr>))" for es
    by (subst testAxesFrom_update [OF _ wi_proj_A1_A wi_proj_A1_B])
      (simp_all add: wi_axis_A1 dot_def)
  have a2: "testAxesFrom ?A ?B ?dir ((\<lparr>vec_x = 16, vec_y = 16\<rparr>, \<lparr>vec_x = - 16, vec_y = 16\<rparr>) # es) (Some (12, \<lparr>vec_x = 1, vec_y = 0\<rparr>))
      = testAxesFrom ?A ?B ?dir es (Some (12, \<lparr>vec_x = 1, vec_y = 0\<rparr>))" for es
    by (subst testAxesFrom_keep [OF _ wi_proj_A2_A wi_proj_A2_B])
      (simp_all add: wi_axis_A2 dot_def)
  have a3: "testAxesFrom ?A ?B ?dir ((\<lparr>vec_x = - 16, vec_y = 16\<rparr>, \<lparr>vec_x = - 16, vec_y = - 16\<rparr>) # es) (Some (12, \<lparr>vec_x = 1, vec_y = 0\<rparr>))
      = testAxesFrom ?A ?B ?dir es (Some (12, \<lparr>vec_x = 1, vec_y = 0\<rparr>))" for es
    by (subst testAxesFrom_keep [OF _ wi_proj_A3_A wi_proj_A3_B])
      (simp_all add: wi_axis_A3 dot_def)
  have b0: "testAxesFrom ?A ?B ?dir ((\<lparr>vec_x = 4, vec_y = - 16\<rparr>, \<lparr>vec_x = 36, vec_y = - 16\<rparr>) # es) (Some (12, \<lparr>vec_x = 1, vec_y = 0\<rparr>))
      = testAxesFrom ?A ?B ?dir es (Some (12, \<lparr>vec_x = 1, vec_y = 0\<rparr>))" for es
    by (subst testAxesFrom_keep [OF _ wi_proj_B0_A wi_proj_B0_B])
      (simp_all add: wi_axis_B0 dot_def)
  have b1: "testAxesFrom ?A ?B ?dir ((\<lparr>vec_x = 36, vec_y = - 16\<rparr>, \<lparr>vec_x = 36, vec_y = 16\<rparr>) # es) (Some (12, \<lparr>vec_x = 1, vec_y = 0\<rparr>))
      = testAxesFrom ?A ?B ?dir es (Some (12, \<lparr>vec_x = 1, vec_y = 0\<rparr>))" for es
    by (subst testAxesFrom_keep [OF _ wi_proj_B1_A wi_proj_B1_B])
      (simp_all add: wi_axis_B1 dot_def)
  have b2: "testAxesFrom ?A ?B ?dir ((\<lparr>vec_x = 36, vec_y = 16\<rparr>, \<lparr>vec_x = 4, vec_y = 16\<rparr>) # es) (Some (12, \<lparr>vec_x = 1, vec_y = 0\<rparr>))
      = testAxesFrom ?A ?B ?dir es (Some (12, \<lparr>vec_x = 1, vec_y = 0\<rparr>))" for es
    by (subst testAxesFrom_keep [OF _ wi_proj_B2_A wi_proj_B2_B])
      (simp_all add: wi_axis_B2 dot_def)
  have b3: "testAxesFrom ?A ?B ?dir ((\<lparr>vec_x = 4, vec_y = 16\<rparr>, \<lparr>vec_x = 4, vec_y = - 16\<rparr>) # es) (Some (12, \<lparr>vec_x = 1, vec_y = 0\<rparr>))
      = testAxesFrom ?A ?B ?dir es (Some (12, \<lparr>vec_x = 1, vec_y = 0\<rparr>))" for es
    by (subst testAxesFrom_keep [OF _ wi_proj_B3_A wi_proj_B3_B])
      (simp_all add: wi_axis_B3 dot_def)
  have eA: "polygonEdges ?A = [(\<lparr>vec_x = - 16, vec_y = - 16\<rparr>, \<lparr>vec_x = 16, vec_y = - 16\<rparr>), (\<lparr>vec_x = 16, vec_y = - 16\<rparr>, \<lparr>vec_x = 16, vec_y = 16\<rparr>), (\<lparr>vec_x = 16, vec_y = 16\<rparr>, \<lparr>vec_x = - 16, vec_y = 16\<rparr>), (\<lparr>vec_x = - 16, vec_y = 16\<rparr>, \<lparr>vec_x = - 16, vec_y = - 16\<rparr>)]"
    unfolding wi_vertsA polygonEdges_4 by (rule refl)
  have eB: "polygonEdges ?B = [(\<lparr>vec_x = 4, vec_y = - 16\<rparr>, \<lparr>vec_x = 36, vec_y = - 16\<rparr>), (\<lparr>vec_x = 36, vec_y = - 16\<rparr>, \<lparr>vec_x = 36, vec_y = 16\<rparr>), (\<lparr>vec_x = 36, vec_y = 16\<rparr>, \<lparr>vec_x = 4, vec_y = 16\<rparr>), (\<lparr>vec_x = 4, vec_y = 16\<rparr>, \<lparr>vec_x = 4, vec_y = - 16\<rparr>)]"
    unfolding wi_vertsB polygonEdges_4 by (rule refl)
  have 1: "testAxesFrom ?A ?B ?dir (polygonEdges ?A) None = Inr (Overlapping (Some (12, \<lparr>vec_x = 1, vec_y = 0\<rparr>)))"
    unfolding eA a0 a1 a2 a3 by simp
  have 2: "testAxesFrom ?A ?B ?dir (polygonEdges ?B) (Some (12, \<lparr>vec_x = 1, vec_y = 0\<rparr>)) = Inr (Overlapping (Some (12, \<lparr>vec_x = 1, vec_y = 0\<rparr>)))"
    unfolding eB b0 b1 b2 b3 by simp
  show ?thesis
    using 1 2 by (simp add: satMTV_def Let_def)
qed



lemma moved_overlap:
  assumes pa: "projectPolygon axis (entityVerts a) = Inr pa"
    and pb: "projectPolygon axis (entityVerts b) = Inr pb"
  shows "overlapOn axis (entityVerts (fst (separatePair mtv a b))) (entityVerts (snd (separatePair mtv a b)))
     = Inr (min (snd pa + (vec_x axis * - (vec_x mtv / 2) + vec_y axis * - (vec_y mtv / 2)))
                (snd pb + (vec_x axis * (vec_x mtv / 2) + vec_y axis * (vec_y mtv / 2)))
            - max (fst pa + (vec_x axis * - (vec_x mtv / 2) + vec_y axis * - (vec_y mtv / 2)))
                  (fst pb + (vec_x axis * (vec_x mtv / 2) + vec_y axis * (vec_y mtv / 2))))"
proof -
  have va: "entityVerts (fst (separatePair mtv a b))
      = map (\<lambda>w. \<lparr>vec_x = vec_x w + - (vec_x mtv / 2), vec_y = vec_y w + - (vec_y mtv / 2)\<rparr>) (entityVerts a)"
    by (rule entityVerts_translate) (simp_all add: separatePair_fields)
  have vb: "entityVerts (snd (separatePair mtv a b))
      = map (\<lambda>w. \<lparr>vec_x = vec_x w + vec_x mtv / 2, vec_y = vec_y w + vec_y mtv / 2\<rparr>) (entityVerts b)"
    by (rule entityVerts_translate) (simp_all add: separatePair_fields)
  show ?thesis
    unfolding overlapOn_def va vb projectPolygon_shift [OF pa] projectPolygon_shift [OF pb]
    by simp
qed

text \<open>
  Claim C7 at a failing input. For the square at the origin and the square two pixels
  below it that is turned by \<open>arctan (3/4)\<close>, the projection of the first on the axis
  (0, 1) lies inside that of the second; \<open>satMTV\<close> takes the length of the intersection
  of the two projections, 32, for the depth of the penetration and returns the MTV
  (0, 32). After \<open>resolveEntityEntityCollisions\<close> has moved both squares by half of it,
  the pair is not separated: the projections on the MTV axis still overlap by 22/5.
\<close>

theorem resolve_residual_overlap_counterexample:
  "satMTV (entityVerts sqA) (entityVerts sqB) (vec_x (e_pos sqA)) (vec_y (e_pos sqA))
     (vec_x (e_pos sqB)) (vec_y (e_pos sqB)) = Inr (Some \<lparr>vec_x = 0, vec_y = 32\<rparr>) \<and>
   resolveEntityEntityCollisions [sqA, sqB]
     = Inr [fst (separatePair \<lparr>vec_x = 0, vec_y = 32\<rparr> sqA sqB),
            snd (separatePair \<lparr>vec_x = 0, vec_y = 32\<rparr> sqA sqB)] \<and>
   normalize_v \<lparr>vec_x = 0, vec_y = 32\<rparr> = \<lparr>vec_x = 0, vec_y = 1\<rparr> \<and>
   overlapOn \<lparr>vec_x = 0, vec_y = 1\<rparr>
     (entityVerts (fst (separatePair \<lparr>vec_x = 0, vec_y = 32\<rparr> sqA sqB)))
     (entityVerts (snd (separatePair \<lparr>vec_x = 0, vec_y = 32\<rparr> sqA sqB))) = Inr (22 / 5) \<and>
   (0 :: real) < 22 / 5"
proof -
  have p: "e_pos sqA = \<lparr>vec_x = 0, vec_y = 0\<rparr>" "e_pos sqB = \<lparr>vec_x = 0, vec_y = 2\<rparr>"
    by (simp_all add: sqA_def sqB_def newEntity_def)
  have m: "satMTV (entityVerts sqA) (entityVerts sqB) (vec_x (e_pos sqA)) (vec_y (e_pos sqA))
     (vec_x (e_pos sqB)) (vec_y (e_pos sqB)) = Inr (Some \<lparr>vec_x = 0, vec_y = 32\<rparr>)"
    unfolding p using ce_mtv by simp
  have n: "normalize_v \<lparr>vec_x = 0, vec_y = 32\<rparr> = \<lparr>vec_x = 0, vec_y = 1\<rparr>"
    by (simp add: normalize_v_def hypot_zero_left)
  show ?thesis
    using m resolve_two [OF m] n
      moved_overlap [OF ce_proj_A0_A ce_proj_A0_B, of "\<lparr>vec_x = 0, vec_y = 32\<rparr>"]
    by simp
qed


theorem resolve_two_entities_witness:
  "satMTV (entityVerts sqA) (entityVerts sqC) (vec_x (e_pos sqA)) (vec_y (e_pos sqA))
     (vec_x (e_pos sqC)) (vec_y (e_pos sqC)) = Inr (Some \<lparr>vec_x = 12, vec_y = 0\<rparr>) \<and>
   resolveEntityEntityCollisions [sqA, sqC]
     = Inr [fst (separatePair \<lparr>vec_x = 12, vec_y = 0\<rparr> sqA sqC),
            snd (separatePair \<lparr>vec_x = 12, vec_y = 0\<rparr> sqA sqC)] \<and>
   e_pos (fst (separatePair \<lparr>vec_x = 12, vec_y = 0\<rparr> sqA sqC)) = \<lparr>vec_x = - 6, vec_y = 0\<rparr> \<and>
   e_pos (snd (separatePair \<lparr>vec_x = 12, vec_y = 0\<rparr> sqA sqC)) = \<lparr>vec_x = 26, vec_y = 0\<rparr> \<and>
   e_kick (fst (separatePair \<lparr>vec_x = 12, vec_y = 0\<rparr> sqA sqC)) = \<lparr>vec_x = - 120, vec_y = 0\<rparr> \<and>
   e_kick (snd (separatePair \<lparr>vec_x = 12, vec_y = 0\<rparr> sqA sqC)) = \<lparr>vec_x = 120, vec_y = 0\<rparr> \<and>
   projectPolygon \<lparr>vec_x = 1, vec_y = 0\<rparr> (entityVerts sqA) = Inr (- 16, 16) \<and>
   projectPolygon \<lparr>vec_x = 1, vec_y = 0\<rparr> (entityVerts sqC) = Inr (4, 36) \<and>
   overlapOn \<lparr>vec_x = 1, vec_y = 0\<rparr>
     (entityVerts (fst (separatePair \<lparr>vec_x = 12, vec_y = 0\<rparr> sqA sqC)))
     (entityVerts (snd (separatePair \<lparr>vec_x = 12, vec_y = 0\<rparr> sqA sqC))) = Inr 0"
proof -
  have p: "e_pos sqA = \<lparr>vec_x = 0, vec_y = 0\<rparr>" "e_pos sqC = \<lparr>vec_x = 20, vec_y = 0\<rparr>"
    "e_kick sqA = \<lparr>vec_x = 0, vec_y = 0\<rparr>" "e_kick sqC = \<lparr>vec_x = 0, vec_y = 0\<rparr>"
    by (simp_all add: sqA_def sqC_def newEntity_def)
  have m: "satMTV (entityVerts sqA) (entityVerts sqC) (vec_x (e_pos sqA)) (vec_y (e_pos sqA))
     (vec_x (e_pos sqC)) (vec_y (e_pos sqC)) = Inr (Some \<lparr>vec_x = 12, vec_y = 0\<rparr>)"
    unfolding p using wi_mtv by simp
  have n: "normalize_v \<lparr>vec_x = 12, vec_y = 0\<rparr> = \<lparr>vec_x = 1, vec_y = 0\<rparr>"
    by (simp add: normalize_v_def hypot_zero_right)
  show ?thesis
    using m resolve_two_entities [OF m, where pa = "(- 16, 16)" and pb = "(4, 36)"]
      wi_proj_A3_A wi_proj_A3_B
    unfolding n by (simp add: p)
qed

subsection \<open>Cells scanned for a bullet\<close>

lemma floor_div_near:
  fixes x y c :: real
  assumes c: "0 < c" and d: "\<bar>x - y\<bar> \<le> c"
  shows "\<bar>\<lfloor>x / c\<rfloor> - \<lfloor>y / c\<rfloor>\<bar> \<le> 1"
proof -
  have "x / c \<le> y / c + 1" "y / c \<le> x / c + 1"
    using c d by (simp_all add: field_simps abs_le_iff)
  then have "\<lfloor>x / c\<rfloor> \<le> \<lfloor>y / c + 1\<rfloor>" "\<lfloor>y / c\<rfloor> \<le> \<lfloor>x / c + 1\<rfloor>"
    by (simp_all only: floor_mono)
  then show ?thesis by simp
qed

lemma abs_le_of_squares:
  fixes dx dy r :: real
  assumes "dx * dx + dy * dy \<le> r * r" and "0 \<le> r"
  shows "\<bar>dx\<bar> \<le> r" "\<bar>dy\<bar> \<le> r"
proof -
  have "dx * dx \<le> r * r" "dy * dy \<le> r * r"
    using assms(1) zero_le_square [of dx] zero_le_square [of dy] by linarith+
  then have "dx\<^sup>2 \<le> r\<^sup>2" "dy\<^sup>2 \<le> r\<^sup>2"
    by (simp_all add: power2_eq_square)
  then show "\<bar>dx\<bar> \<le> r" "\<bar>dy\<bar> \<le> r"
    using assms(2) by (simp_all add: abs_le_square_iff [symmetric])
qed

lemma convex2_bound:
  fixes A B t R :: real
  assumes "0 \<le> t" "t \<le> 1" "\<bar>A\<bar> \<le> R" "\<bar>B\<bar> \<le> R"
  shows "\<bar>A + (B - A) * t\<bar> \<le> R"
proof -
  have e: "A + (B - A) * t = (1 - t) * A + t * B" by (simp add: algebra_simps)
  have "\<bar>(1 - t) * A + t * B\<bar> \<le> \<bar>(1 - t) * A\<bar> + \<bar>t * B\<bar>" by (rule abs_triangle_ineq)
  also have "\<dots> = (1 - t) * \<bar>A\<bar> + t * \<bar>B\<bar>" using assms(1,2) by (simp add: abs_mult)
  also have "\<dots> \<le> (1 - t) * R + t * R"
    using assms by (intro add_mono mult_left_mono) simp_all
  also have "\<dots> = R" by (simp add: algebra_simps)
  finally show ?thesis unfolding e .
qed

lemma convex3_bound:
  fixes A B C u v R :: real
  assumes "0 \<le> u" "0 \<le> v" "u + v \<le> 1" "\<bar>A\<bar> \<le> R" "\<bar>B\<bar> \<le> R" "\<bar>C\<bar> \<le> R"
  shows "\<bar>A + u * (C - A) + v * (B - A)\<bar> \<le> R"
proof -
  have e: "A + u * (C - A) + v * (B - A) = (1 - u - v) * A + u * C + v * B" by (simp add: algebra_simps)
  have "\<bar>(1 - u - v) * A + u * C + v * B\<bar> \<le> \<bar>(1 - u - v) * A\<bar> + \<bar>u * C\<bar> + \<bar>v * B\<bar>"
    by (intro order_trans [OF abs_triangle_ineq] add_mono order_refl abs_triangle_ineq)
  also have "\<dots> = (1 - u - v) * \<bar>A\<bar> + u * \<bar>C\<bar> + v * \<bar>B\<bar>" using assms(1-3) by (simp add: abs_mult)
  also have "\<dots> \<le> (1 - u - v) * R + u * R + v * R"
    using assms by (intro add_mono mult_left_mono) simp_all
  also have "\<dots> = R" by (simp add: algebra_simps)
  finally show ?thesis unfolding e .
qed

lemma closestPointOnSegment_bound:
  assumes "\<bar>vec_x a - px\<bar> \<le> R" "\<bar>vec_x b - px\<bar> \<le> R" "\<bar>vec_y a - py\<bar> \<le> R" "\<bar>vec_y b - py\<bar> \<le> R"
  shows "\<bar>vec_x (closestPointOnSegment p a b) - px\<bar> \<le> R \<and> \<bar>vec_y (closestPointOnSegment p a b) - py\<bar> \<le> R"
proof -
  define t where "t = (if (vec_x b - vec_x a) * (vec_x b - vec_x a) + (vec_y b - vec_y a) * (vec_y b - vec_y a) > 0
      then max 0 (min 1 (((vec_x p - vec_x a) * (vec_x b - vec_x a) + (vec_y p - vec_y a) * (vec_y b - vec_y a))
         / ((vec_x b - vec_x a) * (vec_x b - vec_x a) + (vec_y b - vec_y a) * (vec_y b - vec_y a)))) else 0)"
  have t: "0 \<le> t" "t \<le> 1" by (simp_all add: t_def)
  have q: "closestPointOnSegment p a b
      = \<lparr>vec_x = vec_x a + (vec_x b - vec_x a) * t, vec_y = vec_y a + (vec_y b - vec_y a) * t\<rparr>"
    unfolding closestPointOnSegment_def Let_def t_def by (rule refl)
  have x: "\<bar>(vec_x a - px) + ((vec_x b - px) - (vec_x a - px)) * t\<bar> \<le> R"
    by (rule convex2_bound [OF t assms(1,2)])
  have y: "\<bar>(vec_y a - py) + ((vec_y b - py) - (vec_y a - py)) * t\<bar> \<le> R"
    by (rule convex2_bound [OF t assms(3,4)])
  have e: "(vec_x a - px) + ((vec_x b - px) - (vec_x a - px)) * t = vec_x a + (vec_x b - vec_x a) * t - px"
    "(vec_y a - py) + ((vec_y b - py) - (vec_y a - py)) * t = vec_y a + (vec_y b - vec_y a) * t - py"
    by (simp_all add: algebra_simps)
  show ?thesis using x y unfolding q e by (simp only: vec2.simps simp_thms)
qed


lemma barycentric_identity:
  fixes v0x v0y v1x v1y v2x v2y :: real
  shows "(v0x * v0x + v0y * v0y) * (v1x * v1x + v1y * v1y) * v2x
           - (v0x * v1x + v0y * v1y) * (v0x * v1x + v0y * v1y) * v2x
       = ((v1x * v1x + v1y * v1y) * (v0x * v2x + v0y * v2y)
            - (v0x * v1x + v0y * v1y) * (v1x * v2x + v1y * v2y)) * v0x
         + ((v0x * v0x + v0y * v0y) * (v1x * v2x + v1y * v2y)
            - (v0x * v1x + v0y * v1y) * (v0x * v2x + v0y * v2y)) * v1x"
    and "(v0x * v0x + v0y * v0y) * (v1x * v1x + v1y * v1y) * v2y
           - (v0x * v1x + v0y * v1y) * (v0x * v1x + v0y * v1y) * v2y
       = ((v1x * v1x + v1y * v1y) * (v0x * v2x + v0y * v2y)
            - (v0x * v1x + v0y * v1y) * (v1x * v2x + v1y * v2y)) * v0y
         + ((v0x * v0x + v0y * v0y) * (v1x * v2x + v1y * v2y)
            - (v0x * v1x + v0y * v1y) * (v0x * v2x + v0y * v2y)) * v1y"
  by algebra+

lemma pointInTriangle_bound:
  assumes pit: "pointInTriangle p a b c"
    and den: "1 / 100000000 \<le>
        ((vec_x c - vec_x a) * (vec_x c - vec_x a) + (vec_y c - vec_y a) * (vec_y c - vec_y a))
        * ((vec_x b - vec_x a) * (vec_x b - vec_x a) + (vec_y b - vec_y a) * (vec_y b - vec_y a))
        - ((vec_x c - vec_x a) * (vec_x b - vec_x a) + (vec_y c - vec_y a) * (vec_y b - vec_y a))
        * ((vec_x c - vec_x a) * (vec_x b - vec_x a) + (vec_y c - vec_y a) * (vec_y b - vec_y a))"
    and hx: "\<bar>vec_x a - px\<bar> \<le> R" "\<bar>vec_x b - px\<bar> \<le> R" "\<bar>vec_x c - px\<bar> \<le> R"
    and hy: "\<bar>vec_y a - py\<bar> \<le> R" "\<bar>vec_y b - py\<bar> \<le> R" "\<bar>vec_y c - py\<bar> \<le> R"
  shows "\<bar>vec_x p - px\<bar> \<le> R \<and> \<bar>vec_y p - py\<bar> \<le> R"
proof -
  define v0x v0y v1x v1y v2x v2y where v: "v0x = vec_x c - vec_x a" "v0y = vec_y c - vec_y a"
    "v1x = vec_x b - vec_x a" "v1y = vec_y b - vec_y a" "v2x = vec_x p - vec_x a" "v2y = vec_y p - vec_y a"
  define D where "D = (v0x * v0x + v0y * v0y) * (v1x * v1x + v1y * v1y)
      - (v0x * v1x + v0y * v1y) * (v0x * v1x + v0y * v1y)"
  define U where "U = (v1x * v1x + v1y * v1y) * (v0x * v2x + v0y * v2y)
            - (v0x * v1x + v0y * v1y) * (v1x * v2x + v1y * v2y)"
  define V where "V = (v0x * v0x + v0y * v0y) * (v1x * v2x + v1y * v2y)
            - (v0x * v1x + v0y * v1y) * (v0x * v2x + v0y * v2y)"
  have D: "1 / 100000000 \<le> D" using den unfolding D_def v .
  then have Dpos: "0 < D" by simp
  have mx: "max (1 / 100000000) D = D" using D by simp
  have pit': "U * (1 / D) \<ge> 0 \<and> V * (1 / D) \<ge> 0 \<and> U * (1 / D) + V * (1 / D) \<le> 1"
    using pit unfolding pointInTriangle_def Let_def v [symmetric] D_def [symmetric] U_def [symmetric]
      V_def [symmetric] mx .
  define u w where "u = U * (1 / D)" and "w = V * (1 / D)"
  have uw: "0 \<le> u" "0 \<le> w" "u + w \<le> 1" using pit' by (simp_all add: u_def w_def)
  have ix: "D * v2x = U * v0x + V * v1x" and iy: "D * v2y = U * v0y + V * v1y"
    unfolding D_def U_def V_def
    using barycentric_identity [of v0x v0y v1x v1y v2x v2y] by (simp_all add: algebra_simps)
  have "v2x = (U * v0x + V * v1x) / D" "v2y = (U * v0y + V * v1y) / D"
    using ix iy Dpos by (simp_all add: field_simps)
  then have rep: "v2x = u * v0x + w * v1x" "v2y = u * v0y + w * v1y"
    by (simp_all add: u_def w_def add_divide_distrib)
  have px: "vec_x p - px = (vec_x a - px) + u * ((vec_x c - px) - (vec_x a - px))
      + w * ((vec_x b - px) - (vec_x a - px))"
    using rep(1) unfolding v by (simp add: algebra_simps)
  have py: "vec_y p - py = (vec_y a - py) + u * ((vec_y c - py) - (vec_y a - py))
      + w * ((vec_y b - py) - (vec_y a - py))"
    using rep(2) unfolding v by (simp add: algebra_simps)
  show ?thesis
    unfolding px py
    using convex3_bound [OF uw hx(1,2,3)] convex3_bound [OF uw hy(1,2,3)] by simp
qed


lemma foldl_radius_start:
  "m \<le> foldl (\<lambda>m b. if b_radius b > m then b_radius b else m) m bs"
proof (induction bs arbitrary: m)
  case Nil
  show ?case by simp
next
  case (Cons a bs)
  have "m \<le> (if b_radius a > m then b_radius a else m)" by simp
  also have "\<dots> \<le> foldl (\<lambda>m b. if b_radius b > m then b_radius b else m)
      (if b_radius a > m then b_radius a else m) bs"
    by (rule Cons.IH)
  finally show ?case by simp
qed

lemma foldl_radius_ge:
  "b \<in> set bs \<Longrightarrow> b_radius b \<le> foldl (\<lambda>m b. if b_radius b > m then b_radius b else m) m bs"
proof (induction bs arbitrary: m)
  case Nil
  then show ?case by simp
next
  case (Cons a bs)
  show ?case
  proof (cases "b = a")
    case True
    have "b_radius a \<le> (if b_radius a > m then b_radius a else m)" by simp
    also have "\<dots> \<le> foldl (\<lambda>m b. if b_radius b > m then b_radius b else m)
        (if b_radius a > m then b_radius a else m) bs"
      by (rule foldl_radius_start)
    finally show ?thesis using True by simp
  next
    case False
    then have "b \<in> set bs" using Cons.prems by simp
    then show ?thesis using Cons.IH by simp
  qed
qed

lemma cellSizeFor_ge:
  "43 \<le> cellSizeFor bullets"
  "b \<in> set bullets \<Longrightarrow> 2 * b_radius b \<le> cellSizeFor bullets"
  using foldl_radius_ge [of b bullets BULLET_RADIUS]
  by (simp_all add: cellSizeFor_def maxBulletRadius_def SQUARE_SIZE_def TRIANGLE_SIZE_def)

lemma rot_bound:
  assumes n: "vec_x p * vec_x p + vec_y p * vec_y p \<le> R * R" and R: "0 \<le> R"
  shows "\<bar>vec_x (rot pos angle p) - vec_x pos\<bar> \<le> R \<and> \<bar>vec_y (rot pos angle p) - vec_y pos\<bar> \<le> R"
proof -
  define c s where "c = cos angle" and "s = sin angle"
  have cs: "c * c + s * s = 1"
    using sin_cos_squared_add2 [of angle] by (simp add: c_def s_def power2_eq_square)
  have e: "(vec_x p * c - vec_y p * s) * (vec_x p * c - vec_y p * s)
         + (vec_x p * s + vec_y p * c) * (vec_x p * s + vec_y p * c)
         = (vec_x p * vec_x p + vec_y p * vec_y p) * (c * c + s * s)"
    by (simp add: algebra_simps)
  have le: "(vec_x p * c - vec_y p * s) * (vec_x p * c - vec_y p * s)
         + (vec_x p * s + vec_y p * c) * (vec_x p * s + vec_y p * c) \<le> R * R"
    unfolding e cs using n by simp
  show ?thesis
    using abs_le_of_squares [OF le R] by (simp add: rot_def c_def s_def)
qed

lemma closestPointOnTriangle_bound:
  assumes den: "1 / 100000000 \<le>
        ((vec_x c - vec_x a) * (vec_x c - vec_x a) + (vec_y c - vec_y a) * (vec_y c - vec_y a))
        * ((vec_x b - vec_x a) * (vec_x b - vec_x a) + (vec_y b - vec_y a) * (vec_y b - vec_y a))
        - ((vec_x c - vec_x a) * (vec_x b - vec_x a) + (vec_y c - vec_y a) * (vec_y b - vec_y a))
        * ((vec_x c - vec_x a) * (vec_x b - vec_x a) + (vec_y c - vec_y a) * (vec_y b - vec_y a))"
    and hx: "\<bar>vec_x a - px\<bar> \<le> R" "\<bar>vec_x b - px\<bar> \<le> R" "\<bar>vec_x c - px\<bar> \<le> R"
    and hy: "\<bar>vec_y a - py\<bar> \<le> R" "\<bar>vec_y b - py\<bar> \<le> R" "\<bar>vec_y c - py\<bar> \<le> R"
  shows "\<bar>vec_x (closestPointOnTriangle p a b c) - px\<bar> \<le> R
       \<and> \<bar>vec_y (closestPointOnTriangle p a b c) - py\<bar> \<le> R"
proof (cases "pointInTriangle p a b c")
  case True
  have q: "closestPointOnTriangle p a b c = \<lparr>vec_x = vec_x p, vec_y = vec_y p\<rparr>"
    using True by (simp add: closestPointOnTriangle_def)
  show ?thesis
    unfolding q using pointInTriangle_bound [OF True den hx hy] by simp
next
  case False
  have s1: "\<bar>vec_x (closestPointOnSegment p a b) - px\<bar> \<le> R \<and> \<bar>vec_y (closestPointOnSegment p a b) - py\<bar> \<le> R"
    by (rule closestPointOnSegment_bound [OF hx(1,2) hy(1,2)])
  have s2: "\<bar>vec_x (closestPointOnSegment p b c) - px\<bar> \<le> R \<and> \<bar>vec_y (closestPointOnSegment p b c) - py\<bar> \<le> R"
    by (rule closestPointOnSegment_bound [OF hx(2,3) hy(2,3)])
  have s3: "\<bar>vec_x (closestPointOnSegment p c a) - px\<bar> \<le> R \<and> \<bar>vec_y (closestPointOnSegment p c a) - py\<bar> \<le> R"
    by (rule closestPointOnSegment_bound [OF hx(3,1) hy(3,1)])
  have "closestPointOnTriangle p a b c = closestPointOnSegment p a b
      \<or> closestPointOnTriangle p a b c = closestPointOnSegment p b c
      \<or> closestPointOnTriangle p a b c = closestPointOnSegment p c a"
    using False by (simp add: closestPointOnTriangle_def Let_def)
  then show ?thesis using s1 s2 s3 by metis
qed

lemma circleIntersectsTriangle_bound:
  assumes hit: "circleIntersectsTriangle center r a b c"
    and den: "1 / 100000000 \<le>
        ((vec_x c - vec_x a) * (vec_x c - vec_x a) + (vec_y c - vec_y a) * (vec_y c - vec_y a))
        * ((vec_x b - vec_x a) * (vec_x b - vec_x a) + (vec_y b - vec_y a) * (vec_y b - vec_y a))
        - ((vec_x c - vec_x a) * (vec_x b - vec_x a) + (vec_y c - vec_y a) * (vec_y b - vec_y a))
        * ((vec_x c - vec_x a) * (vec_x b - vec_x a) + (vec_y c - vec_y a) * (vec_y b - vec_y a))"
    and hx: "\<bar>vec_x a - px\<bar> \<le> R" "\<bar>vec_x b - px\<bar> \<le> R" "\<bar>vec_x c - px\<bar> \<le> R"
    and hy: "\<bar>vec_y a - py\<bar> \<le> R" "\<bar>vec_y b - py\<bar> \<le> R" "\<bar>vec_y c - py\<bar> \<le> R"
  shows "\<bar>vec_x center - px\<bar> \<le> \<bar>r\<bar> + R \<and> \<bar>vec_y center - py\<bar> \<le> \<bar>r\<bar> + R"
proof -
  define q where "q = closestPointOnTriangle center a b c"
  have qb: "\<bar>vec_x q - px\<bar> \<le> R \<and> \<bar>vec_y q - py\<bar> \<le> R"
    unfolding q_def by (rule closestPointOnTriangle_bound [OF den hx hy])
  have "(vec_x center - vec_x q) * (vec_x center - vec_x q)
      + (vec_y center - vec_y q) * (vec_y center - vec_y q) \<le> r * r"
    using hit unfolding circleIntersectsTriangle_def Let_def q_def .
  then have "(vec_x center - vec_x q) * (vec_x center - vec_x q)
      + (vec_y center - vec_y q) * (vec_y center - vec_y q) \<le> \<bar>r\<bar> * \<bar>r\<bar>"
    by simp
  from abs_le_of_squares [OF this]
  have d: "\<bar>vec_x center - vec_x q\<bar> \<le> \<bar>r\<bar>" "\<bar>vec_y center - vec_y q\<bar> \<le> \<bar>r\<bar>" by simp_all
  show ?thesis using d qb by linarith
qed

lemma rot_diff:
  "vec_x (rot pos ang p) - vec_x (rot pos ang q)
     = (vec_x p - vec_x q) * cos ang - (vec_y p - vec_y q) * sin ang"
  "vec_y (rot pos ang p) - vec_y (rot pos ang q)
     = (vec_x p - vec_x q) * sin ang + (vec_y p - vec_y q) * cos ang"
  by (simp_all add: rot_def algebra_simps)

lemma rot_dot_inv:
  fixes x1 y1 x2 y2 :: real
  shows "(x1 * cos ang - y1 * sin ang) * (x2 * cos ang - y2 * sin ang)
       + (x1 * sin ang + y1 * cos ang) * (x2 * sin ang + y2 * cos ang) = x1 * x2 + y1 * y2"
proof -
  define c s where "c = cos ang" and "s = sin ang"
  have cs: "c * c + s * s = 1"
    using sin_cos_squared_add2 [of ang] by (simp add: c_def s_def power2_eq_square)
  have e: "(x1 * c - y1 * s) * (x2 * c - y2 * s) + (x1 * s + y1 * c) * (x2 * s + y2 * c)
       = (x1 * x2 + y1 * y2) * (c * c + s * s)"
    by (simp add: algebra_simps)
  show ?thesis using e unfolding cs c_def s_def by simp
qed

lemma triangleWorldVerts_37:
  "triangleWorldVerts pos ang 37
     = (rot pos ang \<lparr>vec_x = 0, vec_y = - (37 * sqrt 3 / 3)\<rparr>,
        rot pos ang \<lparr>vec_x = 37 / 2, vec_y = 37 * sqrt 3 / 6\<rparr>,
        rot pos ang \<lparr>vec_x = - (37 / 2), vec_y = 37 * sqrt 3 / 6\<rparr>)"
  by (simp add: triangleWorldVerts_def Let_def)

lemma triangle_hit_bound:
  assumes hit: "case triangleWorldVerts pos ang 37 of
      (v0, v1, v2) \<Rightarrow> circleIntersectsTriangle center r v0 v1 v2"
  shows "\<bar>vec_x center - vec_x pos\<bar> \<le> \<bar>r\<bar> + 43 / 2 \<and> \<bar>vec_y center - vec_y pos\<bar> \<le> \<bar>r\<bar> + 43 / 2"
proof -
  define a b c where "a = rot pos ang \<lparr>vec_x = 0, vec_y = - (37 * sqrt 3 / 3)\<rparr>"
    and "b = rot pos ang \<lparr>vec_x = 37 / 2, vec_y = 37 * sqrt 3 / 6\<rparr>"
    and "c = rot pos ang \<lparr>vec_x = - (37 / 2), vec_y = 37 * sqrt 3 / 6\<rparr>"
  have hit': "circleIntersectsTriangle center r a b c"
    using hit unfolding triangleWorldVerts_37 a_def b_def c_def by simp
  have s3: "sqrt 3 * sqrt 3 = 3" "\<And>x::real. sqrt 3 * (sqrt 3 * x) = 3 * x"
  proof -
    show a: "sqrt 3 * sqrt 3 = 3" by simp
    show "sqrt 3 * (sqrt 3 * x) = 3 * x" for x :: real
      unfolding mult.assoc [symmetric] a by (rule refl)
  qed
  have n: "(0::real) * 0 + (- (37 * sqrt 3 / 3)) * (- (37 * sqrt 3 / 3)) \<le> (43 / 2) * (43 / 2)"
    "(37 / 2 :: real) * (37 / 2) + (37 * sqrt 3 / 6) * (37 * sqrt 3 / 6) \<le> (43 / 2) * (43 / 2)"
    "(- (37 / 2) :: real) * (- (37 / 2)) + (37 * sqrt 3 / 6) * (37 * sqrt 3 / 6) \<le> (43 / 2) * (43 / 2)"
    by (simp_all add: field_simps s3)
  have va: "\<bar>vec_x a - vec_x pos\<bar> \<le> 43 / 2 \<and> \<bar>vec_y a - vec_y pos\<bar> \<le> 43 / 2"
    unfolding a_def by (rule rot_bound) (use n(1) in simp_all)
  have vb: "\<bar>vec_x b - vec_x pos\<bar> \<le> 43 / 2 \<and> \<bar>vec_y b - vec_y pos\<bar> \<le> 43 / 2"
    unfolding b_def by (rule rot_bound) (use n(2) in simp_all)
  have vc: "\<bar>vec_x c - vec_x pos\<bar> \<le> 43 / 2 \<and> \<bar>vec_y c - vec_y pos\<bar> \<le> 43 / 2"
    unfolding c_def by (rule rot_bound) (use n(3) in simp_all)
  have d00: "(vec_x c - vec_x a) * (vec_x c - vec_x a) + (vec_y c - vec_y a) * (vec_y c - vec_y a) = 1369"
    unfolding a_def b_def c_def rot_diff rot_dot_inv by (simp add: field_simps s3)
  have d11: "(vec_x b - vec_x a) * (vec_x b - vec_x a) + (vec_y b - vec_y a) * (vec_y b - vec_y a) = 1369"
    unfolding a_def b_def c_def rot_diff rot_dot_inv by (simp add: field_simps s3)
  have d01: "(vec_x c - vec_x a) * (vec_x b - vec_x a) + (vec_y c - vec_y a) * (vec_y b - vec_y a) = 1369 / 2"
    unfolding a_def b_def c_def rot_diff rot_dot_inv by (simp add: field_simps s3)
  have den: "1 / 100000000 \<le>
        ((vec_x c - vec_x a) * (vec_x c - vec_x a) + (vec_y c - vec_y a) * (vec_y c - vec_y a))
        * ((vec_x b - vec_x a) * (vec_x b - vec_x a) + (vec_y b - vec_y a) * (vec_y b - vec_y a))
        - ((vec_x c - vec_x a) * (vec_x b - vec_x a) + (vec_y c - vec_y a) * (vec_y b - vec_y a))
        * ((vec_x c - vec_x a) * (vec_x b - vec_x a) + (vec_y c - vec_y a) * (vec_y b - vec_y a))"
    unfolding d00 d11 d01 by simp
  show ?thesis
    by (rule circleIntersectsTriangle_bound [OF hit' den]) (use va vb vc in simp_all)
qed

lemma square_hit_bound:
  assumes hit: "bulletHitsEntity b ent" and k: "e_kind ent = Square" and r: "0 \<le> b_radius b"
  shows "\<bar>vec_x (b_pos b) - vec_x (e_pos ent)\<bar> \<le> b_radius b + computeEntityCollisionRadius (e_size ent)"
    and "\<bar>vec_y (b_pos b) - vec_y (e_pos ent)\<bar> \<le> b_radius b + computeEntityCollisionRadius (e_size ent)"
proof -
  have c: "0 \<le> b_radius b + computeEntityCollisionRadius (e_size ent)"
    using r by (simp add: computeEntityCollisionRadius_def)
  have le: "(vec_x (b_pos b) - vec_x (e_pos ent)) * (vec_x (b_pos b) - vec_x (e_pos ent))
      + (vec_y (b_pos b) - vec_y (e_pos ent)) * (vec_y (b_pos b) - vec_y (e_pos ent))
      \<le> (b_radius b + computeEntityCollisionRadius (e_size ent))
        * (b_radius b + computeEntityCollisionRadius (e_size ent))"
    using hit k by (simp add: bulletHitsEntity_def Let_def)
  show "\<bar>vec_x (b_pos b) - vec_x (e_pos ent)\<bar> \<le> b_radius b + computeEntityCollisionRadius (e_size ent)"
    and "\<bar>vec_y (b_pos b) - vec_y (e_pos ent)\<bar> \<le> b_radius b + computeEntityCollisionRadius (e_size ent)"
    using abs_le_of_squares [OF le c] by simp_all
qed

lemma triangle_entity_hit_bound:
  assumes hit: "bulletHitsEntity b ent" and k: "e_kind ent = Triangle" and sz: "e_size ent = TRIANGLE_SIZE"
  shows "\<bar>vec_x (b_pos b) - vec_x (e_pos ent)\<bar> \<le> \<bar>b_radius b\<bar> + 43 / 2"
    and "\<bar>vec_y (b_pos b) - vec_y (e_pos ent)\<bar> \<le> \<bar>b_radius b\<bar> + 43 / 2"
proof -
  have "case triangleWorldVerts (e_pos ent) (e_angle ent) 37 of
      (v0, v1, v2) \<Rightarrow> circleIntersectsTriangle \<lparr>vec_x = vec_x (b_pos b), vec_y = vec_y (b_pos b)\<rparr>
         (b_radius b) v0 v1 v2"
    using hit k sz
    by (simp add: bulletHitsEntity_def Let_def TRIANGLE_SIZE_def ENTITY_COLLISION_INSET_def)
  from triangle_hit_bound [OF this]
  show "\<bar>vec_x (b_pos b) - vec_x (e_pos ent)\<bar> \<le> \<bar>b_radius b\<bar> + 43 / 2"
    and "\<bar>vec_y (b_pos b) - vec_y (e_pos ent)\<bar> \<le> \<bar>b_radius b\<bar> + 43 / 2"
    by simp_all
qed

lemma scanOrder_mem:
  assumes i: "i < length entities"
    and x: "\<bar>fst (cellOf c (e_pos (entities ! i))) - fst (cellOf c (b_pos b))\<bar> \<le> 1"
    and y: "\<bar>snd (cellOf c (e_pos (entities ! i))) - snd (cellOf c (b_pos b))\<bar> \<le> 1"
  shows "i \<in> set (scanOrder c (buildBins c entities) b)"
proof -
  obtain ex ey where e: "cellOf c (e_pos (entities ! i)) = (ex, ey)" by (cases "cellOf c (e_pos (entities ! i))")
  obtain bx bj where bc: "cellOf c (b_pos b) = (bx, bj)" by (cases "cellOf c (b_pos b)")
  have dx: "ex - bx \<in> {- 1, 0, 1}" using x unfolding e bc by auto
  have dy: "ey - bj \<in> {- 1, 0, 1}" using y unfolding e bc by auto
  have m: "i \<in> set (buildBins c entities (key (bx + (ex - bx)) (bj + (ey - bj))))"
    using i e by (simp add: buildBins_def)
  have "\<exists>dx\<in>{- 1, 0, 1}. \<exists>dy\<in>{- 1, 0, 1}. i \<in> set (buildBins c entities (key (bx + dx) (bj + dy)))"
    using dx dy m by blast
  then show ?thesis
    unfolding scanOrder_def bc by simp
qed

lemma cells_near:
  assumes c: "0 < c"
    and x: "\<bar>vec_x q - vec_x p\<bar> \<le> c" and y: "\<bar>vec_y q - vec_y p\<bar> \<le> c"
  shows "\<bar>fst (cellOf c p) - fst (cellOf c q)\<bar> \<le> 1" "\<bar>snd (cellOf c p) - snd (cellOf c q)\<bar> \<le> 1"
  using floor_div_near [OF c, of "vec_x p" "vec_x q"] floor_div_near [OF c, of "vec_y p" "vec_y q"] x y
  by (simp_all add: cellOf_def abs_minus_commute)

text \<open>
  Completeness of the scan. Let a bullet of the list, of non-negative radius, and an
  entity of the size of its kind pass the narrow-phase test. If the entity is a
  triangle, or if it is a square and the radius of the bullet plus the collision radius
  of the square is at most the cell size, then the cells of the two differ by at most one
  in each axis and the entity is among those that the three loops over the neighbouring
  cells visit for this bullet.
\<close>

theorem broad_phase_covers:
  assumes b: "b \<in> set bullets"
    and i: "i < length entities"
    and size: "e_size (entities ! i) = (if e_kind (entities ! i) = Square then SQUARE_SIZE else TRIANGLE_SIZE)"
    and r: "0 \<le> b_radius b"
    and sq: "e_kind (entities ! i) = Square
               \<longrightarrow> b_radius b + computeEntityCollisionRadius SQUARE_SIZE \<le> cellSizeFor bullets"
    and hit: "bulletHitsEntity b (entities ! i)"
  shows "\<bar>fst (cellOf (cellSizeFor bullets) (e_pos (entities ! i)))
            - fst (cellOf (cellSizeFor bullets) (b_pos b))\<bar> \<le> 1 \<and>
         \<bar>snd (cellOf (cellSizeFor bullets) (e_pos (entities ! i)))
            - snd (cellOf (cellSizeFor bullets) (b_pos b))\<bar> \<le> 1 \<and>
         i \<in> set (scanOrder (cellSizeFor bullets) (buildBins (cellSizeFor bullets) entities) b)"
proof -
  define c where "c = cellSizeFor bullets"
  define ent where "ent = entities ! i"
  have c43: "43 \<le> c" and c2r: "2 * b_radius b \<le> c"
    unfolding c_def using cellSizeFor_ge(1) [of bullets] cellSizeFor_ge(2) [OF b] by simp_all
  have cpos: "0 < c" using c43 by simp
  have d: "\<bar>vec_x (b_pos b) - vec_x (e_pos ent)\<bar> \<le> c \<and> \<bar>vec_y (b_pos b) - vec_y (e_pos ent)\<bar> \<le> c"
  proof (cases "e_kind ent")
    case Square
    have s: "e_size ent = SQUARE_SIZE" using size Square by (simp add: ent_def)
    have le: "b_radius b + computeEntityCollisionRadius (e_size ent) \<le> c"
      using sq Square s unfolding c_def ent_def by simp
    show ?thesis
      using square_hit_bound [OF hit [folded ent_def] Square r] le by linarith
  next
    case Triangle
    have s: "e_size ent = TRIANGLE_SIZE" using size Triangle by (simp add: ent_def)
    have le: "\<bar>b_radius b\<bar> + 43 / 2 \<le> c" using r c43 c2r by simp
    show ?thesis
      using triangle_entity_hit_bound [OF hit [folded ent_def] Triangle s] le by linarith
  qed
  have n: "\<bar>fst (cellOf c (e_pos ent)) - fst (cellOf c (b_pos b))\<bar> \<le> 1"
    "\<bar>snd (cellOf c (e_pos ent)) - snd (cellOf c (b_pos b))\<bar> \<le> 1"
    using cells_near [OF cpos, of "b_pos b" "e_pos ent"] d by simp_all
  have m: "i \<in> set (scanOrder c (buildBins c entities) b)"
    by (rule scanOrder_mem [OF i]) (use n in \<open>simp_all add: ent_def\<close>)
  show ?thesis using n m unfolding c_def ent_def by simp
qed

lemma sqrt2_bounds: "7 / 5 \<le> sqrt 2" "sqrt 2 \<le> 3 / 2"
  by (rule real_le_rsqrt, simp add: power2_eq_square) (rule real_le_lsqrt, simp_all add: power2_eq_square)

lemma square_collision_radius:
  "computeEntityCollisionRadius SQUARE_SIZE = 19 * sqrt 2 - 3"
  using sqrt2_bounds(1)
  by (simp add: computeEntityCollisionRadius_def SQUARE_SIZE_def ENTITY_COLLISION_INSET_def)

lemma exEdge_cellSize:
  "cellSizeFor [exEdgeBullet (43 / 2)] = 43" "cellSizeFor [exEdgeBullet 11] = 43"
  by (simp_all add: cellSizeFor_def maxBulletRadius_def exEdgeBullet_def BULLET_RADIUS_def
      SQUARE_SIZE_def TRIANGLE_SIZE_def)

lemma exEdge_cells:
  "cellOf 43 (b_pos (exEdgeBullet r)) = (2, 2)"
  "cellOf 43 (e_pos (exSquareAt 172)) = (4, 2)"
  "cellOf 43 (e_pos (exSquareAt 136)) = (3, 2)"
  by (simp_all add: cellOf_def exEdgeBullet_def exSquareAt_def newEntity_def)

lemma exSquareAt_fields:
  "e_kind (exSquareAt x) = Square" "e_size (exSquareAt x) = SQUARE_SIZE"
  "e_pos (exSquareAt x) = \<lparr>vec_x = x, vec_y = 100\<rparr>"
  by (simp_all add: exSquareAt_def newEntity_def)

lemma exEdge_hits:
  "bulletHitsEntity (exEdgeBullet (43 / 2)) (exSquareAt 172)"
  "bulletHitsEntity (exEdgeBullet 11) (exSquareAt 136)"
proof -
  have a: "(44::real) \<le> 43 / 2 + (19 * sqrt 2 - 3)" using sqrt2_bounds(1) by simp
  have "(44::real) * 44 \<le> (43 / 2 + (19 * sqrt 2 - 3)) * (43 / 2 + (19 * sqrt 2 - 3))"
    by (rule mult_mono [OF a a]) (use a in simp_all)
  then show "bulletHitsEntity (exEdgeBullet (43 / 2)) (exSquareAt 172)"
    by (simp add: bulletHitsEntity_def exSquareAt_fields square_collision_radius Let_def exEdgeBullet_def)
  have b: "(8::real) \<le> 11 + (19 * sqrt 2 - 3)" using sqrt2_bounds(1) by simp
  have "(8::real) * 8 \<le> (11 + (19 * sqrt 2 - 3)) * (11 + (19 * sqrt 2 - 3))"
    by (rule mult_mono [OF b b]) (use b in simp_all)
  then show "bulletHitsEntity (exEdgeBullet 11) (exSquareAt 136)"
    by (simp add: bulletHitsEntity_def exSquareAt_fields square_collision_radius Let_def exEdgeBullet_def)
qed







text \<open>
  The same bullet with radius 11 and a square at (136, 100), in the cell to the right of
  the bullet: the scan finds it.
\<close>

theorem broad_phase_covers_witness:
  "exEdgeBullet 11 \<in> set [exEdgeBullet 11] \<and> (0::nat) < length [exSquareAt 136] \<and>
   e_kind ([exSquareAt 136] ! 0) = Square \<and> e_size ([exSquareAt 136] ! 0) = SQUARE_SIZE \<and>
   0 \<le> b_radius (exEdgeBullet 11) \<and>
   b_radius (exEdgeBullet 11) + computeEntityCollisionRadius SQUARE_SIZE \<le> cellSizeFor [exEdgeBullet 11] \<and>
   bulletHitsEntity (exEdgeBullet 11) ([exSquareAt 136] ! 0) \<and>
   cellOf (cellSizeFor [exEdgeBullet 11]) (b_pos (exEdgeBullet 11)) = (2, 2) \<and>
   cellOf (cellSizeFor [exEdgeBullet 11]) (e_pos ([exSquareAt 136] ! 0)) = (3, 2) \<and>
   0 \<in> set (scanOrder (cellSizeFor [exEdgeBullet 11])
              (buildBins (cellSizeFor [exEdgeBullet 11]) [exSquareAt 136]) (exEdgeBullet 11))"
proof -
  have r: "b_radius (exEdgeBullet 11) = 11" by (simp add: exEdgeBullet_def)
  have reach: "b_radius (exEdgeBullet 11) + computeEntityCollisionRadius SQUARE_SIZE
      \<le> cellSizeFor [exEdgeBullet 11]"
    unfolding r exEdge_cellSize square_collision_radius using sqrt2_bounds(2) by simp
  have c: "\<bar>fst (cellOf (cellSizeFor [exEdgeBullet 11]) (e_pos ([exSquareAt 136] ! 0)))
            - fst (cellOf (cellSizeFor [exEdgeBullet 11]) (b_pos (exEdgeBullet 11)))\<bar> \<le> 1 \<and>
         \<bar>snd (cellOf (cellSizeFor [exEdgeBullet 11]) (e_pos ([exSquareAt 136] ! 0)))
            - snd (cellOf (cellSizeFor [exEdgeBullet 11]) (b_pos (exEdgeBullet 11)))\<bar> \<le> 1 \<and>
         0 \<in> set (scanOrder (cellSizeFor [exEdgeBullet 11])
                (buildBins (cellSizeFor [exEdgeBullet 11]) [exSquareAt 136]) (exEdgeBullet 11))"
    by (rule broad_phase_covers) (use reach exEdge_hits(2) in \<open>simp_all add: exSquareAt_fields r\<close>)
  show ?thesis
    using c reach exEdge_hits(2) exEdge_cells(1) [of 11] exEdge_cells(3)
    by (simp add: exSquareAt_fields r exEdge_cellSize)
qed

lemma square_reach_sufficient:
  assumes b: "b \<in> set bullets"
    and r: "b_radius b \<le> 19 \<or> 24 \<le> maxBulletRadius bullets"
  shows "b_radius b + computeEntityCollisionRadius SQUARE_SIZE \<le> cellSizeFor bullets"
proof -
  have cr: "computeEntityCollisionRadius SQUARE_SIZE \<le> 24"
  proof -
    have "sqrt 2 \<le> 27 / 19" by (rule real_le_lsqrt) (simp_all add: power2_eq_square)
    then show ?thesis unfolding square_collision_radius by simp
  qed
  have m: "b_radius b \<le> maxBulletRadius bullets"
    unfolding maxBulletRadius_def by (rule foldl_radius_ge [OF b])
  have c: "43 \<le> cellSizeFor bullets" "2 * maxBulletRadius bullets \<le> cellSizeFor bullets"
    by (simp_all add: cellSizeFor_def SQUARE_SIZE_def TRIANGLE_SIZE_def)
  show ?thesis using r cr m c by linarith
qed

end
